(* ===== verification/Prelude.thy ===== *)
theory Prelude
  imports Main "HOL-Library.List_Lexorder" "HOL-Library.Word"
begin

text \<open>
  Shared vocabulary of the development: failures as values, the error monad that stands for
  \<open>throw\<close> and \<open>revert\<close>, reads of a JavaScript array, and the generic lemmas on lists the
  components use.  Collections: \<open>result_simps\<close> (the equations that run a computation of type
  \<open>'a result\<close>).
\<close>

named_theorems result_simps \<open>equations that evaluate computations of type result\<close>

section \<open>Failures\<close>

text \<open>
  \<open>Throw\<close> is an exception of the TypeScript runtime (of the code or of a library it calls),
  \<open>Revert\<close> a reverted transaction of a contract, with its message.
\<close>

datatype failure = Throw string | Revert string

type_synonym 'a result = "failure + 'a"

definition bindE :: "'a result \<Rightarrow> ('a \<Rightarrow> 'b result) \<Rightarrow> 'b result" where
  "bindE m f = (case m of Inl e \<Rightarrow> Inl e | Inr x \<Rightarrow> f x)"

definition require :: "bool \<Rightarrow> string \<Rightarrow> unit result" where
  "require b msg = (if b then Inr () else Inl (Revert msg))"

primrec foldE :: "('s \<Rightarrow> 'x \<Rightarrow> 's result) \<Rightarrow> 's \<Rightarrow> 'x list \<Rightarrow> 's result" where
  "foldE f s [] = Inr s"
| "foldE f s (x # xs) = bindE (f s x) (\<lambda>s'. foldE f s' xs)"

lemma bindE_simps [simp, result_simps]:
  "bindE (Inl e) f = Inl e"
  "bindE (Inr x) f = f x"
  by (simp_all add: bindE_def)

lemma bindE_eq_Inr [simp]:
  "bindE m f = Inr y \<longleftrightarrow> (\<exists>x. m = Inr x \<and> f x = Inr y)"
  by (cases m) auto

lemma bindE_eq_Inl:
  "bindE m f = Inl e \<longleftrightarrow> m = Inl e \<or> (\<exists>x. m = Inr x \<and> f x = Inl e)"
  by (cases m) auto

lemma require_simps [simp, result_simps]:
  "require True msg = Inr ()"
  "require False msg = Inl (Revert msg)"
  by (simp_all add: require_def)

lemma require_eq_Inr [simp]: "require b msg = Inr u \<longleftrightarrow> b"
  by (simp add: require_def)

lemma require_eq_Inl [simp]: "require b msg = Inl e \<longleftrightarrow> \<not> b \<and> e = Revert msg"
  by (auto simp: require_def)

lemma foldE_append:
  "foldE f s (xs @ ys) = bindE (foldE f s xs) (\<lambda>s'. foldE f s' ys)"
proof (induction xs arbitrary: s)
  case (Cons x xs)
  then show ?case by (cases "f s x") simp_all
qed simp

text \<open>A predicate kept by every step of a loop that may fail holds for its result.\<close>

lemma foldE_invariant:
  assumes "foldE f s xs = Inr s'" and "P s"
    and "\<And>s x t. x \<in> set xs \<Longrightarrow> P s \<Longrightarrow> f s x = Inr t \<Longrightarrow> P t"
  shows "P s'"
  using assms
proof (induction xs arbitrary: s)
  case (Cons x xs)
  from Cons.prems(1) obtain t where t: "f s x = Inr t" "foldE f t xs = Inr s'" by auto
  have "P t"
    using Cons.prems(3) [of x s t] Cons.prems(2) t(1) by simp
  show ?case
    by (rule Cons.IH [OF t(2) \<open>P t\<close>]) (rule Cons.prems(3), simp_all)
qed simp

section \<open>Arrays\<close>

text \<open>\<open>arr[i]\<close> of JavaScript: \<open>undefined\<close> (here \<open>None\<close>) outside the array.\<close>

definition arr_get :: "'a list \<Rightarrow> nat \<Rightarrow> 'a option" where
  "arr_get xs i = (if i < length xs then Some (xs ! i) else None)"

lemma arr_get_Some [simp]: "arr_get xs i = Some x \<longleftrightarrow> i < length xs \<and> xs ! i = x"
  by (simp add: arr_get_def)

lemma arr_get_None [simp]: "arr_get xs i = None \<longleftrightarrow> length xs \<le> i"
  by (simp add: arr_get_def)

lemma arr_get_in [simp]: "i < length xs \<Longrightarrow> arr_get xs i = Some (xs ! i)"
  by simp

lemma enumerate_take_Suc:
  "m < length xs \<Longrightarrow> enumerate 0 (take (Suc m) xs) = enumerate 0 (take m xs) @ [(m, xs ! m)]"
  by (simp add: take_Suc_conv_app_nth enumerate_append_eq)

lemma sort_swap: "sort [a, b] = sort [b, a]" for a b :: "'a::linorder"
  by auto

section \<open>Decimal numerals\<close>

text \<open>
  \<open>BigNumber.from\<close> of a string of decimal digits; \<open>None\<close> for other strings, on which it throws
  (hexadecimal and signed strings do not occur in the code).
\<close>

definition is_digit :: "char \<Rightarrow> bool" where
  "is_digit ch \<longleftrightarrow> 48 \<le> (of_char ch :: nat) \<and> (of_char ch :: nat) \<le> 57"

definition decimal :: "string \<Rightarrow> nat option" where
  "decimal t = (if t \<noteq> [] \<and> list_all is_digit t
     then Some (foldl (\<lambda>n ch. 10 * n + (of_char ch - 48)) 0 t) else None)"

end
