(* ===== verification/Buffers.thy ===== *)
theory Buffers
  imports Prelude
begin

text \<open>
  Node's \<open>Buffer\<close>: a list of bytes, ordered by \<open>Buffer.compare\<close> (lexicographically, which is
  the order of \<open>HOL-Library.List_Lexorder\<close>), and its hexadecimal text:
  \<open>bufferToHex\<close> of ethereumjs-util (\<open>'0x' + buf.toString('hex')\<close>) and
  \<open>Buffer.from(s, 'hex')\<close>, which decodes pairs of digits up to the first that is not one.
\<close>

type_synonym byte = "8 word"
type_synonym buffer = "byte list"

definition hex_digits :: string where
  "hex_digits = ''0123456789abcdef''"

definition hex_char :: "nat \<Rightarrow> char" where
  "hex_char n = hex_digits ! n"

definition hex_val :: "char \<Rightarrow> nat option" where
  "hex_val c =
     (let n = of_char c in
      if 48 \<le> n \<and> n \<le> 57 then Some (n - 48)
      else if 97 \<le> n \<and> n \<le> 102 then Some (n - 87)
      else if 65 \<le> n \<and> n \<le> 70 then Some (n - 55)
      else None)"

definition byte_hex :: "byte \<Rightarrow> string" where
  "byte_hex b = [hex_char (unat b div 16), hex_char (unat b mod 16)]"

primrec toHex :: "buffer \<Rightarrow> string" where
  "toHex [] = []"
| "toHex (b # bs) = byte_hex b @ toHex bs"

definition bufferToHex :: "buffer \<Rightarrow> string" where
  "bufferToHex bs = ''0x'' @ toHex bs"

fun fromHex :: "string \<Rightarrow> buffer" where
  "fromHex (c # d # s) =
     (case (hex_val c, hex_val d) of
        (Some m, Some n) \<Rightarrow> word_of_nat (16 * m + n) # fromHex s
      | _ \<Rightarrow> [])"
| "fromHex _ = []"

section \<open>Hexadecimal round trip\<close>

lemma hex_val_hex_char [simp]:
  assumes "n < 16"
  shows "hex_val (hex_char n) = Some n"
proof -
  from assms have "n \<in> set [0 ..< 16]" by simp
  moreover have "\<forall>n \<in> set [0 ..< 16]. hex_val (hex_char n) = Some n"
    by code_simp
  ultimately show ?thesis by blast
qed

lemma nibbles [simp]:
  "unat (b :: byte) div 16 < 16" "unat b mod 16 < 16"
proof -
  have "unat b < 256" using unsigned_less [of b] by simp
  then show "unat b div 16 < 16" by (simp add: less_mult_imp_div_less)
qed simp

lemma fromHex_byte_hex [simp]: "fromHex (byte_hex b @ s) = b # fromHex s"
  by (simp add: byte_hex_def mult.commute [of 16])

lemma fromHex_toHex [simp]: "fromHex (toHex bs) = bs"
  by (induction bs) simp_all

lemma toHex_inject [simp]: "toHex a = toHex b \<longleftrightarrow> a = b"
  by (metis fromHex_toHex)

lemma bufferToHex_inject [simp]: "bufferToHex a = bufferToHex b \<longleftrightarrow> a = b"
  by (simp add: bufferToHex_def)

lemma length_toHex [simp]: "length (toHex bs) = 2 * length bs"
  by (induction bs) (simp_all add: byte_hex_def)

lemma fromHex_bufferToHex [simp]: "fromHex (drop 2 (bufferToHex bs)) = bs"
  by (simp add: bufferToHex_def)

end
