(* ===== verification/Merkle_Tree.thy ===== *)
theory Merkle_Tree
  imports Buffers
begin

text \<open>
  \<open>utils/merkle-tree.ts\<close>: the class \<open>MerkleTree\<close>, a sorted, deduplicated Merkle tree whose
  inner nodes hash the sorted concatenation of their children.  The hash \<open>keccak256\<close> of
  ethereumjs-util is the parameter \<open>K\<close> of every definition.
\<close>

section \<open>Hashing two nodes\<close>

definition sortAndConcat :: "buffer list \<Rightarrow> buffer" where
  "sortAndConcat args = concat (sort args)"

fun combinedHash :: "(buffer \<Rightarrow> buffer) \<Rightarrow> buffer option \<Rightarrow> buffer option \<Rightarrow> buffer option" where
  "combinedHash K None second = second"
| "combinedHash K (Some first) None = Some first"
| "combinedHash K (Some first) (Some second) = Some (K (sortAndConcat [first, second]))"

section \<open>The layers\<close>

definition getNextLayer :: "(buffer \<Rightarrow> buffer) \<Rightarrow> buffer list \<Rightarrow> buffer list" where
  "getNextLayer K elements =
     foldl (\<lambda>layer (idx, el).
              if idx mod 2 = 0
              then (case combinedHash K (Some el) (arr_get elements (idx + 1)) of
                      Some h \<Rightarrow> layer @ [h] | None \<Rightarrow> layer)
              else layer)
       [] (enumerate 0 elements)"

text \<open>The hash of the pair that starts at an even index, or the element left alone.\<close>

definition pair_hash :: "(buffer \<Rightarrow> buffer) \<Rightarrow> buffer list \<Rightarrow> nat \<Rightarrow> buffer" where
  "pair_hash K xs i =
     (if i + 1 < length xs then K (sortAndConcat [xs ! i, xs ! (i + 1)]) else xs ! i)"

lemma combinedHash_pair [simp]:
  "i < length xs \<Longrightarrow> combinedHash K (Some (xs ! i)) (arr_get xs (i + 1)) = Some (pair_hash K xs i)"
  by (simp add: pair_hash_def arr_get_def)

lemma getNextLayer_prefix:
  "m \<le> length xs \<Longrightarrow>
   foldl (\<lambda>layer (idx, el).
              if idx mod 2 = 0
              then (case combinedHash K (Some el) (arr_get xs (idx + 1)) of
                      Some h \<Rightarrow> layer @ [h] | None \<Rightarrow> layer)
              else layer)
       [] (enumerate 0 (take m xs)) = map (\<lambda>i. pair_hash K xs (2 * i)) [0 ..< (m + 1) div 2]"
proof (induction m)
  case (Suc m)
  show ?case
  proof (cases "m mod 2 = 0")
    case True
    then have "(Suc m + 1) div 2 = Suc ((m + 1) div 2)" "2 * ((m + 1) div 2) = m" by presburger+
    with True Suc show ?thesis
      by (simp add: enumerate_take_Suc combinedHash_pair [unfolded Suc_eq_plus1 [symmetric]])
  next
    case False
    then have "(Suc m + 1) div 2 = (m + 1) div 2" by presburger
    with False Suc show ?thesis by (simp add: enumerate_take_Suc)
  qed
qed simp

lemma getNextLayer_eq:
  "getNextLayer K xs = map (\<lambda>i. pair_hash K xs (2 * i)) [0 ..< (length xs + 1) div 2]"
  using getNextLayer_prefix [of "length xs" xs K] by (simp add: getNextLayer_def)

lemma length_getNextLayer [simp]: "length (getNextLayer K xs) = (length xs + 1) div 2"
  by (simp add: getNextLayer_eq)

lemma getNextLayer_nth:
  "i < (length xs + 1) div 2 \<Longrightarrow> getNextLayer K xs ! i = pair_hash K xs (2 * i)"
  by (simp add: getNextLayer_eq)

text \<open>
  The \<open>while\<close> loop of \<open>getLayers\<close>: it pushes the next layer as long as the last one has more
  than one element.
\<close>

function layers_loop :: "(buffer \<Rightarrow> buffer) \<Rightarrow> buffer list list \<Rightarrow> buffer list list" where
  "layers_loop K layers =
     (if length (last layers) > 1
      then layers_loop K (layers @ [getNextLayer K (last layers)])
      else layers)"
  by pat_completeness auto
termination
  by (relation "measure (\<lambda>(K, layers). length (last layers))") auto

declare layers_loop.simps [simp del]

definition getLayers :: "(buffer \<Rightarrow> buffer) \<Rightarrow> buffer list \<Rightarrow> buffer list list result" where
  "getLayers K elements =
     (if length elements = 0 then Inl (Throw ''empty tree'')
      else Inr (layers_loop K [elements]))"

text \<open>The same layers by recursion on the layer, the form the proofs use.\<close>

function layers_of :: "(buffer \<Rightarrow> buffer) \<Rightarrow> buffer list \<Rightarrow> buffer list list" where
  "layers_of K xs = xs # (if length xs > 1 then layers_of K (getNextLayer K xs) else [])"
  by pat_completeness auto
termination
  by (relation "measure (\<lambda>(K, xs). length xs)") auto

declare layers_of.simps [simp del]

lemma layers_loop_eq: "layers_loop K (pre @ [xs]) = pre @ layers_of K xs"
proof (induction K xs arbitrary: pre rule: layers_of.induct)
  case (1 K xs)
  show ?case
    using "1" [of "pre @ [xs]"]
    by (simp add: layers_loop.simps [of K "pre @ [xs]"] layers_of.simps [of K xs])
qed

lemma getLayers_eq: "xs \<noteq> [] \<Longrightarrow> getLayers K xs = Inr (layers_of K xs)"
  using layers_loop_eq [of K "[]" xs] by (simp add: getLayers_def)

lemma layers_of_nonempty [simp]: "layers_of K xs \<noteq> []"
  by (simp add: layers_of.simps [of K xs])

section \<open>Construction of the tree\<close>

definition bufDedup :: "buffer list \<Rightarrow> buffer list" where
  "bufDedup elements =
     map snd (filter (\<lambda>(idx, el). idx = 0 \<or> elements ! (idx - 1) \<noteq> el) (enumerate 0 elements))"

record merkle_tree =
  elements :: "buffer list"
  bufferElementPositionIndex :: "string \<rightharpoonup> nat"
  layers :: "buffer list list"

definition positionIndex :: "buffer list \<Rightarrow> (string \<rightharpoonup> nat)" where
  "positionIndex els =
     foldl (\<lambda>memo (index, el). memo(bufferToHex el \<mapsto> index)) Map.empty (enumerate 0 els)"

definition mkMerkleTree :: "(buffer \<Rightarrow> buffer) \<Rightarrow> buffer list \<Rightarrow> merkle_tree result" where
  "mkMerkleTree K els =
     (let els' = bufDedup (sort els) in
      bindE (getLayers K els') (\<lambda>ls.
      Inr \<lparr>elements = els', bufferElementPositionIndex = positionIndex els', layers = ls\<rparr>))"

section \<open>Root and proofs\<close>

definition getRoot :: "merkle_tree \<Rightarrow> buffer" where
  "getRoot t = last (layers t) ! 0"

definition getHexRoot :: "merkle_tree \<Rightarrow> string" where
  "getHexRoot t = bufferToHex (getRoot t)"

definition getPairElement :: "nat \<Rightarrow> buffer list \<Rightarrow> buffer option" where
  "getPairElement idx layer =
     (let pairIdx = (if idx mod 2 = 0 then idx + 1 else idx - 1) in
      if pairIdx < length layer then Some (layer ! pairIdx) else None)"

definition proof_step :: "buffer list \<times> nat \<Rightarrow> buffer list \<Rightarrow> buffer list \<times> nat" where
  "proof_step = (\<lambda>(pf, idx) layer.
     (case getPairElement idx layer of Some p \<Rightarrow> pf @ [p] | None \<Rightarrow> pf, idx div 2))"

definition getProof :: "merkle_tree \<Rightarrow> buffer \<Rightarrow> buffer list result" where
  "getProof t el =
     (case bufferElementPositionIndex t (bufferToHex el) of
        None \<Rightarrow> Inl (Throw ''Element does not exist in Merkle tree'')
      | Some idx \<Rightarrow> Inr (fst (foldl proof_step ([], idx) (layers t))))"

definition bufArrToHexArr :: "buffer list \<Rightarrow> string list" where
  "bufArrToHexArr arr = map (\<lambda>el. ''0x'' @ toHex el) arr"

definition getHexProof :: "merkle_tree \<Rightarrow> buffer \<Rightarrow> string list result" where
  "getHexProof t el = bindE (getProof t el) (\<lambda>pf. Inr (bufArrToHexArr pf))"

section \<open>The elements of the tree\<close>

lemma remdups_adj_snoc:
  "remdups_adj (xs @ [x]) =
     (if xs = [] \<or> last xs \<noteq> x then remdups_adj xs @ [x] else remdups_adj xs)"
  by (cases xs rule: rev_cases) (auto simp: remdups_adj_append_two remdups_adj_append'')

lemma bufDedup_snoc:
  "bufDedup (xs @ [x]) =
     (if xs = [] \<or> last xs \<noteq> x then bufDedup xs @ [x] else bufDedup xs)"
proof -
  have "filter (\<lambda>(idx, el). idx = 0 \<or> (xs @ [x]) ! (idx - 1) \<noteq> el) (enumerate 0 xs)
      = filter (\<lambda>(idx, el). idx = 0 \<or> xs ! (idx - 1) \<noteq> el) (enumerate 0 xs)"
    by (rule filter_cong) (auto simp: in_set_enumerate_eq nth_append split: if_splits)
  then show ?thesis
    by (auto simp: bufDedup_def enumerate_append_eq nth_append last_conv_nth)
qed

lemma bufDedup_eq: "bufDedup xs = remdups_adj xs"
proof (induction xs rule: rev_induct)
  case (snoc x xs)
  then show ?case by (simp add: bufDedup_snoc remdups_adj_snoc)
qed (simp add: bufDedup_def)

lemma sorted_imp_distinct_remdups_adj: "sorted xs \<Longrightarrow> distinct (remdups_adj xs)"
  by (induction xs rule: remdups_adj.induct) auto

lemma sorted_elements: "bufDedup (sort els) = sorted_list_of_set (set els)"
  by (rule sorted_distinct_set_unique)
     (auto simp: bufDedup_eq sorted_imp_distinct_remdups_adj)

lemma mkMerkleTree_eq:
  "mkMerkleTree K els =
     (let els' = sorted_list_of_set (set els) in
      if els = [] then Inl (Throw ''empty tree'')
      else Inr \<lparr>elements = els', bufferElementPositionIndex = positionIndex els',
                layers = layers_of K els'\<rparr>)"
proof (cases "els = []")
  case True
  then show ?thesis by (simp add: mkMerkleTree_def getLayers_def bufDedup_eq)
next
  case False
  then show ?thesis by (simp add: mkMerkleTree_def Let_def sorted_elements getLayers_eq)
qed

lemma mkMerkleTree_Inr:
  assumes "mkMerkleTree K els = Inr t"
  shows "els \<noteq> []" "elements t = sorted_list_of_set (set els)"
    "bufferElementPositionIndex t = positionIndex (elements t)"
    "layers t = layers_of K (elements t)" "elements t \<noteq> []"
  using assms by (auto simp: mkMerkleTree_eq Let_def split: if_splits)

lemma positionIndex_prefix:
  assumes "distinct xs" "m \<le> length xs"
  shows "foldl (\<lambda>memo (index, el). memo(bufferToHex el \<mapsto> index)) Map.empty
           (enumerate 0 (take m xs)) (bufferToHex el) = Some i \<longleftrightarrow> i < m \<and> xs ! i = el"
  using assms(2)
proof (induction m)
  case (Suc m)
  then show ?case
    using assms(1) by (auto simp: enumerate_take_Suc less_Suc_eq nth_eq_iff_index_eq)
qed simp

lemma positionIndex_Some:
  "distinct xs \<Longrightarrow> positionIndex xs (bufferToHex el) = Some i \<longleftrightarrow> i < length xs \<and> xs ! i = el"
  using positionIndex_prefix [of xs "length xs"] by (simp add: positionIndex_def)

lemma positionIndex_None:
  "distinct xs \<Longrightarrow> positionIndex xs (bufferToHex el) = None \<longleftrightarrow> el \<notin> set xs"
  using positionIndex_Some [of xs el] by (metis in_set_conv_nth not_None_eq)

section \<open>The path from an element to the root\<close>

text \<open>
  \<open>hash2\<close> is the hash of two nodes, \<open>path\<close> the siblings \<open>getProof\<close> collects above index \<open>idx\<close>,
  \<open>root_of\<close> the root above a layer: both by recursion on the layer.
\<close>

definition hash2 :: "(buffer \<Rightarrow> buffer) \<Rightarrow> buffer \<Rightarrow> buffer \<Rightarrow> buffer" where
  "hash2 K a b = K (sortAndConcat [a, b])"

lemma hash2_commute: "hash2 K a b = hash2 K b a"
  unfolding hash2_def sortAndConcat_def by (subst sort_swap) (rule refl)

function path :: "(buffer \<Rightarrow> buffer) \<Rightarrow> buffer list \<Rightarrow> nat \<Rightarrow> buffer list" where
  "path K xs idx =
     (case getPairElement idx xs of Some p \<Rightarrow> [p] | None \<Rightarrow> []) @
     (if length xs > 1 then path K (getNextLayer K xs) (idx div 2) else [])"
  by pat_completeness auto
termination
  by (relation "measure (\<lambda>(K, xs, idx). length xs)") auto

declare path.simps [simp del]

definition root_of :: "(buffer \<Rightarrow> buffer) \<Rightarrow> buffer list \<Rightarrow> buffer" where
  "root_of K xs = last (layers_of K xs) ! 0"

lemma root_of_simps:
  "root_of K xs = (if length xs > 1 then root_of K (getNextLayer K xs) else xs ! 0)"
  by (simp add: root_of_def layers_of.simps [of K xs])

lemma proof_steps_path: "fst (foldl proof_step (pre, idx) (layers_of K xs)) = pre @ path K xs idx"
proof (induction K xs arbitrary: pre idx rule: layers_of.induct)
  case (1 K xs)
  then show ?case
    by (simp add: layers_of.simps [of K xs] path.simps [of K xs idx] proof_step_def
        split: option.splits)
qed

text \<open>One step up the tree: hashing with the sibling gives the parent.\<close>

lemma hash_with_sibling:
  assumes "idx < length xs" "length xs > 1"
  shows "foldl (hash2 K) (xs ! idx) (case getPairElement idx xs of Some p \<Rightarrow> [p] | None \<Rightarrow> [])
       = getNextLayer K xs ! (idx div 2)"
proof (cases "idx mod 2 = 0")
  case True
  then have "2 * (idx div 2) = idx" by presburger
  with assms True show ?thesis
    by (auto simp: getPairElement_def getNextLayer_nth pair_hash_def hash2_def)
next
  case False
  then have "2 * (idx div 2) = idx - 1" "idx - 1 + 1 = idx" by presburger+
  with assms False show ?thesis
    by (auto simp: getPairElement_def Let_def getNextLayer_nth pair_hash_def
        hash2_def [symmetric] hash2_commute)
qed

lemma path_reaches_root:
  "idx < length xs \<Longrightarrow> foldl (hash2 K) (xs ! idx) (path K xs idx) = root_of K xs"
proof (induction K xs arbitrary: idx rule: layers_of.induct)
  case (1 K xs)
  show ?case
  proof (cases "length xs > 1")
    case True
    have "idx div 2 < length (getNextLayer K xs)" using "1.prems" by simp
    with True "1.IH" [OF True this] "1.prems" show ?thesis
      by (simp add: path.simps [of K xs idx] root_of_simps [of K xs] hash_with_sibling)
  next
    case False
    with "1.prems" have "idx = 0" by linarith
    with False "1.prems" show ?thesis
      by (simp add: path.simps [of K xs 0] root_of_simps [of K xs] getPairElement_def)
  qed
qed

text \<open>The proof is as long as the tree is high.\<close>

lemma length_path: "xs \<noteq> [] \<Longrightarrow> idx < length xs \<Longrightarrow> length xs \<le> 2 ^ h \<Longrightarrow> length (path K xs idx) \<le> h"
proof (induction h arbitrary: xs idx)
  case 0
  then have "length xs = 1" by (cases xs) auto
  with 0 show ?case by (simp add: path.simps [of K xs 0] getPairElement_def)
next
  case (Suc h)
  show ?case
  proof (cases "length xs > 1")
    case True
    have "length (path K (getNextLayer K xs) (idx div 2)) \<le> h"
      using Suc.prems by (intro Suc.IH) (auto simp flip: length_greater_0_conv)
    with True show ?thesis
      by (auto simp: path.simps [of K xs idx] split: option.splits)
  next
    case False
    with Suc.prems have "idx = 0" by linarith
    with False Suc.prems show ?thesis by (simp add: path.simps [of K xs 0] getPairElement_def)
  qed
qed

section \<open>Soundness of proofs\<close>

text \<open>
  \<open>nodes\<close> are the elements and the inner nodes of the tree, \<open>tree_inputs\<close> the byte strings
  hashed to build it, \<open>fold_inputs\<close> those hashed to check a proof.
\<close>

definition nodes :: "(buffer \<Rightarrow> buffer) \<Rightarrow> buffer list \<Rightarrow> buffer set" where
  "nodes K xs = (\<Union>l \<in> set (layers_of K xs). set l)"

function tree_inputs :: "(buffer \<Rightarrow> buffer) \<Rightarrow> buffer list \<Rightarrow> buffer list" where
  "tree_inputs K xs =
     map (\<lambda>i. sortAndConcat [xs ! (2 * i), xs ! (2 * i + 1)]) [0 ..< length xs div 2] @
     (if length xs > 1 then tree_inputs K (getNextLayer K xs) else [])"
  by pat_completeness auto
termination
  by (relation "measure (\<lambda>(K, xs). length xs)") auto

declare tree_inputs.simps [simp del]

primrec fold_inputs :: "(buffer \<Rightarrow> buffer) \<Rightarrow> buffer \<Rightarrow> buffer list \<Rightarrow> buffer list" where
  "fold_inputs K x [] = []"
| "fold_inputs K x (q # ps) = sortAndConcat [x, q] # fold_inputs K (hash2 K x q) ps"

lemma nodes_simps:
  "nodes K xs = set xs \<union> (if length xs > 1 then nodes K (getNextLayer K xs) else {})"
  by (simp add: nodes_def layers_of.simps [of K xs])

lemma elements_are_nodes: "x \<in> set xs \<Longrightarrow> x \<in> nodes K xs"
  by (simp add: nodes_simps [of K xs])

lemma root_is_node: "xs \<noteq> [] \<Longrightarrow> root_of K xs \<in> nodes K xs"
proof (induction K xs rule: layers_of.induct)
  case (1 K xs)
  have "getNextLayer K xs \<noteq> []" using "1.prems" by (simp flip: length_greater_0_conv)
  with 1 show ?case
    by (auto simp: nodes_simps [of K xs] root_of_simps [of K xs])
qed

text \<open>An element of the next layer is an element left alone or the hash of two elements.\<close>

lemma getNextLayer_cases:
  assumes "v \<in> set (getNextLayer K xs)"
  shows "v \<in> set xs \<or>
    (\<exists>i < length xs div 2. v = K (sortAndConcat [xs ! (2 * i), xs ! (2 * i + 1)]))"
proof -
  from assms obtain i where i: "i < (length xs + 1) div 2" "v = pair_hash K xs (2 * i)"
    by (auto simp: getNextLayer_eq)
  show ?thesis
  proof (cases "2 * i + 1 < length xs")
    case True
    then have "i < length xs div 2" by simp
    with i True show ?thesis by (auto simp: pair_hash_def)
  next
    case False
    with i show ?thesis by (auto simp: pair_hash_def)
  qed
qed

lemma node_cases:
  "v \<in> nodes K xs \<Longrightarrow> v \<in> set xs \<or>
   (\<exists>a b. a \<in> nodes K xs \<and> b \<in> nodes K xs \<and> v = K (sortAndConcat [a, b]) \<and>
          sortAndConcat [a, b] \<in> set (tree_inputs K xs))"
proof (induction K xs rule: layers_of.induct)
  case (1 K xs)
  show ?case
  proof (cases "v \<in> set xs")
    case False
    with "1.prems" have len: "length xs > 1" and v: "v \<in> nodes K (getNextLayer K xs)"
      by (auto simp: nodes_simps [of K xs] split: if_splits)
    have sub: "nodes K (getNextLayer K xs) \<subseteq> nodes K xs"
        "set (tree_inputs K (getNextLayer K xs)) \<subseteq> set (tree_inputs K xs)"
      using len by (auto simp: nodes_simps [of K xs] tree_inputs.simps [of K xs])
    from "1.IH" [OF len v] show ?thesis
    proof
      assume "v \<in> set (getNextLayer K xs)"
      with False obtain i where i: "i < length xs div 2"
          "v = K (sortAndConcat [xs ! (2 * i), xs ! (2 * i + 1)])"
        using getNextLayer_cases by blast
      then have "xs ! (2 * i) \<in> nodes K xs" "xs ! (2 * i + 1) \<in> nodes K xs"
        by (auto intro!: elements_are_nodes)
      moreover have "sortAndConcat [xs ! (2 * i), xs ! (2 * i + 1)] \<in> set (tree_inputs K xs)"
        using i(1) by (auto simp: tree_inputs.simps [of K xs])
      ultimately show ?thesis using i(2) by blast
    qed (use sub in blast)
  qed simp
qed

lemma sortAndConcat_set:
  assumes "sortAndConcat [a, b] = sortAndConcat [x, q]"
    and "length a = n" "length b = n" "length x = n" "length q = n"
  shows "{a, b} = {x, q}"
  using assms by (auto simp: sortAndConcat_def split: if_splits)

text \<open>
  If no two of the byte strings hashed by the tree and by the check collide, and no hash
  computed by the check is an element, then a proof that ends in a node starts in one.
\<close>

lemma proof_starts_in_node:
  assumes inj: "inj_on K (set (tree_inputs K xs) \<union> set (fold_inputs K x p))"
    and leaf: "\<forall>u \<in> set (fold_inputs K x p). K u \<notin> set xs"
    and len: "\<And>u. length (K u) = n" "\<forall>e \<in> set xs. length e = n" "length x = n"
      "\<forall>q \<in> set p. length q = n"
    and fold: "foldl (hash2 K) x p \<in> nodes K xs"
  shows "x \<in> nodes K xs"
  using assms
proof (induction p arbitrary: x)
  case (Cons q ps)
  have inputs: "fold_inputs K x (q # ps) = sortAndConcat [x, q] # fold_inputs K (hash2 K x q) ps"
    by simp
  have "hash2 K x q \<in> nodes K xs"
  proof (rule Cons.IH)
    show "inj_on K (set (tree_inputs K xs) \<union> set (fold_inputs K (hash2 K x q) ps))"
      by (rule inj_on_subset [OF Cons.prems(1)]) auto
  qed (use Cons.prems in \<open>auto simp: hash2_def\<close>)
  moreover have "hash2 K x q \<notin> set xs" using Cons.prems(2) by (simp add: hash2_def)
  ultimately obtain a b where ab: "a \<in> nodes K xs" "b \<in> nodes K xs"
      "K (sortAndConcat [x, q]) = K (sortAndConcat [a, b])"
      "sortAndConcat [a, b] \<in> set (tree_inputs K xs)"
    using node_cases [of "hash2 K x q" K xs] by (auto simp: hash2_def)
  then have eq: "sortAndConcat [a, b] = sortAndConcat [x, q]"
    using Cons.prems(1) by (auto simp: inj_on_def)
  have "length v = n" if "v \<in> nodes K xs" for v
    using node_cases [OF that] Cons.prems(3,4) by auto
  with ab Cons.prems(5,6) have "{a, b} = {x, q}"
    by (intro sortAndConcat_set [OF eq, of n]) auto
  with ab(1,2) show ?case by (auto simp: doubleton_eq_iff)
qed simp

section \<open>The interface the clients rely on\<close>

text \<open>
  What \<open>BalanceTree\<close> and the distributor need of a tree over nodes of type \<open>'n\<close>: it can be
  built over any non-empty list, depends on the set of nodes only, proves exactly its members,
  and a proof folds from the member to the root.
\<close>

locale node_tree =
  fixes build :: "'n list \<Rightarrow> 't result"
    and root :: "'t \<Rightarrow> 'n"
    and prove :: "'t \<Rightarrow> 'n \<Rightarrow> 'n list result"
    and combine :: "'n \<Rightarrow> 'n \<Rightarrow> 'n"
  assumes build_nonempty: "ns \<noteq> [] \<Longrightarrow> \<exists>t. build ns = Inr t"
    and build_empty: "build [] = Inl (Throw ''empty tree'')"
    and build_cong: "set ns = set ms \<Longrightarrow> build ns = build ms"
    and prove_member: "build ns = Inr t \<Longrightarrow> n \<in> set ns \<Longrightarrow>
      \<exists>p. prove t n = Inr p \<and> foldl combine n p = root t"
    and prove_other: "build ns = Inr t \<Longrightarrow> n \<notin> set ns \<Longrightarrow>
      prove t n = Inl (Throw ''Element does not exist in Merkle tree'')"
begin

lemma prove_iff: "build ns = Inr t \<Longrightarrow> (\<exists>p. prove t n = Inr p) \<longleftrightarrow> n \<in> set ns"
  using prove_member prove_other by (metis Inl_Inr_False)

lemma prove_checks: "build ns = Inr t \<Longrightarrow> prove t n = Inr p \<Longrightarrow> foldl combine n p = root t"
  using prove_member prove_iff by (metis Inr_inject)

end

lemma getProof_member:
  assumes "mkMerkleTree K els = Inr t" and "el \<in> set els"
  shows "\<exists>idx < length (elements t). elements t ! idx = el \<and>
    getProof t el = Inr (path K (elements t) idx)"
proof -
  note t = mkMerkleTree_Inr [OF assms(1)]
  from t(2) assms(2) have "el \<in> set (elements t)" "distinct (elements t)" by simp_all
  then obtain idx where idx: "idx < length (elements t)" "elements t ! idx = el"
    by (auto simp: in_set_conv_nth)
  with \<open>distinct (elements t)\<close> show ?thesis
    by (auto simp: getProof_def t(3,4) proof_steps_path
        positionIndex_Some [THEN iffD2] intro!: exI [of _ idx])
qed

lemma getRoot_eq: "mkMerkleTree K els = Inr t \<Longrightarrow> getRoot t = root_of K (elements t)"
  by (simp add: getRoot_def root_of_def mkMerkleTree_Inr(4))

interpretation keccak_tree: node_tree "mkMerkleTree K" getRoot getProof "hash2 K"
  for K :: "buffer \<Rightarrow> buffer"
proof unfold_locales
  fix ns ms :: "buffer list" and t n
  show "ns \<noteq> [] \<Longrightarrow> \<exists>t. mkMerkleTree K ns = Inr t" by (simp add: mkMerkleTree_eq Let_def)
  show "mkMerkleTree K [] = Inl (Throw ''empty tree'')" by (simp add: mkMerkleTree_eq Let_def)
  show "set ns = set ms \<Longrightarrow> mkMerkleTree K ns = mkMerkleTree K ms"
    by (simp add: mkMerkleTree_eq flip: set_empty)
  assume t: "mkMerkleTree K ns = Inr t"
  show "n \<in> set ns \<Longrightarrow> \<exists>p. getProof t n = Inr p \<and> foldl (hash2 K) n p = getRoot t"
    using getProof_member [OF t, of n] path_reaches_root getRoot_eq [OF t] by metis
  show "n \<notin> set ns \<Longrightarrow> getProof t n = Inl (Throw ''Element does not exist in Merkle tree'')"
    using mkMerkleTree_Inr [OF t] positionIndex_None [of "elements t" n]
    by (simp add: getProof_def)
qed

section \<open>Properties of the tree\<close>

text \<open>The layers: each is the next layer of the one below, and their number is the height.\<close>

lemma layers_of_chain:
  "Suc i < length (layers_of K xs) \<Longrightarrow>
   layers_of K xs ! Suc i = getNextLayer K (layers_of K xs ! i)"
proof (induction K xs arbitrary: i rule: layers_of.induct)
  case (1 K xs)
  then show ?case
    by (cases i) (auto simp: layers_of.simps [of K xs] layers_of.simps [of K "getNextLayer K xs"])
qed

lemma layers_of_last: "xs \<noteq> [] \<Longrightarrow> length (last (layers_of K xs)) = 1"
proof (induction K xs rule: layers_of.induct)
  case (1 K xs)
  have "getNextLayer K xs \<noteq> []" using "1.prems" by (simp flip: length_greater_0_conv)
  moreover have "length xs = 1" if "\<not> length xs > 1" using that "1.prems" by (cases xs) auto
  ultimately show ?case using 1 by (simp add: layers_of.simps [of K xs])
qed

lemma halved_power:
  "2 ^ m < 2 * ((n + 1) div 2) \<Longrightarrow> 1 < n \<Longrightarrow> (2::nat) ^ m < n"
proof (cases m)
  case (Suc k)
  assume "2 ^ m < 2 * ((n + 1) div 2)"
  with Suc have "2 * (2::nat) ^ k < 2 * ((n + 1) div 2)" by simp
  then show ?thesis unfolding Suc power_Suc by presburger
qed simp

lemma layers_of_height:
  "xs \<noteq> [] \<Longrightarrow> \<exists>h. length (layers_of K xs) = Suc h \<and> length xs \<le> 2 ^ h \<and> 2 ^ h < 2 * length xs"
proof (induction K xs rule: layers_of.induct)
  case (1 K xs)
  show ?case
  proof (cases "length xs > 1")
    case True
    have "getNextLayer K xs \<noteq> []" using True by (simp flip: length_greater_0_conv)
    with 1 True obtain m where m: "length (layers_of K (getNextLayer K xs)) = Suc m"
        "(length xs + 1) div 2 \<le> 2 ^ m" "2 ^ m < 2 * ((length xs + 1) div 2)"
      by auto
    then have "length (layers_of K xs) = Suc (Suc m)" "length xs \<le> 2 ^ Suc m"
      using True by (auto simp: layers_of.simps [of K xs])
    then show ?thesis using halved_power [OF m(3) True] by auto
  next
    case False
    with "1.prems" have "length xs = 1" by (cases xs) auto
    then show ?thesis by (intro exI [of _ 0]) (simp add: layers_of.simps [of K xs])
  qed
qed

text \<open>
  C33: \<open>getLayers\<close> returns for every non-empty list of elements: the loop ends after exactly
  \<open>\<lceil>log2 n\<rceil>\<close> rounds, the first layer is the list of elements, each layer is half (rounded up) of
  the one below, and the last is a single root.
\<close>

theorem getLayers_shape:
  assumes "els \<noteq> []"
  shows "\<exists>ls. getLayers K els = Inr ls \<and> ls \<noteq> [] \<and> hd ls = els \<and> length (last ls) = 1 \<and>
    (\<forall>i. Suc i < length ls \<longrightarrow> ls ! Suc i = getNextLayer K (ls ! i) \<and>
         length (ls ! Suc i) = (length (ls ! i) + 1) div 2) \<and>
    length els \<le> 2 ^ (length ls - 1) \<and> 2 ^ (length ls - 1) < 2 * length els"
proof -
  have "hd (layers_of K els) = els" by (simp add: layers_of.simps [of K els])
  with assms layers_of_height [OF assms, of K] show ?thesis
    by (auto simp: getLayers_eq layers_of_last layers_of_chain)
qed

theorem getLayers_shape_witness:
  "\<exists>ls. getLayers (\<lambda>b. b) [[1], [2], [3 :: byte]] = Inr ls \<and> hd ls = [[1], [2], [3]] \<and> length ls = 3 \<and>
     length (last ls) = 1"
proof -
  obtain ls where ls: "getLayers (\<lambda>b. b) [[1], [2], [3 :: byte]] = Inr ls" "ls \<noteq> []" "hd ls = [[1], [2], [3]]"
      "length (last ls) = 1" "3 \<le> (2 :: nat) ^ (length ls - 1)" "2 ^ (length ls - 1) < (6 :: nat)"
    using getLayers_shape [of "[[1], [2], [3]]" "\<lambda>b. b"] by auto
  have "\<not> length ls - 1 \<le> 1" using ls(5) power_increasing [of "length ls - 1" 1 "2 :: nat"] by auto
  moreover have "\<not> 3 \<le> length ls - 1" using ls(6) power_increasing [of 3 "length ls - 1" "2 :: nat"] by auto
  ultimately have "length ls = 3" by linarith
  then show ?thesis using ls by blast
qed

text \<open>
  C27: Round trip of membership proofs: for a tree built over any list of elements, \<open>getProof\<close>
  returns a proof for every element, of at most \<open>h\<close> hashes when there are at most \<open>2 ^ h\<close>
  elements, and hashing the element up along it gives the root.
\<close>

theorem getProof_roundtrip:
  assumes "mkMerkleTree K els = Inr t" and "el \<in> set els" and "length els \<le> 2 ^ h"
  shows "\<exists>p. getProof t el = Inr p \<and> length p \<le> h \<and>
    foldl (\<lambda>x q. K (sortAndConcat [x, q])) el p = getRoot t"
proof -
  obtain idx where idx: "idx < length (elements t)" "elements t ! idx = el"
      "getProof t el = Inr (path K (elements t) idx)"
    using getProof_member [OF assms(1,2)] by blast
  have "length (elements t) \<le> length els"
    by (simp add: mkMerkleTree_Inr(2) [OF assms(1)] card_length)
  with assms(3) have "length (path K (elements t) idx) \<le> h"
    using idx(1) by (intro length_path mkMerkleTree_Inr(5) [OF assms(1)]) auto
  moreover have "foldl (hash2 K) el (path K (elements t) idx) = getRoot t"
    using path_reaches_root [OF idx(1)] idx(2) by (simp add: getRoot_eq [OF assms(1)])
  ultimately show ?thesis using idx(3) by (auto simp: hash2_def [abs_def])
qed

theorem getProof_roundtrip_witness:
  "\<exists>p. getProof \<lparr>elements = [[1], [2], [3]],
        bufferElementPositionIndex = positionIndex [[1], [2], [3]],
        layers = [[[1], [2], [3]], [[1, 2], [3]], [[1, 2, 3]]]\<rparr> [2] = Inr p \<and> length p \<le> 2 \<and>
    foldl (\<lambda>x q. sortAndConcat [x, q]) [2] p = [1, 2, 3]"
proof -
  have "mkMerkleTree (\<lambda>b. b) [[3], [1], [2], [1]] = Inr \<lparr>elements = [[1], [2], [3]],
        bufferElementPositionIndex = positionIndex [[1], [2], [3]],
        layers = [[[1], [2], [3]], [[1, 2], [3]], [[1, 2, 3]]]\<rparr>"
    by (simp add: mkMerkleTree_def bufDedup_def getLayers_def layers_loop.simps getNextLayer_def
        arr_get_def sortAndConcat_def Let_def)
  from getProof_roundtrip [OF this, of "[2]" 2] show ?thesis
    by (simp add: getRoot_def)
qed

text \<open>
  A Merkle tree does not depend on the order or the multiplicity of its elements: two lists
  with the same elements build the same tree, and so have the same root and the same proofs.
\<close>

theorem mkMerkleTree_same_elements:
  assumes "set els = set els'"
  shows "mkMerkleTree K els = mkMerkleTree K els'"
  by (rule keccak_tree.build_cong [OF assms])

theorem mkMerkleTree_same_elements_witness:
  "mkMerkleTree (\<lambda>b. b) [[2], [1], [2]] = mkMerkleTree (\<lambda>b. b) [[1], [2]]"
  by (rule mkMerkleTree_same_elements) auto

text \<open>
  The errors of the tree: an empty list of elements is the only one the constructor rejects,
  with \<open>empty tree\<close>, and \<open>getProof\<close> throws exactly for the buffers that are not elements.
\<close>

theorem merkle_tree_errors:
  "mkMerkleTree K [] = Inl (Throw ''empty tree'') \<and>
   ((\<exists>e. mkMerkleTree K els = Inl e) \<longleftrightarrow> els = []) \<and>
   (\<forall>t. mkMerkleTree K els = Inr t \<longrightarrow>
      (getProof t el = Inl (Throw ''Element does not exist in Merkle tree'') \<longleftrightarrow> el \<notin> set els))"
proof (intro conjI allI impI)
  show "mkMerkleTree K [] = Inl (Throw ''empty tree'')" by (rule keccak_tree.build_empty)
  show "(\<exists>e. mkMerkleTree K els = Inl e) \<longleftrightarrow> els = []"
    using keccak_tree.build_nonempty [of els K] keccak_tree.build_empty [of K] by fastforce
  show "getProof t el = Inl (Throw ''Element does not exist in Merkle tree'') \<longleftrightarrow> el \<notin> set els"
    if "mkMerkleTree K els = Inr t" for t
    using keccak_tree.prove_member [OF that] keccak_tree.prove_other [OF that]
    by (metis Inl_Inr_False)
qed

theorem merkle_tree_errors_witness:
  "\<exists>t. mkMerkleTree (\<lambda>b. b) [[1]] = Inr t \<and>
     getProof t [2] = Inl (Throw ''Element does not exist in Merkle tree'')"
proof -
  from merkle_tree_errors [of "\<lambda>b. b" "[[1]]" "[2]"] show ?thesis
    by (cases "mkMerkleTree (\<lambda>b. b) [[1]]") auto
qed

end
