(* ===== verification/Balance_Tree.thy ===== *)
theory Balance_Tree
  imports Merkle_Tree
begin

text \<open>
  \<open>utils/balance-tree.ts\<close>: the class \<open>BalanceTree\<close>, a Merkle tree over the nodes
  \<open>keccak256(abi.encodePacked(index, account, amount))\<close>.  The library ethers that hashes a node
  is a parameter: the record \<open>ethers\<close> holds the functions of ethers the utilities call, each of
  which may throw where its type says \<open>result\<close>.
\<close>

record ethers =
  isAddress :: "string \<Rightarrow> bool"
  getAddress :: "string \<Rightarrow> string result"
  BigNumber_from :: "string \<Rightarrow> int result"
  toHexString :: "int \<Rightarrow> string"
  solidityKeccak256 :: "int \<Rightarrow> string \<Rightarrow> int \<Rightarrow> string result"

type_synonym keccak = "buffer \<Rightarrow> buffer"

definition toNode :: "ethers \<Rightarrow> nat \<Rightarrow> string \<Rightarrow> int \<Rightarrow> buffer result" where
  "toNode E index account amount =
     bindE (solidityKeccak256 E (int index) account amount) (\<lambda>h. Inr (fromHex (drop 2 h)))"

text \<open>\<open>array.map((x, i) => f(i, x))\<close> with an \<open>f\<close> that may throw.\<close>

definition mapE_index :: "(nat \<Rightarrow> 'x \<Rightarrow> 'y result) \<Rightarrow> 'x list \<Rightarrow> 'y list result" where
  "mapE_index f xs =
     foldE (\<lambda>ys (i, x). bindE (f i x) (\<lambda>y. Inr (ys @ [y]))) [] (enumerate 0 xs)"

definition mkBalanceTree :: "ethers \<Rightarrow> keccak \<Rightarrow> (string \<times> int) list \<Rightarrow> merkle_tree result" where
  "mkBalanceTree E K balances =
     bindE (mapE_index (\<lambda>index (account, amount). toNode E index account amount) balances)
       (mkMerkleTree K)"

definition verifyProof :: "ethers \<Rightarrow> keccak \<Rightarrow> nat \<Rightarrow> string \<Rightarrow> int \<Rightarrow> buffer list \<Rightarrow> buffer \<Rightarrow> bool result" where
  "verifyProof E K index account amount pf root =
     bindE (toNode E index account amount) (\<lambda>pair.
     Inr (foldl (\<lambda>pair item. combinedHash K pair (Some item)) (Some pair) pf = Some root))"

definition balance_getProof :: "ethers \<Rightarrow> merkle_tree \<Rightarrow> nat \<Rightarrow> string \<Rightarrow> int \<Rightarrow> string list result" where
  "balance_getProof E t index account amount =
     bindE (toNode E index account amount) (getHexProof t)"

section \<open>Lemmas\<close>

lemma foldl_combinedHash [simp]:
  "foldl (\<lambda>pair item. combinedHash K pair (Some item)) (Some x) pf = Some (foldl (hash2 K) x pf)"
  by (induction pf arbitrary: x) (simp_all add: hash2_def)

lemma mapE_index_prefix:
  "m \<le> length xs \<Longrightarrow>
   foldE (\<lambda>ys (i, x). bindE (f i x) (\<lambda>y. Inr (ys @ [y]))) [] (enumerate 0 (take m xs)) = Inr ys \<longleftrightarrow>
   length ys = m \<and> (\<forall>i < m. f i (xs ! i) = Inr (ys ! i))"
proof (induction m arbitrary: ys)
  case (Suc m)
  have "(\<exists>zs y. length zs = m \<and> (\<forall>i < m. f i (xs ! i) = Inr (zs ! i)) \<and> f m (xs ! m) = Inr y \<and>
          zs @ [y] = ys) \<longleftrightarrow> length ys = Suc m \<and> (\<forall>i < Suc m. f i (xs ! i) = Inr (ys ! i))"
    (is "?l \<longleftrightarrow> ?r")
  proof
    show "?l \<Longrightarrow> ?r" by (auto simp: nth_append less_Suc_eq)
    assume r: ?r
    then obtain zs y where "ys = zs @ [y]" by (cases ys rule: rev_cases) auto
    with r show ?l by (auto simp: nth_append less_Suc_eq)
  qed
  with Suc show ?case by (auto simp: enumerate_take_Suc foldE_append)
qed auto

lemma mapE_index_Inr:
  "mapE_index f xs = Inr ys \<longleftrightarrow>
   length ys = length xs \<and> (\<forall>i < length xs. f i (xs ! i) = Inr (ys ! i))"
  using mapE_index_prefix [of "length xs" xs f ys] by (simp add: mapE_index_def)

lemma toNode_Inr:
  "toNode E i a m = Inr n \<longleftrightarrow>
   (\<exists>h. solidityKeccak256 E (int i) a m = Inr h \<and> n = fromHex (drop 2 h))"
  by (auto simp: toNode_def)

text \<open>The tree over the nodes of all balances, when none of them throws.\<close>

lemma mkBalanceTree_Inr:
  "mkBalanceTree E K bs = Inr t \<longleftrightarrow>
   (\<exists>ns. length ns = length bs \<and>
         (\<forall>i < length bs. toNode E i (fst (bs ! i)) (snd (bs ! i)) = Inr (ns ! i)) \<and>
         mkMerkleTree K ns = Inr t)"
  by (auto simp: mkBalanceTree_def mapE_index_Inr split_beta)

lemma verifyProof_iff:
  "toNode E i a m = Inr n \<Longrightarrow> verifyProof E K i a m pf root = Inr (foldl (hash2 K) n pf = root)"
  by (simp add: verifyProof_def foldl_combinedHash)

lemma bufArrToHexArr_inverse [simp]:
  "map (\<lambda>s. fromHex (drop 2 s)) (bufArrToHexArr pf) = pf"
  by (simp add: bufArrToHexArr_def comp_def)

text \<open>Every balance of the tree has a proof, and it verifies against the root.\<close>

lemma balance_proof_verifies:
  assumes t: "mkBalanceTree E K bs = Inr t" and i: "i < length bs" "bs ! i = (a, m)"
  shows "\<exists>pf. balance_getProof E t i a m = Inr pf \<and>
    verifyProof E K i a m (map (\<lambda>s. fromHex (drop 2 s)) pf) (fromHex (drop 2 (getHexRoot t)))
      = Inr True"
proof -
  from t obtain ns where ns: "length ns = length bs"
      "\<And>i. i < length bs \<Longrightarrow> toNode E i (fst (bs ! i)) (snd (bs ! i)) = Inr (ns ! i)"
      "mkMerkleTree K ns = Inr t"
    by (auto simp: mkBalanceTree_Inr)
  from ns(1,2) i have n: "toNode E i a m = Inr (ns ! i)" "ns ! i \<in> set ns" by force+
  obtain p where "getProof t (ns ! i) = Inr p" "foldl (hash2 K) (ns ! i) p = getRoot t"
    using keccak_tree.prove_member [OF ns(3) n(2)] by blast
  with n show ?thesis
    by (auto simp: balance_getProof_def getHexProof_def getHexRoot_def verifyProof_iff)
qed

section \<open>A small instance of ethers\<close>

text \<open>
  Concrete functions for the parameters, used by the witnesses: two one-letter accounts with a
  lower-case form, indices and amounts below 256, a packing of 84 bytes and a hash of 32 bytes.
\<close>

definition sample_pack :: "int \<Rightarrow> string \<Rightarrow> int \<Rightarrow> buffer" where
  "sample_pack i a m =
     [word_of_int i, word_of_int m, if a = ''a'' \<or> a = ''A'' then 1 else 2] @ replicate 81 0"

definition sample_hash :: keccak where
  "sample_hash u =
     take 32 ((if length u = 84 then 0 # take 3 u else 255 # take 4 u @ take 4 (drop 32 u)) @
              replicate 32 0)"

definition sample_ethers :: ethers where
  "sample_ethers =
     \<lparr>isAddress = (\<lambda>a. a \<in> set [''a'', ''A'', ''b'', ''B'']),
      getAddress = (\<lambda>a. if a \<in> set [''a'', ''A''] then Inr ''A''
                       else if a \<in> set [''b'', ''B''] then Inr ''B''
                       else Inl (Throw ''invalid address'')),
      BigNumber_from = (\<lambda>s. if s = ''0x5'' then Inr 5 else if s = ''0x7'' then Inr 7
                       else if s = ''0x0'' then Inr 0 else Inl (Throw ''invalid BigNumber string'')),
      toHexString = (\<lambda>n. ''0x'' @ [hex_char (nat n div 16), hex_char (nat n mod 16)]),
      solidityKeccak256 = (\<lambda>i a m.
        if 0 \<le> i \<and> i < 256 \<and> 0 \<le> m \<and> m < 256 \<and> a \<in> set [''a'', ''A'', ''b'', ''B'']
        then Inr (bufferToHex (sample_hash (sample_pack i a m)))
        else Inl (Throw ''invalid value''))\<rparr>"

section \<open>Soundness: no forged balance\<close>

text \<open>
  The byte strings hashed to build a tree over the balances \<open>bs\<close> packed by \<open>pack\<close>.
\<close>

definition leaf_inputs :: "(int \<Rightarrow> string \<Rightarrow> int \<Rightarrow> buffer) \<Rightarrow> (string \<times> int) list \<Rightarrow> buffer list" where
  "leaf_inputs pack bs = map (\<lambda>j. pack (int j) (fst (bs ! j)) (snd (bs ! j))) [0 ..< length bs]"

lemma set_leaf_inputs:
  "set (leaf_inputs pack bs) = {pack (int j) (fst (bs ! j)) (snd (bs ! j)) |j. j < length bs}"
  by (auto simp: leaf_inputs_def)

lemma length_sortAndConcat [simp]: "length (sortAndConcat [a, b]) = length a + length b"
  by (simp add: sortAndConcat_def)

lemma tree_inputs_length:
  assumes K: "\<And>u. length (K u) = n"
    and "\<forall>e \<in> set xs. length e = n" "u \<in> set (tree_inputs K xs)"
  shows "length u = 2 * n"
  using assms(2,3)
proof (induction "length xs" arbitrary: xs rule: less_induct)
  case less
  have next_len: "\<forall>e \<in> set (getNextLayer K xs). length e = n"
    using getNextLayer_cases [of _ K xs] less.prems(1) K by blast
  from less.prems(2) consider i where "i < length xs div 2"
      "u = sortAndConcat [xs ! (2 * i), xs ! (2 * i + 1)]"
    | "length xs > 1" "u \<in> set (tree_inputs K (getNextLayer K xs))"
    by (auto simp: tree_inputs.simps [of K xs] split: if_splits)
  then show ?case
  proof cases
    case (1 i)
    then have "xs ! (2 * i) \<in> set xs" "xs ! (2 * i + 1) \<in> set xs" by auto
    with 1 less.prems(1) show ?thesis by simp
  next
    case 2
    with next_len show ?thesis by (intro less.hyps [of "getNextLayer K xs"]) auto
  qed
qed

lemma fold_inputs_length:
  assumes "\<And>u. length (K u) = n"
  shows "length x = n \<Longrightarrow> \<forall>q \<in> set p. length q = n \<Longrightarrow> u \<in> set (fold_inputs K x p) \<Longrightarrow>
    length u = 2 * n"
proof (induction p arbitrary: x)
  case (Cons q ps)
  from Cons.prems(3) consider "u = sortAndConcat [x, q]" | "u \<in> set (fold_inputs K (hash2 K x q) ps)"
    by auto
  then show ?case
  proof cases
    case 2
    with Cons.prems assms show ?thesis by (intro Cons.IH [of "hash2 K x q"]) (auto simp: hash2_def)
  qed (use Cons.prems in auto)
qed simp

lemma accepted_is_entry:
  assumes tree: "mkBalanceTree E K bs = Inr t"
    and packed: "\<And>i a m h. solidityKeccak256 E i a m = Inr h \<Longrightarrow>
      fromHex (drop 2 h) = K (pack i a m) \<and> length (pack i a m) = 84"
    and pack_inj: "\<And>i a m h j b k h'. solidityKeccak256 E i a m = Inr h \<Longrightarrow>
      solidityKeccak256 E j b k = Inr h' \<Longrightarrow> pack i a m = pack j b k \<Longrightarrow>
      i = j \<and> getAddress E a = getAddress E b \<and> m = k"
    and hash32: "\<And>u. length (K u) = 32" and proof32: "\<forall>q \<in> set pf. length q = 32"
    and no_collision: "inj_on K (set (leaf_inputs pack bs) \<union> set (tree_inputs K (elements t)) \<union>
      set (fold_inputs K (K (pack (int i) a m)) pf) \<union> {pack (int i) a m})"
    and verified: "verifyProof E K i a m pf (getRoot t) = Inr True"
  shows "i < length bs \<and> getAddress E (fst (bs ! i)) = getAddress E a \<and> snd (bs ! i) = m"
proof -
  let ?x = "K (pack (int i) a m)" and ?es = "elements t"
  let ?I = "set (leaf_inputs pack bs) \<union> set (tree_inputs K ?es) \<union>
      set (fold_inputs K ?x pf) \<union> {pack (int i) a m}"
  have eq: "u = v" if "K u = K v" "u \<in> ?I" "v \<in> ?I" for u v
    using no_collision that by (auto simp: inj_on_def)
  from tree obtain ns where ns: "length ns = length bs"
      "\<And>j. j < length bs \<Longrightarrow> toNode E j (fst (bs ! j)) (snd (bs ! j)) = Inr (ns ! j)"
      "mkMerkleTree K ns = Inr t"
    by (auto simp: mkBalanceTree_Inr)
  have leaf: "ns ! j = K (pack (int j) (fst (bs ! j)) (snd (bs ! j)))"
      "pack (int j) (fst (bs ! j)) (snd (bs ! j)) \<in> set (leaf_inputs pack bs)"
      "length (pack (int j) (fst (bs ! j)) (snd (bs ! j))) = 84" if "j < length bs" for j
    using ns(2) [OF that] packed that by (auto simp: toNode_Inr set_leaf_inputs)
  have es: "set ?es = set ns" using mkMerkleTree_Inr(2) [OF ns(3)] by simp
  have es_leaf: "\<exists>j < length bs. e = K (pack (int j) (fst (bs ! j)) (snd (bs ! j)))"
    if "e \<in> set ?es" for e
    using that leaf(1) ns(1) by (auto simp: es in_set_conv_nth)
  have es32: "\<forall>e \<in> set ?es. length e = 32" using es_leaf hash32 by auto
  have not_leaf: "K u \<notin> set ?es" if "u \<in> ?I" "length u = 64" for u
  proof
    assume "K u \<in> set ?es"
    then obtain j where j: "j < length bs" "K u = K (pack (int j) (fst (bs ! j)) (snd (bs ! j)))"
      using es_leaf by blast
    with eq [OF j(2) that(1)] leaf(2,3) [OF j(1)] that(2) show False by simp
  qed
  from verified obtain h where h: "solidityKeccak256 E (int i) a m = Inr h"
    by (auto simp: verifyProof_def toNode_Inr)
  then have x: "toNode E i a m = Inr ?x" using packed by (auto simp: toNode_Inr)
  have "foldl (hash2 K) ?x pf = root_of K ?es"
    using verified by (simp add: verifyProof_iff [OF x] getRoot_eq [OF ns(3)])
  then have "foldl (hash2 K) ?x pf \<in> nodes K ?es"
    using root_is_node [OF mkMerkleTree_Inr(5) [OF ns(3)]] by simp
  then have "?x \<in> nodes K ?es"
  proof (rule proof_starts_in_node [rotated -1])
    show "inj_on K (set (tree_inputs K ?es) \<union> set (fold_inputs K ?x pf))"
      by (rule inj_on_subset [OF no_collision]) auto
    show "\<forall>u \<in> set (fold_inputs K ?x pf). K u \<notin> set ?es"
      using not_leaf fold_inputs_length [OF hash32 hash32 proof32] by auto
  qed (use hash32 es32 proof32 in auto)
  moreover have False if "?x = K u" "u \<in> set (tree_inputs K ?es)" for u
    using eq [OF that(1)] that(2) tree_inputs_length [OF hash32 es32 that(2)] packed [OF h] by auto
  ultimately have "?x \<in> set ?es" using node_cases [of ?x K ?es] by blast
  then obtain j where j: "j < length bs" "?x = K (pack (int j) (fst (bs ! j)) (snd (bs ! j)))"
    using es_leaf by blast
  with eq [OF j(2)] leaf(2) [OF j(1)]
  have "pack (int i) a m = pack (int j) (fst (bs ! j)) (snd (bs ! j))" by blast
  with h ns(2) [OF j(1)] pack_inj show ?thesis using j(1) by (fastforce simp: toNode_Inr)
qed

text \<open>
  C8: No forged balance: when a balance tree was built and \<open>verifyProof\<close> accepts
  \<open>(index, account, amount)\<close> with any proof of 32-byte hashes against its root, then either two
  of the byte strings hashed by the tree and by the check collide, or the tree has at that very
  index an entry of the same account with the same amount.  The hypotheses on ethers are what
  \<open>solidityKeccak256\<close> documents: it hashes the packed encoding, whose 84 bytes determine the
  three values.
\<close>

theorem verifyProof_sound:
  assumes tree: "mkBalanceTree E K bs = Inr t"
    and packed: "\<And>i a m h. solidityKeccak256 E i a m = Inr h \<Longrightarrow>
      fromHex (drop 2 h) = K (pack i a m) \<and> length (pack i a m) = 84"
    and pack_inj: "\<And>i a m h j b k h'. solidityKeccak256 E i a m = Inr h \<Longrightarrow>
      solidityKeccak256 E j b k = Inr h' \<Longrightarrow> pack i a m = pack j b k \<Longrightarrow>
      i = j \<and> getAddress E a = getAddress E b \<and> m = k"
    and hash32: "\<And>u. length (K u) = 32" and proof32: "\<forall>q \<in> set pf. length q = 32"
    and no_collision: "inj_on K (set (leaf_inputs pack bs) \<union> set (tree_inputs K (elements t)) \<union>
      set (fold_inputs K (K (pack (int i) a m)) pf) \<union> {pack (int i) a m})"
    and verified: "verifyProof E K i a m pf (getRoot t) = Inr True"
  shows "i < length bs \<and> getAddress E (fst (bs ! i)) = getAddress E a \<and> snd (bs ! i) = m"
  using packed pack_inj hash32 proof32 no_collision verified
  by (rule accepted_is_entry [OF tree])

lemma sample_ethers_packs:
  "solidityKeccak256 sample_ethers i a m = Inr h \<Longrightarrow>
   fromHex (drop 2 h) = sample_hash (sample_pack i a m) \<and> length (sample_pack i a m) = 84"
  by (auto simp: sample_ethers_def sample_pack_def split: if_splits)

lemma word_of_int_byte_inject:
  "0 \<le> i \<Longrightarrow> i < 256 \<Longrightarrow> 0 \<le> j \<Longrightarrow> j < 256 \<Longrightarrow> (word_of_int i :: byte) = word_of_int j \<longleftrightarrow> i = j"
proof -
  assume "0 \<le> i" "i < 256" "0 \<le> j" "j < 256"
  then have "uint (word_of_int i :: byte) = i" "uint (word_of_int j :: byte) = j"
    by (simp_all add: uint_word_of_int)
  then show ?thesis by metis
qed

lemma sample_ethers_determine:
  "solidityKeccak256 sample_ethers i a m = Inr h \<Longrightarrow> solidityKeccak256 sample_ethers j b k = Inr h' \<Longrightarrow>
   sample_pack i a m = sample_pack j b k \<Longrightarrow>
   i = j \<and> getAddress sample_ethers a = getAddress sample_ethers b \<and> m = k"
  by (auto simp: sample_ethers_def sample_pack_def word_of_int_byte_inject split: if_splits)

lemma length_sample_hash: "length (sample_hash u) = 32"
  by (simp add: sample_hash_def)

theorem verifyProof_sound_witness:
  "\<exists>t pf. mkBalanceTree sample_ethers sample_hash [(''A'', 5), (''B'', 7)] = Inr t \<and>
     verifyProof sample_ethers sample_hash 0 ''a'' 5 pf (getRoot t) = Inr True \<and>
     getAddress sample_ethers ''A'' = getAddress sample_ethers ''a''"
proof -
  let ?e0 = "sample_hash (sample_pack 0 ''A'' 5)" and ?e1 = "sample_hash (sample_pack 1 ''B'' 7)"
  let ?r = "sample_hash (?e0 @ ?e1)"
  let ?bs = "[(''A'', 5), (''B'', 7 :: int)]"
  have run: "case mkBalanceTree sample_ethers sample_hash ?bs of Inl _ \<Rightarrow> False
    | Inr t \<Rightarrow> elements t = [?e0, ?e1] \<and>
        verifyProof sample_ethers sample_hash 0 ''a'' 5 [?e1] (getRoot t) = Inr True"
    by code_simp
  then obtain t where t: "mkBalanceTree sample_ethers sample_hash ?bs = Inr t"
      "elements t = [?e0, ?e1]"
      "verifyProof sample_ethers sample_hash 0 ''a'' 5 [?e1] (getRoot t) = Inr True"
    by (auto split: sum.splits)
  let ?I = "remdups (leaf_inputs sample_pack ?bs @ tree_inputs sample_hash [?e0, ?e1] @
    fold_inputs sample_hash (sample_hash (sample_pack (int 0) ''a'' 5)) [?e1] @ [sample_pack (int 0) ''a'' 5])"
  have "distinct (map sample_hash ?I)" by code_simp
  then have "inj_on sample_hash (set ?I)" by (simp only: distinct_map)
  then have inj: "inj_on sample_hash (set (leaf_inputs sample_pack ?bs) \<union>
      set (tree_inputs sample_hash (elements t)) \<union>
      set (fold_inputs sample_hash (sample_hash (sample_pack (int 0) ''a'' 5)) [?e1]) \<union>
      {sample_pack (int 0) ''a'' 5})"
    by (simp only: t(2) set_remdups set_append list.set Un_assoc)
  have "0 < length ?bs \<and>
      getAddress sample_ethers (fst (?bs ! 0)) = getAddress sample_ethers ''a'' \<and> snd (?bs ! 0) = 5"
    using sample_ethers_packs sample_ethers_determine length_sample_hash _ inj t(3)
  proof (rule verifyProof_sound [OF t(1)])
    show "\<forall>q \<in> set [?e1]. length q = 32" by (simp add: length_sample_hash)
  qed
  with t show ?thesis by auto
qed

end
