(* ===== verification/Balance_Map.thy ===== *)
theory Balance_Map
  imports Balance_Tree "HOL-Library.Char_ord" "HOL-Library.Multiset"
begin

text \<open>
  \<open>utils/parse-balance-map.ts\<close>: \<open>parseBalanceMap\<close> turns a list of earnings into the Merkle
  distribution that is published: the root, the total, and for each address its index, amount and
  proof.  A JavaScript object keyed by addresses is an association list in insertion order;
  \<open>Object.keys(..).sort()\<close> sorts the keys by character code (\<open>HOL-Library.Char_ord\<close>).
\<close>

section \<open>Formats\<close>

datatype earning = ENum int | EStr string

record new_format =
  address :: string
  earnings :: string
  reasons :: string

datatype balances = OldFormat "(string \<times> earning) list" | NewFormat "new_format list"

record flags =
  isSOCKS :: bool
  isLP :: bool
  isUser :: bool

record balance_data =
  amount :: int
  flags_of :: "flags option"

record claim =
  claim_index :: nat
  claim_amount :: string
  claim_proof :: "string list"
  claim_flags :: "flags option"

record distributor_info =
  merkleRoot :: string
  tokenTotal :: string
  claims :: "(string \<times> claim) list"

text \<open>\<open>n.toString(16)\<close> of an integer number; on a string \<open>toString\<close> is the identity.\<close>

fun nat_hex :: "nat \<Rightarrow> string" where
  "nat_hex n = (if n < 16 then [hex_char n] else nat_hex (n div 16) @ [hex_char (n mod 16)])"

declare nat_hex.simps [simp del]

fun toString16 :: "earning \<Rightarrow> string" where
  "toString16 (ENum i) = (if i < 0 then ''-'' @ nat_hex (nat (- i)) else nat_hex (nat i))"
| "toString16 (EStr s) = s"

fun toNewFormat :: "balances \<Rightarrow> new_format list" where
  "toNewFormat (NewFormat bs) = bs"
| "toNewFormat (OldFormat bs) =
     map (\<lambda>(account, e). \<lparr>address = account, earnings = ''0x'' @ toString16 e, reasons = ''''\<rparr>) bs"

section \<open>Collecting the earnings by address\<close>

text \<open>\<open>s.includes(t)\<close> of JavaScript strings.\<close>

fun str_includes :: "string \<Rightarrow> string \<Rightarrow> bool" where
  "str_includes s t = (take (length t) s = t \<or> (case s of [] \<Rightarrow> False | _ # s' \<Rightarrow> str_includes s' t))"

declare str_includes.simps [simp del]

definition flagsOf :: "string \<Rightarrow> flags" where
  "flagsOf rs =
     \<lparr>isSOCKS = str_includes rs ''socks'', isLP = str_includes rs ''lp'', isUser = str_includes rs ''user''\<rparr>"

definition addBalance ::
  "ethers \<Rightarrow> (string \<times> balance_data) list \<Rightarrow> new_format \<Rightarrow> (string \<times> balance_data) list result"
  where
  "addBalance E memo b =
     (let account = address b in
      if \<not> isAddress E account then Inl (Throw (''Found invalid address: '' @ account))
      else bindE (getAddress E account) (\<lambda>parsed.
        if map_of memo parsed \<noteq> None then Inl (Throw (''Duplicate address: '' @ parsed))
        else bindE (BigNumber_from E (earnings b)) (\<lambda>parsedNum.
          if parsedNum \<le> 0 then Inl (Throw (''Invalid amount for account: '' @ account))
          else Inr (memo @ [(parsed,
            \<lparr>amount = parsedNum,
             flags_of = (if reasons b = '''' then None else Some (flagsOf (reasons b)))\<rparr>)]))))"

definition dataByAddress :: "ethers \<Rightarrow> new_format list \<Rightarrow> (string \<times> balance_data) list result" where
  "dataByAddress E bs = foldE (addBalance E) [] bs"

section \<open>The distribution\<close>

definition sortedAddresses :: "(string \<times> balance_data) list \<Rightarrow> string list" where
  "sortedAddresses memo = sort (map fst memo)"

definition dataOf :: "(string \<times> balance_data) list \<Rightarrow> string \<Rightarrow> balance_data" where
  "dataOf memo a = the (map_of memo a)"

definition parseBalanceMap :: "ethers \<Rightarrow> keccak \<Rightarrow> balances \<Rightarrow> distributor_info result" where
  "parseBalanceMap E K balances =
     bindE (dataByAddress E (toNewFormat balances)) (\<lambda>memo.
     let sorted = sortedAddresses memo in
     bindE (mkBalanceTree E K (map (\<lambda>a. (a, amount (dataOf memo a))) sorted)) (\<lambda>tree.
     bindE (mapE_index (\<lambda>index a.
              let d = dataOf memo a in
              bindE (balance_getProof E tree index a (amount d)) (\<lambda>pf.
              Inr (a, \<lparr>claim_index = index, claim_amount = toHexString E (amount d),
                      claim_proof = pf, claim_flags = flags_of d\<rparr>))) sorted) (\<lambda>claims.
     let total = foldl (\<lambda>memo' key. memo' + amount (dataOf memo key)) 0 sorted in
     Inr \<lparr>merkleRoot = getHexRoot tree, tokenTotal = toHexString E total, claims = claims\<rparr>)))"

section \<open>The earnings collected\<close>

text \<open>\<open>entry_ok E b (a, d)\<close>: the input entry \<open>b\<close> is accepted as the data \<open>d\<close> of address \<open>a\<close>.\<close>

definition entry_ok :: "ethers \<Rightarrow> new_format \<Rightarrow> string \<times> balance_data \<Rightarrow> bool" where
  "entry_ok E b e \<longleftrightarrow>
     isAddress E (address b) \<and> getAddress E (address b) = Inr (fst e) \<and>
     BigNumber_from E (earnings b) = Inr (amount (snd e)) \<and> 0 < amount (snd e) \<and>
     flags_of (snd e) = (if reasons b = '''' then None else Some (flagsOf (reasons b)))"

lemma addBalance_Inr:
  "addBalance E memo b = Inr memo' \<longleftrightarrow>
   (\<exists>e. memo' = memo @ [e] \<and> entry_ok E b e \<and> fst e \<notin> fst ` set memo)"
proof
  assume "addBalance E memo b = Inr memo'"
  then show "\<exists>e. memo' = memo @ [e] \<and> entry_ok E b e \<and> fst e \<notin> fst ` set memo"
    by (auto simp: addBalance_def Let_def entry_ok_def not_le map_of_eq_None_iff split: if_splits)
next
  assume "\<exists>e. memo' = memo @ [e] \<and> entry_ok E b e \<and> fst e \<notin> fst ` set memo"
  then obtain a d where ad: "memo' = memo @ [(a, d)]" "entry_ok E b (a, d)" "a \<notin> fst ` set memo"
    by auto
  then have "map_of memo a = None" by (simp add: map_of_eq_None_iff)
  with ad show "addBalance E memo b = Inr memo'"
    by (cases d) (simp add: addBalance_def Let_def entry_ok_def)
qed

lemma dataByAddress_from:
  "distinct (map fst memo) \<Longrightarrow>
   foldE (addBalance E) memo bs = Inr memo' \<longleftrightarrow>
   (\<exists>es. memo' = memo @ es \<and> list_all2 (entry_ok E) bs es \<and> distinct (map fst (memo @ es)))"
proof (induction bs arbitrary: memo)
  case Nil
  then show ?case by auto
next
  case (Cons b bs)
  have "foldE (addBalance E) memo (b # bs) = Inr memo' \<longleftrightarrow>
      (\<exists>e. entry_ok E b e \<and> fst e \<notin> fst ` set memo \<and>
           foldE (addBalance E) (memo @ [e]) bs = Inr memo')"
    by (auto simp: addBalance_Inr)
  also have "\<dots> \<longleftrightarrow> (\<exists>e es. entry_ok E b e \<and> memo' = memo @ e # es \<and>
      list_all2 (entry_ok E) bs es \<and> distinct (map fst (memo @ e # es)))"
    using Cons.prems by (subst conj_cong [OF refl conj_cong [OF refl Cons.IH]]) auto
  finally show ?case by (auto simp: list_all2_Cons1)
qed

lemma dataByAddress_Inr:
  "dataByAddress E bs = Inr memo \<longleftrightarrow>
   list_all2 (entry_ok E) bs memo \<and> distinct (map fst memo)"
  using dataByAddress_from [of "[]" E bs memo] by (simp add: dataByAddress_def)

lemma entry_ok_unique: "entry_ok E b e \<Longrightarrow> entry_ok E b e' \<Longrightarrow> e = e'"
  by (auto simp: entry_ok_def prod_eq_iff intro: balance_data.equality)

lemma dataOf_in [simp]: "distinct (map fst memo) \<Longrightarrow> (a, d) \<in> set memo \<Longrightarrow> dataOf memo a = d"
  by (simp add: dataOf_def)

lemma sum_over_keys:
  assumes d: "distinct (map fst memo)"
  shows "sum_list (map (\<lambda>a. amount (dataOf memo a)) (sortedAddresses memo)) =
         sum_list (map (amount \<circ> snd) memo)"
proof -
  have "sum_list (map (\<lambda>a. amount (dataOf memo a)) (sortedAddresses memo)) =
      sum_mset (image_mset (\<lambda>a. amount (dataOf memo a)) (mset (map fst memo)))"
    by (simp add: sortedAddresses_def flip: sum_mset_sum_list)
  also have "\<dots> = sum_list (map (\<lambda>e. amount (dataOf memo (fst e))) memo)"
    by (simp add: multiset.map_comp comp_def flip: sum_mset_sum_list)
  also have "\<dots> = sum_list (map (amount \<circ> snd) memo)"
    using d by (intro arg_cong [of _ _ sum_list] map_cong) auto
  finally show ?thesis .
qed

lemma foldl_plus: "foldl (\<lambda>s k. s + f k) (z::int) ks = z + sum_list (map f ks)"
  by (induction ks arbitrary: z) simp_all

text \<open>Everything a successful run computes.\<close>

definition claim_of ::
  "ethers \<Rightarrow> (string \<times> balance_data) list \<Rightarrow> nat \<Rightarrow> string list \<Rightarrow> string \<times> claim" where
  "claim_of E memo i pf =
     (let a = sortedAddresses memo ! i; d = dataOf memo a in
      (a, \<lparr>claim_index = i, claim_amount = toHexString E (amount d),
          claim_proof = pf, claim_flags = flags_of d\<rparr>))"

lemma parseBalanceMap_Inr:
  assumes "parseBalanceMap E K bs = Inr info"
  obtains memo tree where
    "list_all2 (entry_ok E) (toNewFormat bs) memo" "distinct (map fst memo)"
    "mkBalanceTree E K (map (\<lambda>a. (a, amount (dataOf memo a))) (sortedAddresses memo)) = Inr tree"
    "merkleRoot info = getHexRoot tree"
    "tokenTotal info = toHexString E (sum_list (map (amount \<circ> snd) memo))"
    "length (claims info) = length memo"
    "\<And>i. i < length memo \<Longrightarrow> \<exists>pf.
       balance_getProof E tree i (sortedAddresses memo ! i)
         (amount (dataOf memo (sortedAddresses memo ! i))) = Inr pf \<and>
       claims info ! i = claim_of E memo i pf"
proof -
  from assms obtain memo tree cs where m: "dataByAddress E (toNewFormat bs) = Inr memo"
    and tree: "mkBalanceTree E K (map (\<lambda>a. (a, amount (dataOf memo a))) (sortedAddresses memo)) = Inr tree"
    and cs: "mapE_index (\<lambda>index a. let d = dataOf memo a in
        bindE (balance_getProof E tree index a (amount d)) (\<lambda>pf.
          Inr (a, \<lparr>claim_index = index, claim_amount = toHexString E (amount d),
                  claim_proof = pf, claim_flags = flags_of d\<rparr>))) (sortedAddresses memo) = Inr cs"
    and info: "info = \<lparr>merkleRoot = getHexRoot tree, tokenTotal =
        toHexString E (foldl (\<lambda>memo' key. memo' + amount (dataOf memo key)) 0 (sortedAddresses memo)),
        claims = cs\<rparr>"
    by (auto simp: parseBalanceMap_def Let_def)
  have len: "length (sortedAddresses memo) = length memo" by (simp add: sortedAddresses_def)
  have d: "distinct (map fst memo)" "list_all2 (entry_ok E) (toNewFormat bs) memo"
    using m by (simp_all add: dataByAddress_Inr)
  show ?thesis
  proof (rule that [OF d(2,1) tree])
    show "tokenTotal info = toHexString E (sum_list (map (amount \<circ> snd) memo))"
      using sum_over_keys [OF d(1)] by (simp add: info foldl_plus)
    show "length (claims info) = length memo"
      using cs by (simp add: info mapE_index_Inr len)
    fix i assume "i < length memo"
    then show "\<exists>pf. balance_getProof E tree i (sortedAddresses memo ! i)
         (amount (dataOf memo (sortedAddresses memo ! i))) = Inr pf \<and>
       claims info ! i = claim_of E memo i pf"
      using cs by (auto simp: info mapE_index_Inr len Let_def claim_of_def)
  qed (simp add: info)
qed

section \<open>Properties of the distribution\<close>

lemma length_sortedAddresses [simp]: "length (sortedAddresses memo) = length memo"
  by (simp add: sortedAddresses_def)

lemma set_sortedAddresses [simp]: "set (sortedAddresses memo) = fst ` set memo"
  by (simp add: sortedAddresses_def)

lemma sortedAddresses_nth:
  assumes "distinct (map fst memo)" "i < length memo"
  shows "(sortedAddresses memo ! i, dataOf memo (sortedAddresses memo ! i)) \<in> set memo"
proof -
  have "sortedAddresses memo ! i \<in> fst ` set memo"
    using assms(2) nth_mem [of i "sortedAddresses memo"] by simp
  with assms(1) show ?thesis by auto
qed

text \<open>The sample distribution: two accounts, given out of order and with a lower-case form.\<close>

definition sample_balances :: balances where
  "sample_balances =
     NewFormat [\<lparr>address = ''B'', earnings = ''0x7'', reasons = ''socks,lp''\<rparr>,
                \<lparr>address = ''a'', earnings = ''0x5'', reasons = ''''\<rparr>]"

definition sample_info :: distributor_info where
  "sample_info = (case parseBalanceMap sample_ethers sample_hash sample_balances of
     Inr info \<Rightarrow> info | Inl _ \<Rightarrow> \<lparr>merkleRoot = '''', tokenTotal = '''', claims = []\<rparr>)"

lemma sample_runs: "parseBalanceMap sample_ethers sample_hash sample_balances = Inr sample_info"
proof -
  have "case parseBalanceMap sample_ethers sample_hash sample_balances of Inr _ \<Rightarrow> True | Inl _ \<Rightarrow> False"
    by code_simp
  then show ?thesis by (auto simp: sample_info_def split: sum.splits)
qed

text \<open>
  C1: Every claim that \<open>parseBalanceMap\<close> publishes can be redeemed: its amount is the text of a
  positive number, and \<open>BalanceTree.verifyProof\<close> accepts its index, account, amount and proof
  against the published root.
\<close>

theorem parsed_claims_verify:
  assumes "parseBalanceMap E K bs = Inr info" and "(account, c) \<in> set (claims info)"
  shows "\<exists>m > 0. claim_amount c = toHexString E m \<and>
    verifyProof E K (claim_index c) account m
      (map (\<lambda>s. fromHex (drop 2 s)) (claim_proof c)) (fromHex (drop 2 (merkleRoot info))) = Inr True"
proof -
  from assms(1) obtain memo tree where
      memo: "list_all2 (entry_ok E) (toNewFormat bs) memo" "distinct (map fst memo)"
    and tree: "mkBalanceTree E K (map (\<lambda>a. (a, amount (dataOf memo a))) (sortedAddresses memo)) = Inr tree"
    and root: "merkleRoot info = getHexRoot tree"
    and len: "length (claims info) = length memo"
    and cl: "\<And>i. i < length memo \<Longrightarrow> \<exists>pf.
       balance_getProof E tree i (sortedAddresses memo ! i)
         (amount (dataOf memo (sortedAddresses memo ! i))) = Inr pf \<and>
       claims info ! i = claim_of E memo i pf"
    by (rule parseBalanceMap_Inr) blast
  from assms(2) len obtain i where i: "i < length memo" "claims info ! i = (account, c)"
    by (auto simp: in_set_conv_nth)
  define m where "m = amount (dataOf memo account)"
  from cl [OF i(1)] obtain pf where a: "sortedAddresses memo ! i = account"
    and c: "c = \<lparr>claim_index = i, claim_amount = toHexString E m, claim_proof = pf,
                 claim_flags = flags_of (dataOf memo account)\<rparr>"
    and pf: "balance_getProof E tree i account m = Inr pf"
    by (auto simp: i(2) claim_of_def Let_def m_def)
  have "(account, dataOf memo account) \<in> set memo"
    using sortedAddresses_nth [OF memo(2) i(1)] by (simp add: a)
  then have "0 < m"
    using memo(1) by (auto simp: m_def list_all2_conv_all_nth in_set_conv_nth entry_ok_def)
  moreover have "verifyProof E K i account m (map (\<lambda>s. fromHex (drop 2 s)) pf)
      (fromHex (drop 2 (getHexRoot tree))) = Inr True"
    using balance_proof_verifies [OF tree, of i account m] i(1) pf by (auto simp: a m_def)
  ultimately show ?thesis by (auto simp: c root)
qed

theorem parsed_claims_verify_witness:
  "\<exists>m > 0. claim_amount (snd (claims sample_info ! 0)) = toHexString sample_ethers m \<and>
    verifyProof sample_ethers sample_hash 0 ''A'' m
      (map (\<lambda>s. fromHex (drop 2 s)) (claim_proof (snd (claims sample_info ! 0))))
      (fromHex (drop 2 (merkleRoot sample_info))) = Inr True"
proof -
  have "map (\<lambda>(a, c). (a, claim_index c)) (claims sample_info) = [(''A'', 0), (''B'', 1)]"
    by code_simp
  then have "(''A'', snd (claims sample_info ! 0)) \<in> set (claims sample_info)"
      "claim_index (snd (claims sample_info ! 0)) = 0"
    by (auto simp: Cons_eq_map_conv map_eq_Cons_conv)
  with parsed_claims_verify [OF sample_runs] show ?thesis by metis
qed

text \<open>What the accepted entries are, column by column.\<close>

lemma entries_columns:
  "list_all2 (entry_ok E) bs memo \<Longrightarrow>
   map (\<lambda>b. BigNumber_from E (earnings b)) bs = map Inr (map (amount \<circ> snd) memo) \<and>
   map (\<lambda>b. getAddress E (address b)) bs = map Inr (map fst memo) \<and>
   (\<forall>m \<in> set (map (amount \<circ> snd) memo). 0 < m)"
  by (induction rule: list_all2_induct) (auto simp: entry_ok_def)

text \<open>
  C26: The published figures add up: every input amount is a positive number, the claims carry
  exactly these amounts, and \<open>tokenTotal\<close> is the text of their sum.
\<close>

theorem parsed_total:
  assumes "parseBalanceMap E K bs = Inr info"
  shows "\<exists>ms. map (\<lambda>b. BigNumber_from E (earnings b)) (toNewFormat bs) = map Inr ms \<and>
    (\<forall>m \<in> set ms. 0 < m) \<and> tokenTotal info = toHexString E (sum_list ms) \<and>
    mset (map (claim_amount \<circ> snd) (claims info)) = mset (map (toHexString E) ms)"
proof -
  from assms obtain memo where
      memo: "list_all2 (entry_ok E) (toNewFormat bs) memo" "distinct (map fst memo)"
    and total: "tokenTotal info = toHexString E (sum_list (map (amount \<circ> snd) memo))"
    and len: "length (claims info) = length memo"
    and cl: "\<And>i. i < length memo \<Longrightarrow> \<exists>pf. claims info ! i = claim_of E memo i pf"
    by (rule parseBalanceMap_Inr) blast
  let ?ms = "map (amount \<circ> snd) memo"
  have "map (claim_amount \<circ> snd) (claims info) =
      map (\<lambda>a. toHexString E (amount (dataOf memo a))) (sortedAddresses memo)"
  proof (rule nth_equalityI)
    show "length (map (claim_amount \<circ> snd) (claims info)) =
      length (map (\<lambda>a. toHexString E (amount (dataOf memo a))) (sortedAddresses memo))"
      by (simp add: len)
    fix i assume "i < length (map (claim_amount \<circ> snd) (claims info))"
    then have i: "i < length memo" by (simp add: len)
    with cl [OF i] show "map (claim_amount \<circ> snd) (claims info) ! i =
        map (\<lambda>a. toHexString E (amount (dataOf memo a))) (sortedAddresses memo) ! i"
      by (auto simp: len claim_of_def Let_def)
  qed
  also have "mset \<dots> = image_mset (\<lambda>a. toHexString E (amount (dataOf memo a))) (mset (map fst memo))"
    by (simp add: sortedAddresses_def)
  also have "\<dots> = mset (map (toHexString E) ?ms)"
    using memo(2) by (auto simp: multiset.map_comp comp_def intro!: image_mset_cong)
  finally have "mset (map (claim_amount \<circ> snd) (claims info)) = mset (map (toHexString E) ?ms)" .
  then show ?thesis using entries_columns [OF memo(1)] total by blast
qed

theorem parsed_total_witness:
  "\<exists>ms. map (\<lambda>b. BigNumber_from sample_ethers (earnings b)) (toNewFormat sample_balances) = map Inr ms \<and>
    tokenTotal sample_info = toHexString sample_ethers (sum_list ms)"
  using parsed_total [OF sample_runs] by blast

text \<open>
  The published claims are a table of the accounts: the keys are the checksummed forms of the
  input addresses, each once and in increasing order, and the index of a claim is its position.
\<close>

theorem parsed_claims_indexed:
  assumes "parseBalanceMap E K bs = Inr info"
  shows "map (claim_index \<circ> snd) (claims info) = [0 ..< length (toNewFormat bs)] \<and>
    sorted (map fst (claims info)) \<and> distinct (map fst (claims info)) \<and>
    Inr ` set (map fst (claims info)) = (\<lambda>b. getAddress E (address b)) ` set (toNewFormat bs)"
proof -
  from assms obtain memo where
      memo: "list_all2 (entry_ok E) (toNewFormat bs) memo" "distinct (map fst memo)"
    and len: "length (claims info) = length memo"
    and cl: "\<And>i. i < length memo \<Longrightarrow> \<exists>pf. claims info ! i = claim_of E memo i pf"
    by (rule parseBalanceMap_Inr) blast
  have n: "length (toNewFormat bs) = length memo" using memo(1) by (rule list_all2_lengthD)
  have at: "fst (claims info ! i) = sortedAddresses memo ! i" "claim_index (snd (claims info ! i)) = i"
    if "i < length memo" for i
    using cl [OF that] by (auto simp: claim_of_def Let_def)
  have "map fst (claims info) = sortedAddresses memo"
    by (rule nth_equalityI) (simp_all add: len at)
  moreover have "map (claim_index \<circ> snd) (claims info) = [0 ..< length (toNewFormat bs)]"
    by (rule nth_equalityI) (simp_all add: len at n)
  moreover have "set (map (\<lambda>b. getAddress E (address b)) (toNewFormat bs)) = set (map Inr (map fst memo))"
    using entries_columns [OF memo(1)] by simp
  ultimately show ?thesis using memo(2) by (simp add: sortedAddresses_def image_image)
qed

theorem parsed_claims_indexed_witness:
  "map (claim_index \<circ> snd) (claims sample_info) = [0, 1] \<and> distinct (map fst (claims sample_info))"
  using parsed_claims_indexed [OF sample_runs] by (simp add: sample_balances_def)

text \<open>
  C25: The order of the input does not matter: permuting the entries of a new-format list gives the
  same distribution, with the same root, indices and proofs.
\<close>

theorem parsed_permutation:
  assumes "parseBalanceMap E K (NewFormat bs) = Inr info" and "mset bs' = mset bs"
  shows "parseBalanceMap E K (NewFormat bs') = Inr info"
proof -
  from assms(1) obtain memo where memo: "dataByAddress E bs = Inr memo"
    by (auto simp: parseBalanceMap_def)
  then have ok: "list_all2 (entry_ok E) bs memo" and d: "distinct (map fst memo)"
    by (simp_all add: dataByAddress_Inr)
  from list_all2_reorder_left_invariance [OF ok assms(2)]
  obtain memo' where ok': "list_all2 (entry_ok E) bs' memo'" and perm: "mset memo' = mset memo" by blast
  from perm have keys: "mset (map fst memo') = mset (map fst memo)" by simp
  with d have d': "distinct (map fst memo')" by (metis mset_eq_imp_distinct_iff)
  with ok' have memo': "dataByAddress E bs' = Inr memo'" by (simp add: dataByAddress_Inr)
  have "map_of memo' = map_of memo"
    using map_of_inject_set [OF d' d] mset_eq_setD [OF perm] by simp
  then have "dataOf memo' = dataOf memo" by (simp add: dataOf_def fun_eq_iff)
  moreover have "sortedAddresses memo' = sortedAddresses memo"
    unfolding sortedAddresses_def using keys by (intro properties_for_sort) simp_all
  ultimately show ?thesis
    using assms(1) by (simp only: parseBalanceMap_def memo memo' bindE_simps toNewFormat.simps)
qed

theorem parsed_permutation_witness:
  "parseBalanceMap sample_ethers sample_hash
     (NewFormat [\<lparr>address = ''a'', earnings = ''0x5'', reasons = ''''\<rparr>,
                 \<lparr>address = ''B'', earnings = ''0x7'', reasons = ''socks,lp''\<rparr>]) = Inr sample_info"
  by (rule parsed_permutation [OF sample_runs [unfolded sample_balances_def]]) simp

text \<open>Once the entries are collected, only the hash of a node can throw.\<close>

lemma parseBalanceMap_runs:
  assumes node: "\<And>i. i < length memo \<Longrightarrow>
      \<exists>n. toNode E i (sortedAddresses memo ! i) (amount (dataOf memo (sortedAddresses memo ! i))) = Inr n"
    and memo: "dataByAddress E (toNewFormat bs) = Inr memo" "memo \<noteq> []"
  shows "\<exists>info. parseBalanceMap E K bs = Inr info"
proof -
  let ?a = "\<lambda>i. sortedAddresses memo ! i" and ?m = "\<lambda>i. amount (dataOf memo (sortedAddresses memo ! i))"
  from node obtain g where g: "\<And>i. i < length memo \<Longrightarrow> toNode E i (?a i) (?m i) = Inr (g i)"
    by metis
  obtain tree where "mkMerkleTree K (map g [0 ..< length memo]) = Inr tree"
    using memo(2) keccak_tree.build_nonempty [of "map g [0 ..< length memo]" K] by auto
  then have tree: "mkBalanceTree E K (map (\<lambda>a. (a, amount (dataOf memo a))) (sortedAddresses memo)) = Inr tree"
    unfolding mkBalanceTree_Inr by (intro exI [of _ "map g [0 ..< length memo]"]) (simp add: g)
  have "\<exists>y. balance_getProof E tree i (?a i) (?m i) = Inr y" if "i < length memo" for i
    using balance_proof_verifies [OF tree, of i] that by auto
  then obtain p where p: "\<And>i. i < length memo \<Longrightarrow> balance_getProof E tree i (?a i) (?m i) = Inr (p i)"
    by metis
  have "mapE_index (\<lambda>index a. let d = dataOf memo a in
        bindE (balance_getProof E tree index a (amount d)) (\<lambda>pf.
          Inr (a, \<lparr>claim_index = index, claim_amount = toHexString E (amount d),
                  claim_proof = pf, claim_flags = flags_of d\<rparr>))) (sortedAddresses memo)
      = Inr (map (\<lambda>i. claim_of E memo i (p i)) [0 ..< length memo])"
    by (simp add: mapE_index_Inr Let_def p claim_of_def)
  then show ?thesis using tree memo(1) by (simp add: parseBalanceMap_def Let_def)
qed

text \<open>
  C15: When \<open>parseBalanceMap\<close> returns: exactly for a non-empty list whose addresses are all valid
  and pairwise different after checksumming and whose amounts all read as positive numbers.  The
  hypotheses are what ethers documents: a valid address has a checksummed form, and the hash of a
  node is defined for the accepted values (that they fit 256 bits).
\<close>

theorem parseBalanceMap_returns_iff:
  assumes checksum: "\<And>a. isAddress E a \<Longrightarrow> \<exists>a'. getAddress E a = Inr a'"
    and hashes: "\<And>i b a m. b \<in> set (toNewFormat bs) \<Longrightarrow> getAddress E (address b) = Inr a \<Longrightarrow>
      BigNumber_from E (earnings b) = Inr m \<Longrightarrow> 0 < m \<Longrightarrow> i < length (toNewFormat bs) \<Longrightarrow>
      \<exists>h. solidityKeccak256 E (int i) a m = Inr h"
  shows "(\<exists>info. parseBalanceMap E K bs = Inr info) \<longleftrightarrow>
    toNewFormat bs \<noteq> [] \<and>
    (\<forall>b \<in> set (toNewFormat bs). isAddress E (address b) \<and>
       (\<exists>m > 0. BigNumber_from E (earnings b) = Inr m)) \<and>
    distinct (map (\<lambda>b. getAddress E (address b)) (toNewFormat bs))"
  (is "?returns \<longleftrightarrow> ?bs \<noteq> [] \<and> ?valid \<and> ?distinct")
proof
  assume ?returns
  then obtain info where "parseBalanceMap E K bs = Inr info" ..
  then obtain memo tree where memo: "list_all2 (entry_ok E) ?bs memo" "distinct (map fst memo)"
    and tree: "mkBalanceTree E K (map (\<lambda>a. (a, amount (dataOf memo a))) (sortedAddresses memo)) = Inr tree"
    by (rule parseBalanceMap_Inr) blast
  from tree have "length memo \<noteq> 0"
    by (auto simp: mkBalanceTree_Inr dest: mkMerkleTree_Inr(1))
  with memo(1) have "?bs \<noteq> []" by (auto dest: list_all2_lengthD)
  moreover have ?valid
    using memo(1) by (auto simp: list_all2_conv_all_nth in_set_conv_nth entry_ok_def)
  moreover have ?distinct
    using memo entries_columns [OF memo(1)] by (simp add: distinct_map inj_on_def)
  ultimately show "?bs \<noteq> [] \<and> ?valid \<and> ?distinct" by blast
next
  assume r: "?bs \<noteq> [] \<and> ?valid \<and> ?distinct"
  have "\<exists>e. entry_ok E b e" if "b \<in> set ?bs" for b
  proof -
    from r that obtain m where m: "isAddress E (address b)" "BigNumber_from E (earnings b) = Inr m" "m > 0"
      by blast
    from checksum [OF m(1)] obtain a where "getAddress E (address b) = Inr a" ..
    with m show ?thesis
      by (intro exI [of _ "(a, \<lparr>amount = m, flags_of = if reasons b = '''' then None else Some (flagsOf (reasons b))\<rparr>)"])
         (simp add: entry_ok_def)
  qed
  then obtain f where f: "\<And>b. b \<in> set ?bs \<Longrightarrow> entry_ok E b (f b)" by metis
  let ?memo = "map f ?bs"
  have ok: "list_all2 (entry_ok E) ?bs ?memo" by (auto simp: list_all2_conv_all_nth f)
  have "map (\<lambda>b. getAddress E (address b)) ?bs = map Inr (map fst ?memo)"
    using entries_columns [OF ok] by simp
  with r have d: "distinct (map fst ?memo)" by (simp only: distinct_map [of Inr])
  have "\<exists>n. toNode E i (sortedAddresses ?memo ! i) (amount (dataOf ?memo (sortedAddresses ?memo ! i))) = Inr n"
    if i: "i < length ?memo" for i
  proof -
    from sortedAddresses_nth [OF d i] obtain b where "b \<in> set ?bs"
        "f b = (sortedAddresses ?memo ! i, dataOf ?memo (sortedAddresses ?memo ! i))"
      by fastforce
    with f [of b] hashes [of b] i show ?thesis by (fastforce simp: entry_ok_def toNode_Inr)
  qed
  then show ?returns
    by (rule parseBalanceMap_runs) (use ok d r in \<open>simp_all add: dataByAddress_Inr\<close>)
qed

theorem parseBalanceMap_returns_iff_witness:
  "\<not> (\<exists>info. parseBalanceMap sample_ethers sample_hash
     (NewFormat [\<lparr>address = ''A'', earnings = ''0x5'', reasons = ''''\<rparr>,
                 \<lparr>address = ''a'', earnings = ''0x7'', reasons = ''''\<rparr>]) = Inr info)"
  by (subst parseBalanceMap_returns_iff) (auto simp: sample_ethers_def split: if_splits)

text \<open>
  C28: The errors, at the first entry that fails: an invalid address, a second entry with the same
  checksummed address, and a zero or negative amount each stop the run with its own message,
  whatever follows; the empty distribution fails with \<open>empty tree\<close>.
\<close>

theorem parseBalanceMap_errors:
  assumes "toNewFormat bs = pre @ b # post" and "dataByAddress E pre = Inr memo"
  shows "(\<not> isAddress E (address b) \<longrightarrow> parseBalanceMap E K bs =
      Inl (Throw (''Found invalid address: '' @ address b))) \<and>
    (isAddress E (address b) \<longrightarrow> (\<forall>a. getAddress E (address b) = Inr a \<longrightarrow>
      (a \<in> fst ` set memo \<longrightarrow>
        parseBalanceMap E K bs = Inl (Throw (''Duplicate address: '' @ a))) \<and>
      (a \<notin> fst ` set memo \<longrightarrow> (\<forall>m. BigNumber_from E (earnings b) = Inr m \<longrightarrow> m \<le> 0 \<longrightarrow>
        parseBalanceMap E K bs = Inl (Throw (''Invalid amount for account: '' @ address b)))))) \<and>
    parseBalanceMap E K (NewFormat []) = Inl (Throw ''empty tree'')"
proof -
  have "parseBalanceMap E K (NewFormat []) = Inl (Throw ''empty tree'')"
    by (simp add: parseBalanceMap_def dataByAddress_def sortedAddresses_def mkBalanceTree_def
        mapE_index_def mkMerkleTree_eq)
  moreover have "dataByAddress E (toNewFormat bs) =
      bindE (addBalance E memo b) (\<lambda>memo. foldE (addBalance E) memo post)"
    using assms by (simp add: dataByAddress_def foldE_append)
  ultimately show ?thesis
    by (auto simp: parseBalanceMap_def addBalance_def Let_def map_of_eq_None_iff)
qed

theorem parseBalanceMap_errors_witness:
  "parseBalanceMap sample_ethers sample_hash
     (NewFormat [\<lparr>address = ''A'', earnings = ''0x5'', reasons = ''''\<rparr>,
                 \<lparr>address = ''a'', earnings = ''0x7'', reasons = ''''\<rparr>]) =
   Inl (Throw ''Duplicate address: A'')"
  using parseBalanceMap_errors [where E = sample_ethers and K = sample_hash
      and pre = "[\<lparr>address = ''A'', earnings = ''0x5'', reasons = ''''\<rparr>]"
      and b = "\<lparr>address = ''a'', earnings = ''0x7'', reasons = ''''\<rparr>" and post = "[]"]
  by (simp add: sample_ethers_def dataByAddress_def addBalance_def Let_def)

lemma nat_hex_200: "nat_hex 512 = ''200''"
  by (simp add: nat_hex.simps hex_char_def hex_digits_def)

text \<open>
  In the old format an amount may be a number or a string, and the two are read differently: a
  number is written in hexadecimal before \<open>0x\<close> is put in front of it, a string is taken to be
  hexadecimal already.  The string of the hexadecimal digits of \<open>n\<close> is therefore the same
  distribution as the number \<open>n\<close>: the string \<open>'200'\<close> gives its account 512, not 200.
\<close>

theorem old_format_strings_are_hex:
  "parseBalanceMap E K (OldFormat (pre @ (a, EStr (nat_hex n)) # post)) =
     parseBalanceMap E K (OldFormat (pre @ (a, ENum (int n)) # post)) \<and>
   parseBalanceMap E K (OldFormat (pre @ (a, EStr ''200'') # post)) =
     parseBalanceMap E K (OldFormat (pre @ (a, ENum 512) # post))"
proof -
  have "toString16 (ENum 512) = ''200''" by (simp add: nat_hex_200)
  then have "toNewFormat (OldFormat (pre @ (a, EStr ''200'') # post)) =
      toNewFormat (OldFormat (pre @ (a, ENum 512) # post))" by simp
  moreover have "toNewFormat (OldFormat (pre @ (a, EStr (nat_hex n)) # post)) =
      toNewFormat (OldFormat (pre @ (a, ENum (int n)) # post))" by simp
  ultimately show ?thesis unfolding parseBalanceMap_def by metis
qed

end
