(* ===== verification/Solidity.thy ===== *)
theory Solidity
  imports Prelude
begin

text \<open>
  What the contract models share.  An address is its text, a \<open>uint256\<close> a natural number below
  \<open>2 ^ 256\<close>.  The arithmetic of OpenZeppelin's \<open>SafeMath\<close> is the parameter \<open>safe_math\<close>; its documented
  behaviour is \<open>safe_math_ok\<close>: the exact result when it is a \<open>uint256\<close>, a revert otherwise.
\<close>

type_synonym address = string

definition uint_max :: nat where
  "uint_max = 2 ^ 256 - 1"

record safe_math =
  sm_add :: "nat \<Rightarrow> nat \<Rightarrow> nat result"
  sm_sub :: "nat \<Rightarrow> nat \<Rightarrow> nat result"
  sm_mul :: "nat \<Rightarrow> nat \<Rightarrow> nat result"
  sm_div :: "nat \<Rightarrow> nat \<Rightarrow> nat result"

definition safe_math_ok :: "safe_math \<Rightarrow> bool" where
  "safe_math_ok M \<longleftrightarrow> (\<forall>a b r.
     (sm_add M a b = Inr r \<longleftrightarrow> a + b \<le> uint_max \<and> r = a + b) \<and>
     (sm_sub M a b = Inr r \<longleftrightarrow> b \<le> a \<and> r = a - b) \<and>
     (sm_mul M a b = Inr r \<longleftrightarrow> a * b \<le> uint_max \<and> r = a * b) \<and>
     (sm_div M a b = Inr r \<longleftrightarrow> 0 < b \<and> r = a div b))"

lemma safe_math_iff:
  assumes "safe_math_ok M"
  shows "sm_add M a b = Inr r \<longleftrightarrow> a + b \<le> uint_max \<and> r = a + b"
    and "sm_sub M a b = Inr r \<longleftrightarrow> b \<le> a \<and> r = a - b"
    and "sm_mul M a b = Inr r \<longleftrightarrow> a * b \<le> uint_max \<and> r = a * b"
    and "sm_div M a b = Inr r \<longleftrightarrow> 0 < b \<and> r = a div b"
  using assms by (auto simp: safe_math_ok_def)

lemma safe_div_zero: "safe_math_ok M \<Longrightarrow> \<exists>e. sm_div M a 0 = Inl e"
  by (cases "sm_div M a 0") (auto simp: safe_math_iff)

text \<open>A concrete arithmetic with that behaviour, for the witnesses.\<close>

definition checked_math :: safe_math where
  "checked_math =
     \<lparr>sm_add = (\<lambda>a b. if a + b \<le> uint_max then Inr (a + b) else Inl (Revert ''SafeMath: addition overflow'')),
      sm_sub = (\<lambda>a b. if b \<le> a then Inr (a - b) else Inl (Revert ''SafeMath: subtraction overflow'')),
      sm_mul = (\<lambda>a b. if a * b \<le> uint_max then Inr (a * b) else Inl (Revert ''SafeMath: multiplication overflow'')),
      sm_div = (\<lambda>a b. if 0 < b then Inr (a div b) else Inl (Revert ''SafeMath: division by zero''))\<rparr>"

lemma checked_math_ok [simp]: "safe_math_ok checked_math"
  by (auto simp: safe_math_ok_def checked_math_def)

text \<open>The transaction a function runs in.\<close>

record msg =
  sender :: address
  block_number :: nat
  block_timestamp :: nat
  this :: address

definition zero_address :: address where
  "zero_address = ''0x0000000000000000000000000000000000000000''"

end
