(* ===== verification/Merkle_Distributor.thy ===== *)
theory Merkle_Distributor
  imports Balance_Map Solidity
begin

text \<open>
  \<open>contracts/6/token/MerkleDistributor.sol\<close>: the contract that pays out the distribution computed
  by \<open>utils/parse-balance-map.ts\<close>.  The tokens, \<open>Ownable\<close> and OpenZeppelin's \<open>MerkleProof\<close> are the
  parameter \<open>md_ext\<close>; \<open>leaf_hash\<close> is \<open>keccak256(abi.encodePacked(index, account, amount))\<close>.  The
  model assumes that the token does not call back into the distributor from a transfer.  The
  properties put the TypeScript side and the contract together.
\<close>

unbundle bit_operations_syntax

section \<open>The contract\<close>

record merkle_distributor =
  md_token :: Solidity.address
  md_merkleRoot :: buffer
  claimedBitMap :: "nat \<Rightarrow> 256 word"

record 'x md_ext =
  md_onlyOwner :: "Solidity.address \<Rightarrow> 'x \<Rightarrow> bool"
  leaf_hash :: "nat \<Rightarrow> Solidity.address \<Rightarrow> nat \<Rightarrow> buffer"
  merkle_verify :: "buffer list \<Rightarrow> buffer \<Rightarrow> buffer \<Rightarrow> bool"
  md_transfer :: "Solidity.address \<Rightarrow> Solidity.address \<Rightarrow> nat \<Rightarrow> 'x \<Rightarrow> (bool \<times> 'x) result"
  md_safeTransfer :: "Solidity.address \<Rightarrow> Solidity.address \<Rightarrow> nat \<Rightarrow> 'x \<Rightarrow> 'x result"
  md_safeTransferFrom ::
    "Solidity.address \<Rightarrow> Solidity.address \<Rightarrow> Solidity.address \<Rightarrow> nat \<Rightarrow> 'x \<Rightarrow> 'x result"
  md_balanceOf :: "Solidity.address \<Rightarrow> Solidity.address \<Rightarrow> 'x \<Rightarrow> nat"

type_synonym 'x md_state = "merkle_distributor \<times> 'x"

definition md_constructor :: "Solidity.address \<Rightarrow> buffer \<Rightarrow> merkle_distributor" where
  "md_constructor tok root = \<lparr>md_token = tok, md_merkleRoot = root, claimedBitMap = (\<lambda>_. 0)\<rparr>"

definition isClaimed :: "merkle_distributor \<Rightarrow> nat \<Rightarrow> bool" where
  "isClaimed s index =
     (let claimedWord = claimedBitMap s (index div 256); mask = push_bit (index mod 256) 1 in
      claimedWord AND mask = mask)"

definition setClaimed :: "nat \<Rightarrow> merkle_distributor \<Rightarrow> merkle_distributor" where
  "setClaimed index s =
     s\<lparr>claimedBitMap := (claimedBitMap s)(index div 256 :=
        claimedBitMap s (index div 256) OR push_bit (index mod 256) 1)\<rparr>"

definition md_claim ::
  "'x md_ext \<Rightarrow> nat \<Rightarrow> Solidity.address \<Rightarrow> nat \<Rightarrow> buffer list \<Rightarrow> 'x md_state \<Rightarrow> 'x md_state result" where
  "md_claim X index account amt merkleProof = (\<lambda>(s, x).
     bindE (require (\<not> isClaimed s index) ''MerkleDistributor::claim: drop already claimed'') (\<lambda>_.
     let node = leaf_hash X index account amt in
     bindE (require (merkle_verify X merkleProof (md_merkleRoot s) node)
       ''MerkleDistributor::claim: invalid proof'') (\<lambda>_.
     let s = setClaimed index s in
     bindE (md_transfer X (md_token s) account amt x) (\<lambda>(ok, x).
     bindE (require ok ''MerkleDistributor::claim: transfer failed'') (\<lambda>_. Inr (s, x))))))"

definition md_owner_only :: "'x md_ext \<Rightarrow> msg \<Rightarrow> 'x \<Rightarrow> unit result" where
  "md_owner_only X m x = require (md_onlyOwner X (sender m) x) ''Ownable: caller is not the owner''"

definition md_deposit :: "'x md_ext \<Rightarrow> msg \<Rightarrow> nat \<Rightarrow> 'x md_state \<Rightarrow> 'x md_state result" where
  "md_deposit X m amt = (\<lambda>(s, x). bindE (md_owner_only X m x) (\<lambda>_.
     bindE (md_safeTransferFrom X (md_token s) (sender m) (this m) amt x) (\<lambda>x. Inr (s, x))))"

definition md_withdrawTokens ::
  "'x md_ext \<Rightarrow> msg \<Rightarrow> Solidity.address \<Rightarrow> nat \<Rightarrow> 'x md_state \<Rightarrow> 'x md_state result" where
  "md_withdrawTokens X m tok amt = (\<lambda>(s, x). bindE (md_owner_only X m x) (\<lambda>_.
     bindE (md_safeTransfer X tok (sender m) amt x) (\<lambda>x. Inr (s, x))))"

definition md_withdrawRewardTokens :: "'x md_ext \<Rightarrow> msg \<Rightarrow> nat \<Rightarrow> 'x md_state \<Rightarrow> 'x md_state result" where
  "md_withdrawRewardTokens X m amt = (\<lambda>(s, x). bindE (md_owner_only X m x) (\<lambda>_.
     bindE (md_safeTransfer X (md_token s) (sender m) amt x) (\<lambda>x. Inr (s, x))))"

definition md_withdrawAllRewardTokens :: "'x md_ext \<Rightarrow> msg \<Rightarrow> 'x md_state \<Rightarrow> 'x md_state result" where
  "md_withdrawAllRewardTokens X m = (\<lambda>(s, x). bindE (md_owner_only X m x) (\<lambda>_.
     let amt = md_balanceOf X (md_token s) (this m) x in
     bindE (md_safeTransfer X (md_token s) (sender m) amt x) (\<lambda>x. Inr (s, x))))"

section \<open>Histories\<close>

text \<open>
  A history is a list of calls with their transactions; a call that reverts changes nothing.
  \<open>md_history\<close> also collects the claims that succeeded, as index, account and amount.
\<close>

datatype md_call = Claim nat Solidity.address nat "buffer list" | Deposit nat
  | WithdrawTokens Solidity.address nat | WithdrawRewardTokens nat | WithdrawAllRewardTokens

fun md_exec :: "'x md_ext \<Rightarrow> msg \<Rightarrow> md_call \<Rightarrow> 'x md_state \<Rightarrow> 'x md_state result" where
  "md_exec X m (Claim i a n pf) = md_claim X i a n pf"
| "md_exec X m (Deposit n) = md_deposit X m n"
| "md_exec X m (WithdrawTokens tok n) = md_withdrawTokens X m tok n"
| "md_exec X m (WithdrawRewardTokens n) = md_withdrawRewardTokens X m n"
| "md_exec X m WithdrawAllRewardTokens = md_withdrawAllRewardTokens X m"

fun paid_by :: "md_call \<Rightarrow> (nat \<times> Solidity.address \<times> nat) list" where
  "paid_by (Claim i a n pf) = [(i, a, n)]"
| "paid_by _ = []"

fun md_history ::
  "'x md_ext \<Rightarrow> (msg \<times> md_call) list \<Rightarrow> 'x md_state \<Rightarrow> (nat \<times> Solidity.address \<times> nat) list \<times> 'x md_state"
  where
  "md_history X [] st = ([], st)"
| "md_history X ((m, c) # cs) st = (case md_exec X m c st of
     Inl e \<Rightarrow> md_history X cs st
   | Inr st' \<Rightarrow> let (paid, st'') = md_history X cs st' in (paid_by c @ paid, st''))"

section \<open>The bit map is a set of indices\<close>

locale claim_set =
  fixes mark :: "nat \<Rightarrow> 's \<Rightarrow> 's" and marked :: "'s \<Rightarrow> nat \<Rightarrow> bool"
  assumes marked_mark: "marked (mark i s) j \<longleftrightarrow> j = i \<or> marked s j"
begin

lemma marked_fold: "marked (fold mark is s) j \<longleftrightarrow> j \<in> set is \<or> marked s j"
  by (induction "is" arbitrary: s) (auto simp: marked_mark)

lemma mark_marked: "marked (mark i s) i"
  by (simp add: marked_mark)

end

lemma bit_mask: "bit (push_bit n (1 :: 256 word)) k \<longleftrightarrow> k < 256 \<and> k = n"
  by (auto simp: push_bit_of_1 bit_exp_iff)

lemma mask_bit:
  assumes "n < 256"
  shows "(w AND push_bit n 1 = push_bit n (1 :: 256 word)) \<longleftrightarrow> bit w n"
proof
  assume "w AND push_bit n 1 = push_bit n 1"
  then have "bit (w AND push_bit n 1) n = bit (push_bit n (1 :: 256 word)) n" by simp
  then show "bit w n" using assms by (simp add: bit_and_iff bit_mask del: push_bit_of_1)
next
  assume "bit w n"
  then show "w AND push_bit n 1 = push_bit n 1"
    by (intro bit_word_eqI) (auto simp: bit_and_iff bit_mask simp del: push_bit_of_1)
qed

lemma isClaimed_bit: "isClaimed s i \<longleftrightarrow> bit (claimedBitMap s (i div 256)) (i mod 256)"
  by (simp add: isClaimed_def Let_def mask_bit del: push_bit_of_1)

lemma index_split: "j = i \<longleftrightarrow> j div 256 = i div 256 \<and> j mod 256 = i mod (256 :: nat)"
  by (metis div_mult_mod_eq)

interpretation claimed: claim_set setClaimed isClaimed
proof
  fix i j :: nat and s
  show "isClaimed (setClaimed i s) j \<longleftrightarrow> j = i \<or> isClaimed s j"
    using index_split [of j i] by (auto simp: isClaimed_bit setClaimed_def bit_or_iff bit_mask simp del: push_bit_of_1)
qed

section \<open>Each index is paid at most once\<close>

lemma md_claim_Inr:
  "md_claim X i a n pf (s, x) = Inr (s', x') \<longleftrightarrow> \<not> isClaimed s i \<and>
   merkle_verify X pf (md_merkleRoot s) (leaf_hash X i a n) \<and> s' = setClaimed i s \<and>
   md_transfer X (md_token s) a n x = Inr (True, x')"
  by (auto simp: md_claim_def Let_def setClaimed_def)

lemma claimed_reverts:
  "isClaimed s i \<Longrightarrow> md_claim X i a n pf (s, x) = Inl (Revert ''MerkleDistributor::claim: drop already claimed'')"
  by (simp add: md_claim_def)

lemma setClaimed_fixed [simp]:
  "md_merkleRoot (setClaimed i s) = md_merkleRoot s" "md_token (setClaimed i s) = md_token s"
  by (simp_all add: setClaimed_def)

lemma md_exec_Inr:
  assumes "md_exec X m c st = Inr st'"
  shows "md_merkleRoot (fst st') = md_merkleRoot (fst st) \<and> md_token (fst st') = md_token (fst st) \<and>
    distinct (map fst (paid_by c)) \<and> (\<forall>i \<in> fst ` set (paid_by c). \<not> isClaimed (fst st) i) \<and>
    (\<forall>i. isClaimed (fst st') i \<longleftrightarrow> isClaimed (fst st) i \<or> i \<in> fst ` set (paid_by c))"
  using assms
  by (cases c; cases st; cases st')
     (auto simp: md_claim_Inr claimed.marked_mark md_deposit_def md_withdrawTokens_def
        md_withdrawRewardTokens_def md_withdrawAllRewardTokens_def Let_def)

lemma md_history_facts:
  "md_history X cs st = (paid, st') \<Longrightarrow>
   md_merkleRoot (fst st') = md_merkleRoot (fst st) \<and> md_token (fst st') = md_token (fst st) \<and>
   distinct (map fst paid) \<and> (\<forall>i \<in> fst ` set paid. \<not> isClaimed (fst st) i) \<and>
   (\<forall>i. isClaimed (fst st') i \<longleftrightarrow> isClaimed (fst st) i \<or> i \<in> fst ` set paid)"
proof (induction X cs st arbitrary: paid st' rule: md_history.induct)
  case (2 X m c cs st)
  show ?case
  proof (cases "md_exec X m c st")
    case (Inl e)
    with 2 show ?thesis by simp
  next
    case (Inr st1)
    obtain rest where rest: "md_history X cs st1 = (rest, st')" "paid = paid_by c @ rest"
      using 2(3) Inr by (auto simp: Let_def split: prod.splits)
    note one = md_exec_Inr [OF Inr] and more = 2(2) [OF Inr rest(1)]
    have "fst ` set (paid_by c) \<inter> fst ` set rest = {}" using one more by blast
    then have "distinct (map fst paid)" using one more by (simp add: rest(2))
    moreover have "\<forall>i \<in> fst ` set paid. \<not> isClaimed (fst st) i" using one more by (simp add: rest(2) image_Un) blast
    moreover have "\<forall>i. isClaimed (fst st') i \<longleftrightarrow> isClaimed (fst st) i \<or> i \<in> fst ` set paid"
      using one more by (simp add: rest(2) image_Un)
    ultimately show ?thesis using one more by simp
  qed
qed auto

text \<open>
  C24: No index is paid twice: in every history of calls the indices of the successful claims are
  pairwise different and were not claimed before; afterwards exactly they, and those claimed before,
  are marked, so every further claim of them reverts; token and root never change.
\<close>

theorem claims_pay_once:
  assumes "md_history X cs st = (paid, st')"
  shows "distinct (map fst paid) \<and> (\<forall>(i, a, n) \<in> set paid. \<not> isClaimed (fst st) i) \<and>
    (\<forall>i. isClaimed (fst st') i \<longleftrightarrow> isClaimed (fst st) i \<or> i \<in> fst ` set paid) \<and>
    (\<forall>(i, a, n) \<in> set paid. \<forall>a' n' pf x. md_claim X i a' n' pf (fst st', x) =
       Inl (Revert ''MerkleDistributor::claim: drop already claimed'')) \<and>
    md_merkleRoot (fst st') = md_merkleRoot (fst st) \<and> md_token (fst st') = md_token (fst st)"
proof -
  note f = md_history_facts [OF assms]
  have "isClaimed (fst st') i" if "(i, a, n) \<in> set paid" for i a n using f that by force
  then show ?thesis using f claimed_reverts by fastforce
qed

section \<open>The published claims\<close>

text \<open>
  The contract and the script compute the same things: the documented behaviour of \<open>MerkleProof.verify\<close>
  (hash the leaf with each element of the proof, the smaller first) and of \<open>solidityKeccak256\<close>.
\<close>

definition md_agrees :: "ethers \<Rightarrow> keccak \<Rightarrow> 'x md_ext \<Rightarrow> bool" where
  "md_agrees E K X \<longleftrightarrow>
     (\<forall>pf root n. merkle_verify X pf root n \<longleftrightarrow> foldl (hash2 K) n pf = root) \<and>
     (\<forall>i a n h. solidityKeccak256 E (int i) a (int n) = Inr h \<longrightarrow> leaf_hash X i a n = fromHex (drop 2 h))"

lemma verified_on_chain:
  assumes "md_agrees E K X"
    and "solidityKeccak256 E (int i) a (int n) = Inr h"
  shows "merkle_verify X pf root (leaf_hash X i a n) \<longleftrightarrow> verifyProof E K i a (int n) pf root = Inr True"
proof -
  have "toNode E i a (int n) = Inr (leaf_hash X i a n)"
    using assms by (auto simp: md_agrees_def toNode_Inr)
  from verifyProof_iff [OF this] show ?thesis using assms(1) by (simp add: md_agrees_def)
qed

text \<open>A published claim as the arguments of a call: index, account, amount and decoded proof.\<close>

type_synonym claim_args = "nat \<times> Solidity.address \<times> nat \<times> buffer list"

definition describes :: "ethers \<Rightarrow> string \<times> claim \<Rightarrow> claim_args \<Rightarrow> bool" where
  "describes E = (\<lambda>(account, c) (i, a, n, pf). a = account \<and> i = claim_index c \<and>
     claim_amount c = toHexString E (int n) \<and> pf = map (\<lambda>s. fromHex (drop 2 s)) (claim_proof c))"

fun claim_all :: "'x md_ext \<Rightarrow> claim_args list \<Rightarrow> 'x md_state \<Rightarrow> 'x md_state result" where
  "claim_all X [] st = Inr st"
| "claim_all X ((i, a, n, pf) # cs) st = bindE (md_claim X i a n pf st) (claim_all X cs)"

text \<open>
  What a claim relies on from the token: a transfer that the distributor at address \<open>self\<close> can
  afford returns true and costs it at most the amount.
\<close>

definition pays_out :: "'x md_ext \<Rightarrow> Solidity.address \<Rightarrow> Solidity.address \<Rightarrow> bool" where
  "pays_out X tok self \<longleftrightarrow> (\<forall>a n x. n \<le> md_balanceOf X tok self x \<longrightarrow>
     (\<exists>x'. md_transfer X tok a n x = Inr (True, x') \<and> md_balanceOf X tok self x \<le> md_balanceOf X tok self x' + n))"

definition total_of :: "claim_args list \<Rightarrow> nat" where
  "total_of cs = sum_list (map (\<lambda>(i, a, n, pf). n) cs)"

lemma total_of_simps [simp]: "total_of [] = 0" "total_of ((i, a, n, pf) # cs) = n + total_of cs"
  by (simp_all add: total_of_def)

lemma total_of_mset: "mset cs = mset ds \<Longrightarrow> total_of cs = total_of ds"
  unfolding total_of_def by (metis mset_map sum_mset_sum_list)

lemma claim_all_succeeds:
  assumes "\<forall>(i, a, n, pf) \<in> set cs. merkle_verify X pf (md_merkleRoot s) (leaf_hash X i a n) \<and> \<not> isClaimed s i"
    and "distinct (map fst cs)" and "pays_out X (md_token s) self"
    and "total_of cs \<le> md_balanceOf X (md_token s) self x"
  shows "\<exists>x'. claim_all X cs (s, x) = Inr (fold setClaimed (map fst cs) s, x')"
  using assms
proof (induction cs arbitrary: s x)
  case (Cons c cs)
  obtain i a n pf where c: "c = (i, a, n, pf)" by (cases c)
  have "n \<le> md_balanceOf X (md_token s) self x" using Cons.prems(4) by (simp add: c)
  then obtain x1 where x1: "md_transfer X (md_token s) a n x = Inr (True, x1)"
    "md_balanceOf X (md_token s) self x \<le> md_balanceOf X (md_token s) self x1 + n"
    using Cons.prems(3) unfolding pays_out_def by blast
  then have one: "md_claim X i a n pf (s, x) = Inr (setClaimed i s, x1)"
    using Cons.prems(1) by (simp add: c md_claim_Inr)
  have "\<exists>x'. claim_all X cs (setClaimed i s, x1) = Inr (fold setClaimed (map fst cs) (setClaimed i s), x')"
  proof (rule Cons.IH)
    show "\<forall>(i', a, n, pf) \<in> set cs. merkle_verify X pf (md_merkleRoot (setClaimed i s)) (leaf_hash X i' a n) \<and>
        \<not> isClaimed (setClaimed i s) i'"
      using Cons.prems(1,2) by (force simp: c claimed.marked_mark)
    show "total_of cs \<le> md_balanceOf X (md_token (setClaimed i s)) self x1"
      using Cons.prems(4) x1(2) by (simp add: c)
  qed (use Cons.prems in \<open>auto simp: c\<close>)
  then show ?case by (simp add: c one)
qed simp

lemma map_index_nth: "map (\<lambda>i. f (xs ! i)) [0 ..< length xs] = map f xs"
  by (rule nth_equalityI) simp_all

lemma int_sum_list: "int (sum_list ns) = sum_list (map int ns)"
  by (induction ns) simp_all

lemma published:
  assumes "parseBalanceMap E K bs = Inr info"
  obtains cs where "list_all2 (describes E) (claims info) cs" "map fst cs = [0 ..< length cs]"
    "\<forall>(i, a, n, pf) \<in> set cs. 0 < n \<and>
       verifyProof E K i a (int n) pf (fromHex (drop 2 (merkleRoot info))) = Inr True"
    "tokenTotal info = toHexString E (int (total_of cs))"
    "\<exists>t. mkBalanceTree E K (map (\<lambda>(i, a, n, pf). (a, int n)) cs) = Inr t \<and> merkleRoot info = getHexRoot t"
proof -
  from assms obtain memo tree where
      memo: "list_all2 (entry_ok E) (toNewFormat bs) memo" "distinct (map fst memo)"
    and tree: "mkBalanceTree E K (map (\<lambda>a. (a, amount (dataOf memo a))) (sortedAddresses memo)) = Inr tree"
    and root: "merkleRoot info = getHexRoot tree"
    and total: "tokenTotal info = toHexString E (sum_list (map (amount \<circ> snd) memo))"
    and len: "length (claims info) = length memo"
    and cl: "\<And>i. i < length memo \<Longrightarrow> \<exists>pf.
       balance_getProof E tree i (sortedAddresses memo ! i)
         (amount (dataOf memo (sortedAddresses memo ! i))) = Inr pf \<and>
       claims info ! i = claim_of E memo i pf"
    by (rule parseBalanceMap_Inr) blast
  define amt where "amt i = amount (dataOf memo (sortedAddresses memo ! i))" for i
  define arg where "arg i = (i, sortedAddresses memo ! i, nat (amt i),
    map (\<lambda>s. fromHex (drop 2 s)) (claim_proof (snd (claims info ! i))))" for i
  let ?cs = "map arg [0 ..< length memo]"
  have pos: "0 < amt i" if "i < length memo" for i
    using sortedAddresses_nth [OF memo(2) that] memo(1)
    by (auto simp: amt_def list_all2_conv_all_nth in_set_conv_nth entry_ok_def)
  have each: "describes E (claims info ! i) (arg i) \<and>
      verifyProof E K i (sortedAddresses memo ! i) (amt i)
        (map (\<lambda>s. fromHex (drop 2 s)) (claim_proof (snd (claims info ! i)))) (fromHex (drop 2 (merkleRoot info))) = Inr True"
    if i: "i < length memo" for i
  proof -
    from cl [OF i] obtain pf where pf: "balance_getProof E tree i (sortedAddresses memo ! i) (amt i) = Inr pf"
      "claims info ! i = claim_of E memo i pf" by (auto simp: amt_def)
    have "verifyProof E K i (sortedAddresses memo ! i) (amt i) (map (\<lambda>s. fromHex (drop 2 s)) pf)
        (fromHex (drop 2 (getHexRoot tree))) = Inr True"
      using balance_proof_verifies [OF tree, of i "sortedAddresses memo ! i" "amt i"] i pf(1)
      by (auto simp: amt_def)
    then show ?thesis
      using pos [OF i] by (simp add: describes_def arg_def pf(2) claim_of_def Let_def root amt_def)
  qed
  show ?thesis
  proof (rule that [of ?cs])
    show "list_all2 (describes E) (claims info) ?cs"
      using each by (simp add: list_all2_conv_all_nth len)
    show "map fst ?cs = [0 ..< length ?cs]" by (simp add: arg_def comp_def)
    show "\<forall>(i, a, n, pf) \<in> set ?cs. 0 < n \<and>
       verifyProof E K i a (int n) pf (fromHex (drop 2 (merkleRoot info))) = Inr True"
      using each pos less_imp_le [OF pos] by (auto simp: arg_def)
    have "map int (map (\<lambda>(i, a, n, pf). n) ?cs) = map amt [0 ..< length memo]"
      by (simp add: arg_def) (use less_imp_le [OF pos] in auto)
    then have "int (total_of ?cs) = sum_list (map amt [0 ..< length memo])"
      by (simp only: total_of_def int_sum_list)
    also have "\<dots> = sum_list (map (\<lambda>a. amount (dataOf memo a)) (sortedAddresses memo))"
      using map_index_nth [of "\<lambda>a. amount (dataOf memo a)" "sortedAddresses memo"]
      by (simp add: amt_def [abs_def])
    also have "\<dots> = sum_list (map (amount \<circ> snd) memo)" using sum_over_keys [OF memo(2)] by simp
    finally show "tokenTotal info = toHexString E (int (total_of ?cs))" by (simp only: total)
    have "map (\<lambda>(i, a, n, pf). (a, int n)) ?cs = map (\<lambda>a. (a, amount (dataOf memo a))) (sortedAddresses memo)"
      using less_imp_le [OF pos] by (intro nth_equalityI) (auto simp: arg_def amt_def)
    then show "\<exists>t. mkBalanceTree E K (map (\<lambda>(i, a, n, pf). (a, int n)) ?cs) = Inr t \<and> merkleRoot info = getHexRoot t"
      using tree root by simp
  qed
qed

text \<open>
  C4: Every published claim is paid: when \<open>parseBalanceMap\<close> returns a distribution and the contract
  is deployed with its root and holds its total, then all published claims succeed, in whatever order
  they are made, and afterwards exactly the published indices are claimed.
\<close>

theorem published_claims_succeed:
  assumes run: "parseBalanceMap E K bs = Inr info" and agree: "md_agrees E K X"
    and pays: "pays_out X tok self"
  shows "\<exists>cs. list_all2 (describes E) (claims info) cs \<and> tokenTotal info = toHexString E (int (total_of cs)) \<and>
    (\<forall>ds x. mset ds = mset cs \<and> total_of cs \<le> md_balanceOf X tok self x \<longrightarrow>
      (\<exists>s' x'. claim_all X ds (md_constructor tok (fromHex (drop 2 (merkleRoot info))), x) = Inr (s', x') \<and>
        (\<forall>i. isClaimed s' i \<longleftrightarrow> i < length (claims info))))"
proof -
  let ?s = "md_constructor tok (fromHex (drop 2 (merkleRoot info)))"
  obtain cs where cs: "list_all2 (describes E) (claims info) cs" "map fst cs = [0 ..< length cs]"
    "\<forall>(i, a, n, pf) \<in> set cs. 0 < n \<and>
       verifyProof E K i a (int n) pf (fromHex (drop 2 (merkleRoot info))) = Inr True"
    "tokenTotal info = toHexString E (int (total_of cs))"
    by (rule published [OF run])
  have fresh: "\<not> isClaimed ?s i" for i by (simp add: isClaimed_bit md_constructor_def)
  have ok: "merkle_verify X pf (md_merkleRoot ?s) (leaf_hash X i a n)" if "(i, a, n, pf) \<in> set cs" for i a n pf
  proof -
    have v: "verifyProof E K i a (int n) pf (md_merkleRoot ?s) = Inr True"
      using cs(3) that by (auto simp: md_constructor_def)
    then obtain h where "solidityKeccak256 E (int i) a (int n) = Inr h"
      by (auto simp: verifyProof_def toNode_Inr)
    with v show ?thesis by (simp add: verified_on_chain [OF agree])
  qed
  have "\<exists>s' x'. claim_all X ds (?s, x) = Inr (s', x') \<and> (\<forall>i. isClaimed s' i \<longleftrightarrow> i < length (claims info))"
    if ds: "mset ds = mset cs" "total_of cs \<le> md_balanceOf X tok self x" for ds x
  proof -
    have set: "set ds = set cs" using ds(1) by (rule mset_eq_setD)
    have "distinct (map fst cs)" by (simp add: cs(2))
    then have dist: "distinct (map fst ds)" using ds(1) by (metis mset_map mset_eq_imp_distinct_iff)
    have "fst ` set ds = {0 ..< length cs}" using cs(2) by (metis set set_map set_upt)
    then have marked: "isClaimed (fold setClaimed (map fst ds) ?s) i \<longleftrightarrow> i < length (claims info)" for i
      using fresh list_all2_lengthD [OF cs(1)] by (simp add: claimed.marked_fold)
    have "\<exists>x'. claim_all X ds (?s, x) = Inr (fold setClaimed (map fst ds) ?s, x')"
    proof (rule claim_all_succeeds [OF _ dist])
      show "\<forall>(i, a, n, pf) \<in> set ds. merkle_verify X pf (md_merkleRoot ?s) (leaf_hash X i a n) \<and> \<not> isClaimed ?s i"
        using ok fresh set by auto
      show "pays_out X (md_token ?s) self" "total_of ds \<le> md_balanceOf X (md_token ?s) self x"
        using pays ds total_of_mset [OF ds(1)] by (simp_all add: md_constructor_def)
    qed
    then show ?thesis using marked by blast
  qed
  with cs show ?thesis by blast
qed

text \<open>A small distributor: the world is its balance.\<close>

definition sample_md_ext :: "nat md_ext" where
  "sample_md_ext =
     \<lparr>md_onlyOwner = (\<lambda>a _. a = ''owner''), leaf_hash = (\<lambda>i a n. sample_hash (sample_pack (int i) a (int n))),
      merkle_verify = (\<lambda>pf root n. foldl (hash2 sample_hash) n pf = root),
      md_transfer = (\<lambda>_ _ n x. if n \<le> x then Inr (True, x - n) else Inl (Revert ''ERC20: transfer amount exceeds balance'')),
      md_safeTransfer = (\<lambda>_ _ n x. if n \<le> x then Inr (x - n) else Inl (Revert ''ERC20: transfer amount exceeds balance'')),
      md_safeTransferFrom = (\<lambda>_ _ _ n x. Inr (x + n)), md_balanceOf = (\<lambda>_ _ x. x)\<rparr>"

lemma sample_md_agrees: "md_agrees sample_ethers sample_hash sample_md_ext"
  by (auto simp: md_agrees_def sample_md_ext_def sample_ethers_def split: if_splits)

lemma sample_pays_out: "pays_out sample_md_ext tok self"
  by (simp add: pays_out_def sample_md_ext_def)

theorem published_claims_succeed_witness:
  "\<exists>cs. list_all2 (describes sample_ethers) (claims sample_info) cs \<and>
    (\<exists>s' x'. claim_all sample_md_ext (rev cs)
        (md_constructor ''T'' (fromHex (drop 2 (merkleRoot sample_info))), total_of cs) = Inr (s', x') \<and>
      (\<forall>i. isClaimed s' i \<longleftrightarrow> i < length (claims sample_info)))"
proof -
  obtain cs where cs: "list_all2 (describes sample_ethers) (claims sample_info) cs"
    "\<forall>ds x. mset ds = mset cs \<and> total_of cs \<le> md_balanceOf sample_md_ext ''T'' ''D'' x \<longrightarrow>
      (\<exists>s' x'. claim_all sample_md_ext ds (md_constructor ''T'' (fromHex (drop 2 (merkleRoot sample_info))), x) = Inr (s', x') \<and>
        (\<forall>i. isClaimed s' i \<longleftrightarrow> i < length (claims sample_info)))"
    using published_claims_succeed [OF sample_runs sample_md_agrees sample_pays_out [of "''T''" "''D''"]] by blast
  have "total_of cs \<le> md_balanceOf sample_md_ext ''T'' ''D'' (total_of cs)" by (simp add: sample_md_ext_def)
  then show ?thesis using cs by fastforce
qed

theorem claims_pay_once_witness:
  "fst (md_history sample_md_ext
     [(\<lparr>sender = ''u'', block_number = 1, block_timestamp = 1, this = ''D''\<rparr>, Claim 0 ''A'' 5 []),
      (\<lparr>sender = ''u'', block_number = 1, block_timestamp = 1, this = ''D''\<rparr>, Claim 0 ''A'' 5 [])]
     (md_constructor ''T'' (sample_hash (sample_pack 0 ''A'' 5)), 20)) = [(0, ''A'', 5)]"
  (is "fst ?h = _")
proof -
  obtain paid st' where h: "?h = (paid, st')" by (cases ?h)
  have first: "md_claim sample_md_ext 0 ''A'' 5 [] (md_constructor ''T'' (sample_hash (sample_pack 0 ''A'' 5)), 20) =
      Inr (setClaimed 0 (md_constructor ''T'' (sample_hash (sample_pack 0 ''A'' 5))), 15)"
    by (simp add: md_claim_Inr sample_md_ext_def isClaimed_bit md_constructor_def)
  have "set paid \<subseteq> {(0, ''A'', 5)}" "paid \<noteq> []"
    using h first by (auto simp: Let_def split: sum.splits prod.splits)
  moreover have "distinct (map fst paid)" using claims_pay_once [OF h] by simp
  ultimately have "paid = [(0, ''A'', 5)]" by (cases paid) (auto simp: neq_Nil_conv subset_singleton_iff)
  then show ?thesis unfolding h by simp
qed

section \<open>Only published claims are paid\<close>

lemma history_verified:
  "md_history X cs st = (paid, st') \<Longrightarrow> (i, a, n) \<in> set paid \<Longrightarrow>
   \<exists>m pf. (m, Claim i a n pf) \<in> set cs \<and> merkle_verify X pf (md_merkleRoot (fst st)) (leaf_hash X i a n)"
proof (induction X cs st arbitrary: paid st' rule: md_history.induct)
  case (2 X m c cs st)
  show ?case
  proof (cases "md_exec X m c st")
    case (Inl e)
    with 2 show ?thesis by fastforce
  next
    case (Inr st1)
    obtain rest where rest: "md_history X cs st1 = (rest, st')" "paid = paid_by c @ rest"
      using 2(3) Inr by (auto simp: Let_def split: prod.splits)
    show ?thesis
    proof (cases "(i, a, n) \<in> set rest")
      case True
      from 2(2) [OF Inr rest(1) True] md_exec_Inr [OF Inr] show ?thesis by auto
    next
      case False
      then have "(i, a, n) \<in> set (paid_by c)" using 2(4) rest(2) by auto
      then show ?thesis using Inr by (cases c; cases st; cases st1) (auto simp: md_claim_Inr)
    qed
  qed
qed simp

text \<open>Every byte string hashed for the tree over \<open>cs\<close> or to check the claims among the calls.\<close>

definition hashed_strings ::
  "keccak \<Rightarrow> (int \<Rightarrow> string \<Rightarrow> int \<Rightarrow> buffer) \<Rightarrow> claim_args list \<Rightarrow> merkle_tree \<Rightarrow> (msg \<times> md_call) list \<Rightarrow> buffer set"
  where
  "hashed_strings K pack cs t calls =
     set (leaf_inputs pack (map (\<lambda>(i, a, n, pf). (a, int n)) cs)) \<union> set (tree_inputs K (elements t)) \<union>
     (\<Union>(m, c) \<in> set calls. case c of
        Claim i a n pf \<Rightarrow> insert (pack (int i) a (int n)) (set (fold_inputs K (K (pack (int i) a (int n))) pf))
      | _ \<Rightarrow> {})"

text \<open>Calls as the ABI decodes them: the arguments of a claim can be packed, its proof is \<open>bytes32[]\<close>.\<close>

definition call_ok :: "ethers \<Rightarrow> md_call \<Rightarrow> bool" where
  "call_ok E c \<longleftrightarrow> (\<forall>i a n pf. c = Claim i a n pf \<longrightarrow>
     (\<exists>h. solidityKeccak256 E (int i) a (int n) = Inr h) \<and> (\<forall>q \<in> set pf. length q = 32))"

lemma sum_distinct_indices:
  fixes f :: "nat \<Rightarrow> nat"
  assumes "distinct (map fst xs)" and "\<forall>(i, b, n) \<in> set xs. i < k \<and> f i = n"
  shows "(\<Sum>(i, b, n) \<leftarrow> xs. n) \<le> sum_list (map f [0 ..< k])"
proof -
  have "(\<Sum>(i, b, n) \<leftarrow> xs. n) = sum_list (map f (map fst xs))"
    using assms(2) by (induction xs) auto
  also have "\<dots> = sum f (set (map fst xs))" by (rule sum_list_distinct_conv_sum_set [OF assms(1)])
  also have "\<dots> \<le> sum f {0 ..< k}" by (rule sum_mono2) (use assms(2) in auto)
  also have "\<dots> = sum_list (map f [0 ..< k])" by (simp add: sum_list_distinct_conv_sum_set)
  finally show ?thesis .
qed

lemma total_of_nth: "total_of cs = sum_list (map (\<lambda>i. case cs ! i of (j, a, n, pf) \<Rightarrow> n) [0 ..< length cs])"
  unfolding total_of_def using map_index_nth [of "\<lambda>(j, a, n, pf). n" cs] by simp

text \<open>
  C11: Only published claims are paid: a contract deployed with the root of a distribution pays, in
  every history of calls, only claims whose index, amount and account are those of a published
  claim, and so never more than the published total, unless two of the byte strings hashed by the
  tree and by the checks collide.  The token makes no calls back.  The hypotheses on hashing are those of the soundness of
  \<open>verifyProof\<close>.
\<close>

theorem payouts_published:
  assumes run: "parseBalanceMap E K bs = Inr info" and agree: "md_agrees E K X"
    and packed: "\<And>i a m h. solidityKeccak256 E i a m = Inr h \<Longrightarrow>
      fromHex (drop 2 h) = K (pack i a m) \<and> length (pack i a m) = 84"
    and pack_inj: "\<And>i a m h j b k h'. solidityKeccak256 E i a m = Inr h \<Longrightarrow>
      solidityKeccak256 E j b k = Inr h' \<Longrightarrow> pack i a m = pack j b k \<Longrightarrow>
      i = j \<and> getAddress E a = getAddress E b \<and> m = k"
    and hash32: "\<And>u. length (K u) = 32"
    and history: "md_history X calls (md_constructor tok (fromHex (drop 2 (merkleRoot info))), x) = (paid, st')"
    and calls: "\<forall>(m, c) \<in> set calls. call_ok E c"
  shows "\<exists>cs t. list_all2 (describes E) (claims info) cs \<and> tokenTotal info = toHexString E (int (total_of cs)) \<and>
    mkBalanceTree E K (map (\<lambda>(i, a, n, pf). (a, int n)) cs) = Inr t \<and>
    (inj_on K (hashed_strings K pack cs t calls) \<longrightarrow>
      (\<forall>(i, a, n) \<in> set paid. i < length cs \<and>
         (case cs ! i of (j, b, k, pf) \<Rightarrow> j = i \<and> getAddress E b = getAddress E a \<and> k = n)) \<and>
      (\<Sum>(i, a, n) \<leftarrow> paid. n) \<le> total_of cs)"
proof -
  obtain cs t where cs: "list_all2 (describes E) (claims info) cs" "map fst cs = [0 ..< length cs]"
    "tokenTotal info = toHexString E (int (total_of cs))"
    and t: "mkBalanceTree E K (map (\<lambda>(i, a, n, pf). (a, int n)) cs) = Inr t" "merkleRoot info = getHexRoot t"
    by (rule published [OF run]) blast
  let ?bs = "map (\<lambda>(i, a, n, pf). (a, int n)) cs"
  have entry: "i < length cs \<and> (case cs ! i of (j, b, k, pf) \<Rightarrow> j = i \<and> getAddress E b = getAddress E a \<and> k = n)"
    if inj: "inj_on K (hashed_strings K pack cs t calls)" and paid: "(i, a, n) \<in> set paid" for i a n
  proof -
    obtain m pf where c: "(m, Claim i a n pf) \<in> set calls"
      and v: "merkle_verify X pf (getRoot t) (leaf_hash X i a n)"
      using history_verified [OF history paid] by (auto simp: md_constructor_def t(2) getHexRoot_def)
    from calls c have ok: "call_ok E (Claim i a n pf)" by auto
    then obtain h where h: "solidityKeccak256 E (int i) a (int n) = Inr h" and pf: "\<forall>q \<in> set pf. length q = 32"
      by (auto simp: call_ok_def)
    have sub: "inj_on K (set (leaf_inputs pack ?bs) \<union> set (tree_inputs K (elements t)) \<union>
        set (fold_inputs K (K (pack (int i) a (int n))) pf) \<union> {pack (int i) a (int n)})"
      by (rule inj_on_subset [OF inj]) (use c in \<open>auto simp: hashed_strings_def intro!: bexI [of _ "(m, Claim i a n pf)"]\<close>)
    have w: "verifyProof E K i a (int n) pf (getRoot t) = Inr True"
      using v by (simp add: verified_on_chain [OF agree h])
    have "i < length ?bs \<and> getAddress E (fst (?bs ! i)) = getAddress E a \<and> snd (?bs ! i) = int n"
      using packed pack_inj hash32 pf sub w by (rule accepted_is_entry [OF t(1)])
    then have e: "i < length cs" "getAddress E (fst (?bs ! i)) = getAddress E a" "snd (?bs ! i) = int n" by auto
    have "fst (cs ! i) = i" using arg_cong [OF cs(2), of "\<lambda>xs. xs ! i"] e(1) by simp
    then show ?thesis using e by (auto split: prod.splits)
  qed
  have "(\<Sum>(i, a, n) \<leftarrow> paid. n) \<le> total_of cs" if "inj_on K (hashed_strings K pack cs t calls)"
    unfolding total_of_nth
  proof (rule sum_distinct_indices)
    show "distinct (map fst paid)" using md_history_facts [OF history] by simp
    show "\<forall>(i, a, n) \<in> set paid. i < length cs \<and> (case cs ! i of (j, b, k, pf) \<Rightarrow> k) = n"
      by (auto dest!: entry [OF that] split: prod.splits)
  qed
  moreover have "\<forall>(i, a, n) \<in> set paid. i < length cs \<and>
      (case cs ! i of (j, b, k, pf) \<Rightarrow> j = i \<and> getAddress E b = getAddress E a \<and> k = n)"
    if "inj_on K (hashed_strings K pack cs t calls)"
  proof (intro ballI)
    fix z assume z: "z \<in> set paid"
    obtain i a n where ian: "z = (i, a, n)" by (rule prod_cases3)
    show "case z of (i, a, n) \<Rightarrow> i < length cs \<and>
        (case cs ! i of (j, b, k, pf) \<Rightarrow> j = i \<and> getAddress E b = getAddress E a \<and> k = n)"
      using entry [OF that z [unfolded ian]] by (simp add: ian)
  qed
  ultimately show ?thesis using cs(1,3) t(1) by (intro exI [of _ cs] exI [of _ t] conjI impI)
qed

text \<open>
  The distribution of \<open>sample_info\<close>, 5 to \<open>A\<close> and 7 to \<open>B\<close>: a claim of \<open>A\<close> is paid, a second one and a claim
  of \<open>B\<close> with the proof of \<open>A\<close> are not, and the strings that are hashed do not collide.
\<close>

definition sample_leaves :: "buffer list" where
  "sample_leaves = [sample_hash (sample_pack 0 ''A'' 5), sample_hash (sample_pack 1 ''B'' 7)]"

definition sample_user :: msg where
  "sample_user = \<lparr>sender = ''u'', block_number = 1, block_timestamp = 1, this = ''D''\<rparr>"

definition sample_calls :: "(msg \<times> md_call) list" where
  "sample_calls = [(sample_user, Claim 0 ''A'' 5 [sample_leaves ! 1]), (sample_user, Claim 0 ''A'' 5 [sample_leaves ! 1]),
     (sample_user, Claim 1 ''B'' 7 [sample_leaves ! 1])]"

lemma sample_calls_ok: "\<forall>(m, c) \<in> set sample_calls. call_ok sample_ethers c"
  by (simp add: sample_calls_def call_ok_def sample_ethers_def sample_leaves_def length_sample_hash)

lemma sample_paid:
  "\<exists>s. md_history sample_md_ext sample_calls (md_constructor ''T'' (fromHex (drop 2 (merkleRoot sample_info))), 12) =
     ([(0, ''A'', 5)], s, 7)"
proof -
  let ?s = "md_constructor ''T'' (fromHex (drop 2 (merkleRoot sample_info)))"
  have "foldl (hash2 sample_hash) (sample_leaves ! 0) [sample_leaves ! 1] = fromHex (drop 2 (merkleRoot sample_info))"
      "foldl (hash2 sample_hash) (sample_leaves ! 1) [sample_leaves ! 1] \<noteq> fromHex (drop 2 (merkleRoot sample_info))"
    by code_simp+
  then have proofs: "merkle_verify sample_md_ext [sample_leaves ! 1] (md_merkleRoot ?s) (leaf_hash sample_md_ext 0 ''A'' 5)"
      "\<not> merkle_verify sample_md_ext [sample_leaves ! 1] (md_merkleRoot ?s) (leaf_hash sample_md_ext 1 ''B'' 7)"
    by (simp_all add: sample_md_ext_def md_constructor_def sample_leaves_def)
  have one: "md_claim sample_md_ext 0 ''A'' 5 [sample_leaves ! 1] (?s, 12) = Inr (setClaimed 0 ?s, 7)"
    using proofs(1) by (simp add: md_claim_Inr isClaimed_bit md_constructor_def) (simp add: sample_md_ext_def)
  have two: "md_claim sample_md_ext 0 ''A'' 5 [sample_leaves ! 1] (setClaimed 0 ?s, 7) =
      Inl (Revert ''MerkleDistributor::claim: drop already claimed'')"
    by (rule claimed_reverts) (rule claimed.mark_marked)
  have "md_claim sample_md_ext 1 ''B'' 7 [sample_leaves ! 1] (setClaimed 0 ?s, 7) \<noteq> Inr (s', x')" for s' x'
    using proofs(2) by (simp add: md_claim_Inr)
  then have three: "\<exists>e. md_claim sample_md_ext 1 ''B'' 7 [sample_leaves ! 1] (setClaimed 0 ?s, 7) = Inl e"
    by (cases "md_claim sample_md_ext 1 ''B'' 7 [sample_leaves ! 1] (setClaimed 0 ?s, 7)") auto
  show ?thesis using one two three by (auto simp: sample_calls_def)
qed

text \<open>What describes the claims of \<open>sample_info\<close> is determined by them.\<close>

lemma sample_described:
  assumes "list_all2 (describes sample_ethers) (claims sample_info) cs"
    and "mkBalanceTree sample_ethers sample_hash (map (\<lambda>(i, a, n, pf). (a, int n)) cs) = Inr t"
  shows "cs = [(0, ''A'', 5, [sample_leaves ! 1]), (1, ''B'', 7, [sample_leaves ! 0])]"
proof -
  have "map (\<lambda>(a, c). (a, claim_index c, claim_amount c, map (\<lambda>s. fromHex (drop 2 s)) (claim_proof c))) (claims sample_info) =
      [(''A'', 0, ''0x05'', [sample_leaves ! 1]), (''B'', 1, ''0x07'', [sample_leaves ! 0])]"
    by code_simp
  then obtain c d where c: "claims sample_info = [(''A'', c), (''B'', d)]"
      "claim_index c = 0" "claim_amount c = ''0x05''" "map (\<lambda>s. fromHex (drop 2 s)) (claim_proof c) = [sample_leaves ! 1]"
      "claim_index d = 1" "claim_amount d = ''0x07''" "map (\<lambda>s. fromHex (drop 2 s)) (claim_proof d) = [sample_leaves ! 0]"
    by (auto simp: map_eq_Cons_conv)
  with assms(1) obtain n k where cs: "cs = [(0, ''A'', n, [sample_leaves ! 1]), (1, ''B'', k, [sample_leaves ! 0])]"
    and texts: "toHexString sample_ethers (int n) = ''0x05''" "toHexString sample_ethers (int k) = ''0x07''"
    by (auto simp: list_all2_Cons1 describes_def)
  from assms(2) obtain ns where nodes: "\<forall>i < 2. toNode sample_ethers i (fst ([(''A'', int n), (''B'', int k)] ! i))
      (snd ([(''A'', int n), (''B'', int k)] ! i)) = Inr (ns ! i)"
    by (auto simp: cs mkBalanceTree_Inr numeral_2_eq_2)
  have "n < 256" "k < 256"
    using nodes [rule_format, of 0] nodes [rule_format, of 1]
    by (auto simp: toNode_Inr sample_ethers_def split: if_splits)
  moreover have "list_all (\<lambda>n. toHexString sample_ethers (int n) = ''0x05'' \<longrightarrow> n = 5) [0 ..< 256]"
      "list_all (\<lambda>n. toHexString sample_ethers (int n) = ''0x07'' \<longrightarrow> n = 7) [0 ..< 256]"
    by code_simp+
  ultimately have "n = 5" "k = 7" using texts by (auto simp: list_all_iff)
  then show ?thesis by (simp add: cs)
qed

lemma sample_no_collision:
  assumes "mkBalanceTree sample_ethers sample_hash [(''A'', 5), (''B'', 7)] = Inr t"
  shows "inj_on sample_hash (hashed_strings sample_hash sample_pack
     [(0, ''A'', 5, [sample_leaves ! 1]), (1, ''B'', 7, [sample_leaves ! 0])] t sample_calls)"
proof -
  have "case mkBalanceTree sample_ethers sample_hash [(''A'', 5), (''B'', 7)] of Inl _ \<Rightarrow> False
    | Inr t \<Rightarrow> elements t = sample_leaves" by code_simp
  then have t: "elements t = sample_leaves" by (simp add: assms)
  let ?I = "remdups (leaf_inputs sample_pack [(''A'', 5), (''B'', 7)] @ tree_inputs sample_hash sample_leaves @
    sample_pack 0 ''A'' 5 # fold_inputs sample_hash (sample_hash (sample_pack 0 ''A'' 5)) [sample_leaves ! 1] @
    sample_pack 1 ''B'' 7 # fold_inputs sample_hash (sample_hash (sample_pack 1 ''B'' 7)) [sample_leaves ! 1])"
  have "distinct (map sample_hash ?I)" by code_simp
  then have "inj_on sample_hash (set ?I)" by (simp only: distinct_map)
  then show ?thesis
    by (rule inj_on_subset) (auto simp: hashed_strings_def t sample_calls_def simp del: tree_inputs.simps fold_inputs.simps)
qed

theorem payouts_published_witness:
  "\<exists>cs t paid s. list_all2 (describes sample_ethers) (claims sample_info) cs \<and>
     mkBalanceTree sample_ethers sample_hash (map (\<lambda>(i, a, n, pf). (a, int n)) cs) = Inr t \<and>
     inj_on sample_hash (hashed_strings sample_hash sample_pack cs t sample_calls) \<and>
     md_history sample_md_ext sample_calls (md_constructor ''T'' (fromHex (drop 2 (merkleRoot sample_info))), 12) =
       (paid, s, 7) \<and> paid = [(0, ''A'', 5)] \<and> fst (cs ! 0) = 0 \<and> (\<Sum>(i, a, n) \<leftarrow> paid. n) \<le> total_of cs \<and> total_of cs = 12"
proof -
  obtain s where h: "md_history sample_md_ext sample_calls
      (md_constructor ''T'' (fromHex (drop 2 (merkleRoot sample_info))), 12) = ([(0, ''A'', 5)], s, 7)"
    using sample_paid by blast
  have all: "\<exists>cs t. list_all2 (describes sample_ethers) (claims sample_info) cs \<and>
    tokenTotal sample_info = toHexString sample_ethers (int (total_of cs)) \<and>
    mkBalanceTree sample_ethers sample_hash (map (\<lambda>(i, a, n, pf). (a, int n)) cs) = Inr t \<and>
    (inj_on sample_hash (hashed_strings sample_hash sample_pack cs t sample_calls) \<longrightarrow>
      (\<forall>(i, a, n) \<in> set [(0, ''A'', 5)]. i < length cs \<and>
         (case cs ! i of (j, b, k, pf) \<Rightarrow> j = i \<and> getAddress sample_ethers b = getAddress sample_ethers a \<and> k = n)) \<and>
      (\<Sum>(i, a, n) \<leftarrow> [(0 :: nat, ''A'', 5)]. n) \<le> total_of cs)"
    by (rule payouts_published [OF sample_runs sample_md_agrees sample_ethers_packs sample_ethers_determine
        length_sample_hash h sample_calls_ok])
  from all obtain cs t where cs: "list_all2 (describes sample_ethers) (claims sample_info) cs"
    and t: "mkBalanceTree sample_ethers sample_hash (map (\<lambda>(i, a, n, pf). (a, int n)) cs) = Inr t"
    and safe: "inj_on sample_hash (hashed_strings sample_hash sample_pack cs t sample_calls) \<longrightarrow>
      (\<forall>(i, a, n) \<in> set [(0, ''A'', 5)]. i < length cs \<and>
         (case cs ! i of (j, b, k, pf) \<Rightarrow> j = i \<and> getAddress sample_ethers b = getAddress sample_ethers a \<and> k = n)) \<and>
      (\<Sum>(i, a, n) \<leftarrow> [(0 :: nat, ''A'', 5)]. n) \<le> total_of cs" by (elim exE conjE)
  note eq = sample_described [OF cs t]
  have inj: "inj_on sample_hash (hashed_strings sample_hash sample_pack cs t sample_calls)"
    unfolding eq by (rule sample_no_collision) (use t in \<open>simp add: eq\<close>)
  show ?thesis
    by (rule exI [of _ cs], rule exI [of _ t], rule exI [of _ "[(0, ''A'', 5)]"], rule exI [of _ s])
      (use cs t inj h safe in \<open>simp add: eq\<close>)
qed

end
