(* ===== verification/Runtime.thy ===== *)
theory Runtime
  imports Prelude
begin

text \<open>
  The runtime of the deployment scripts (\<open>deploy/scripts\<close>, \<open>deploy/setup\<close>, \<open>validate\<close>).  A script is
  a function on an explicit state: the two configuration objects it imports from
  \<open>deploy/results\<close>, the outside world, and the record of everything it asked of that world.
  hardhat, hardhat-deploy, ethers and the OpenZeppelin upgrades plugin are the parameter \<open>hre\<close>:
  they answer a request and change a world of any type \<open>'w\<close>, or throw.  Nothing is assumed of them
  here; a property that needs their behaviour states it as a hypothesis.
\<close>

named_theorems script_simps \<open>equations that run a script\<close>

section \<open>JavaScript values\<close>

text \<open>
  \<open>Big\<close> is a \<open>BigNumber\<close> of ethers; addresses and numeric strings are strings.
\<close>

datatype val = Str string | Num int | Big int | Bool bool | Undef
  | Arr "val list" | Obj "(string \<times> val) list"

text \<open>Two values are the same argument of a call when they have the same canonical form: the ABI encoder reads numbers and decimal texts alike.\<close>

fun canon :: "val \<Rightarrow> val" where
  "canon (Str t) = (case decimal t of Some n \<Rightarrow> Num (int n) | None \<Rightarrow> Str t)"
| "canon (Big n) = Num n"
| "canon (Arr vs) = Arr (map canon vs)"
| "canon (Obj fs) = Obj (map (\<lambda>(k, v). (k, canon v)) fs)"
| "canon v = v"

text \<open>The number a numeric value stands for.\<close>

definition numeric :: "val \<Rightarrow> nat" where
  "numeric v = (case canon v of Num n \<Rightarrow> nat n | _ \<Rightarrow> 0)"

section \<open>The configuration files\<close>

record pool_entry =
  pool_id :: int
  stakingToken :: string
  pool_address :: string

record worker_entry =
  worker_name :: string
  worker_address :: string
  worker_config :: string
  worker_pId :: int

record vault_entry =
  vault_name :: string
  vault_symbol :: string
  vault_address :: string
  vault_baseToken :: val
  vault_debtToken :: string
  vault_config :: string
  vault_tripleSlopeModel :: string
  vault_StrategyAddTwoSidesOptimal :: string
  vault_workers :: "worker_entry list"

record lp_token =
  lp_pId :: int
  lp_name :: string
  lp_address :: string

record config =
  AdminAddress :: string
  NativeAddress :: string
  FeederAddress :: string
  ProxyAdmin :: string
  Timelock :: string
  FairLaunch_address :: string
  FairLaunch_pools :: "pool_entry list"
  MasterChef :: string
  RouterV2 :: string
  LpTokens :: "lp_token list"
  Tokens :: "string \<rightharpoonup> string"
  StrategyAddBaseTokenOnly :: string
  StrategyLiquidate :: string
  StrategyWithdrawMinimizeTrading :: string
  StrategyPartialCloseLiquidate :: string
  StrategyPartialCloseMinimizeTrading :: string
  TripleSlopeModel :: string
  LowInterestTripleSlopeModel :: string
  HighInterestTripleSlopeModel :: string
  WNativeRelayer :: string
  WorkerConfig :: string
  SimpleOracle :: string
  Vaults :: "vault_entry list"

text \<open>\<open>config.Tokens.NAME\<close>: \<open>undefined\<close> for a name the object does not have.\<close>

definition token :: "config \<Rightarrow> string \<Rightarrow> val" where
  "token c name = (case Tokens c name of Some a \<Rightarrow> Str a | None \<Rightarrow> Undef)"

section \<open>Requests to the outside world\<close>

text \<open>
  \<open>Deploy\<close> and \<open>GetDeployment\<close> are hardhat-deploy's \<open>deploy(name, {args})\<close> and \<open>get(name)\<close>;
  \<open>DeployProxy name args b\<close> is \<open>getContractFactory\<close>, \<open>upgrades.deployProxy\<close> and \<open>deployed()\<close>, where
  \<open>b\<close> says that \<open>unsafeAllow: ['delegatecall']\<close> is given; \<open>DeployContract\<close> the same with the
  factory's \<open>deploy\<close>; \<open>Send\<close> and \<open>View\<close> are a transaction and a read of the contract at an address,
  with the overrides object; \<open>WriteFile\<close> is \<open>FileService.write\<close>.
\<close>

datatype request =
    Deploy string "val list"
  | GetDeployment string
  | GetFactory string
  | DeployProxy string "val list" bool
  | DeployContract string "val list"
  | UpgradeProxy string string
  | PrepareUpgrade string string
  | Send string string "val list" "(string \<times> val) list"
  | View string string "val list"
  | Sleep nat
  | WriteFile string config

text \<open>
  A printed command \<open>await timelock.executeTransaction(target, value, signature,
  defaultAbiCoder.encode(types, args), eta)\<close>: the call its text denotes.
\<close>

record exec_command =
  exec_target :: string
  exec_value :: val
  exec_signature :: string
  exec_types :: "string list"
  exec_args :: "val list"
  exec_eta :: val

record 'w hre =
  network_name :: string
  deployer :: string
  signer0 :: string
  perform :: "request \<Rightarrow> 'w \<Rightarrow> val result \<times> 'w"
  parseEther :: "string \<Rightarrow> val result"
  abi_encode :: "string list \<Rightarrow> val list \<Rightarrow> val result"

record 'w js =
  world :: 'w
  MainnetConfig :: config
  TestnetConfig :: config
  trace :: "(request \<times> val result) list"
  printed :: "exec_command list"

type_synonym ('w, 'a) script = "'w hre \<Rightarrow> 'w js \<Rightarrow> 'a result \<times> 'w js"

section \<open>Scripts\<close>

definition retS :: "'a \<Rightarrow> ('w, 'a) script" where
  "retS x = (\<lambda>H s. (Inr x, s))"

definition throwS :: "string \<Rightarrow> ('w, 'a) script" where
  "throwS msg = (\<lambda>H s. (Inl (Throw msg), s))"

definition bindS :: "('w, 'a) script \<Rightarrow> ('a \<Rightarrow> ('w, 'b) script) \<Rightarrow> ('w, 'b) script" where
  "bindS m f = (\<lambda>H s. case m H s of (Inl e, s') \<Rightarrow> (Inl e, s') | (Inr x, s') \<Rightarrow> f x H s')"

definition thenS :: "('w, 'a) script \<Rightarrow> ('w, 'b) script \<Rightarrow> ('w, 'b) script" where
  "thenS m k = bindS m (\<lambda>_. k)"

primrec forS :: "('x \<Rightarrow> ('w, unit) script) \<Rightarrow> 'x list \<Rightarrow> ('w, unit) script" where
  "forS f [] = retS ()"
| "forS f (x # xs) = thenS (f x) (forS f xs)"

definition hreS :: "('w hre \<Rightarrow> 'a) \<Rightarrow> ('w, 'a) script" where
  "hreS f = (\<lambda>H s. (Inr (f H), s))"

definition resultS :: "('w hre \<Rightarrow> 'a result) \<Rightarrow> ('w, 'a) script" where
  "resultS f = (\<lambda>H s. (f H, s))"

definition ask :: "request \<Rightarrow> ('w, val) script" where
  "ask r = (\<lambda>H s. case perform H r (world s) of
     (v, w) \<Rightarrow> (v, s\<lparr>world := w, trace := trace s @ [(r, v)]\<rparr>))"

text \<open>A request whose result is an address, or is not used.\<close>

definition askAddress :: "request \<Rightarrow> ('w, string) script" where
  "askAddress r = bindS (ask r) (\<lambda>v. case v of Str a \<Rightarrow> retS a | _ \<Rightarrow> throwS ''TypeError'')"

definition askBig :: "request \<Rightarrow> ('w, int) script" where
  "askBig r = bindS (ask r) (\<lambda>v. case v of Big n \<Rightarrow> retS n | _ \<Rightarrow> throwS ''TypeError'')"

definition askUnit :: "request \<Rightarrow> ('w, unit) script" where
  "askUnit r = bindS (ask r) (\<lambda>_. retS ())"

definition printExec :: "exec_command \<Rightarrow> ('w, unit) script" where
  "printExec c = (\<lambda>H s. (Inr (), s\<lparr>printed := printed s @ [c]\<rparr>))"

definition ether :: "string \<Rightarrow> ('w, val) script" where
  "ether t = resultS (\<lambda>H. parseEther H t)"

text \<open>\<open>network.name === "mainnet" ? MainnetConfig : TestnetConfig\<close>, and updates of that object.\<close>

definition config_of :: "'w hre \<Rightarrow> 'w js \<Rightarrow> config" where
  "config_of H s = (if network_name H = ''mainnet'' then MainnetConfig s else TestnetConfig s)"

definition set_config :: "'w hre \<Rightarrow> config \<Rightarrow> 'w js \<Rightarrow> 'w js" where
  "set_config H c s =
     (if network_name H = ''mainnet'' then s\<lparr>MainnetConfig := c\<rparr> else s\<lparr>TestnetConfig := c\<rparr>)"

definition getConfig :: "('w, config) script" where
  "getConfig = (\<lambda>H s. (Inr (config_of H s), s))"

definition modifyConfig :: "(config \<Rightarrow> config) \<Rightarrow> ('w, unit) script" where
  "modifyConfig f = (\<lambda>H s. (Inr (), set_config H (f (config_of H s)) s))"

text \<open>\<open>deploy/utils/file.ts\<close>: the object is written to \<open>./deploy/results/<name>.json\<close>.\<close>

definition FileService_write :: "('w, unit) script" where
  "FileService_write = bindS (hreS network_name) (\<lambda>name. bindS getConfig (\<lambda>config.
     askUnit (WriteFile (''./deploy/results/'' @ name @ ''.json'') config)))"

text \<open>\<open>config.Vaults[i]\<close>, read for one of its members: a TypeError outside the array.\<close>

definition vaultAt :: "nat \<Rightarrow> ('w, vault_entry) script" where
  "vaultAt i = bindS getConfig (\<lambda>c. if i < length (Vaults c) then retS (Vaults c ! i)
     else throwS ''TypeError: Cannot read property of undefined'')"

section \<open>Running a script\<close>

lemma bindS_Inr [script_simps]:
  "bindS m f H s = (Inr y, t) \<longleftrightarrow> (\<exists>x u. m H s = (Inr x, u) \<and> f x H u = (Inr y, t))"
  by (auto simp: bindS_def split: prod.splits sum.splits)

lemma thenS_Inr [script_simps]:
  "thenS m k H s = (Inr y, t) \<longleftrightarrow> (\<exists>x u. m H s = (Inr x, u) \<and> k H u = (Inr y, t))"
  by (simp add: thenS_def bindS_Inr)

lemma retS_Inr [script_simps]: "retS x H s = (Inr y, t) \<longleftrightarrow> y = x \<and> t = s"
  by (auto simp: retS_def)

lemma throwS_Inr [script_simps]: "throwS m H s \<noteq> (Inr y, t)"
  by (simp add: throwS_def)

lemma ask_Inr [script_simps]:
  "ask r H s = (Inr v, t) \<longleftrightarrow> (\<exists>w. perform H r (world s) = (Inr v, w) \<and>
     t = s\<lparr>world := w, trace := trace s @ [(r, Inr v)]\<rparr>)"
  by (auto simp: ask_def split: prod.splits)

lemma askAddress_Inr [script_simps]:
  "askAddress r H s = (Inr a, t) \<longleftrightarrow> ask r H s = (Inr (Str a), t)"
proof -
  have "(case v of Str a \<Rightarrow> retS a | _ \<Rightarrow> throwS m) H u = (Inr a, t) \<longleftrightarrow> v = Str a \<and> t = u" for v m u
    by (cases v) (auto simp: script_simps)
  then show ?thesis by (auto simp: askAddress_def script_simps)
qed

lemma askBig_Inr [script_simps]:
  "askBig r H s = (Inr n, t) \<longleftrightarrow> ask r H s = (Inr (Big n), t)"
proof -
  have "(case v of Big n \<Rightarrow> retS n | _ \<Rightarrow> throwS m) H u = (Inr n, t) \<longleftrightarrow> v = Big n \<and> t = u" for v m u
    by (cases v) (auto simp: script_simps)
  then show ?thesis by (auto simp: askBig_def script_simps)
qed

lemma askUnit_Inr [script_simps]:
  "askUnit r H s = (Inr u, t) \<longleftrightarrow> (\<exists>v. ask r H s = (Inr v, t))"
  by (auto simp: askUnit_def script_simps)

lemma hreS_Inr [script_simps]: "hreS f H s = (Inr x, t) \<longleftrightarrow> x = f H \<and> t = s"
  by (auto simp: hreS_def)

lemma ether_Inr [script_simps]: "ether e H s = (Inr x, t) \<longleftrightarrow> parseEther H e = Inr x \<and> t = s"
  by (auto simp: ether_def resultS_def)

lemma getConfig_Inr [script_simps]: "getConfig H s = (Inr c, t) \<longleftrightarrow> c = config_of H s \<and> t = s"
  by (auto simp: getConfig_def)

lemma modifyConfig_Inr [script_simps]:
  "modifyConfig f H s = (Inr u, t) \<longleftrightarrow> t = set_config H (f (config_of H s)) s"
  by (auto simp: modifyConfig_def)

lemma printExec_Inr [script_simps]:
  "printExec c H s = (Inr u, t) \<longleftrightarrow> t = s\<lparr>printed := printed s @ [c]\<rparr>"
  by (auto simp: printExec_def)

lemma vaultAt_Inr [script_simps]:
  "vaultAt i H s = (Inr v, t) \<longleftrightarrow>
   i < length (Vaults (config_of H s)) \<and> v = Vaults (config_of H s) ! i \<and> t = s"
  by (auto simp: vaultAt_def script_simps)

lemma FileService_write_Inr [script_simps]:
  "FileService_write H s = (Inr u, t) \<longleftrightarrow>
   (\<exists>v. ask (WriteFile (''./deploy/results/'' @ network_name H @ ''.json'') (config_of H s)) H s = (Inr v, t))"
  by (auto simp: FileService_write_def script_simps)

lemma set_config_simps [simp]:
  "world (set_config H c s) = world s" "trace (set_config H c s) = trace s"
  "printed (set_config H c s) = printed s" "config_of H (set_config H c s) = c"
  by (simp_all add: set_config_def config_of_def)

lemma config_of_update [simp]:
  "config_of H (s\<lparr>world := w\<rparr>) = config_of H s" "config_of H (s\<lparr>trace := r\<rparr>) = config_of H s"
  "config_of H (s\<lparr>printed := p\<rparr>) = config_of H s"
  by (simp_all add: config_of_def)

section \<open>Exchanges with the world\<close>

text \<open>\<open>exchange H w es w'\<close>: the world \<open>w\<close> gives the answers \<open>es\<close> and ends as \<open>w'\<close>.\<close>

fun exchange :: "'w hre \<Rightarrow> 'w \<Rightarrow> (request \<times> val result) list \<Rightarrow> 'w \<Rightarrow> bool" where
  "exchange H w [] w' \<longleftrightarrow> w' = w"
| "exchange H w ((r, v) # es) w' \<longleftrightarrow> fst (perform H r w) = v \<and> exchange H (snd (perform H r w)) es w'"

text \<open>\<open>steps H s es t\<close>: from \<open>s\<close> to \<open>t\<close> the script exchanged exactly \<open>es\<close> with the world.\<close>

definition steps :: "'w hre \<Rightarrow> 'w js \<Rightarrow> (request \<times> val result) list \<Rightarrow> 'w js \<Rightarrow> bool" where
  "steps H s es t \<longleftrightarrow> trace t = trace s @ es \<and> exchange H (world s) es (world t)"

lemma exchange_append:
  "exchange H w (es @ fs) w' \<longleftrightarrow> (\<exists>u. exchange H w es u \<and> exchange H u fs w')"
  by (induction H w es w' rule: exchange.induct) auto

lemma exchange_answer: "exchange H w es w' \<Longrightarrow> (r, v) \<in> set es \<Longrightarrow> \<exists>u. fst (perform H r u) = v"
  by (induction H w es w' rule: exchange.induct) auto

lemma steps_refl [simp]: "steps H s [] s"
  by (simp add: steps_def)

lemma steps_trans: "steps H s es t \<Longrightarrow> steps H t fs u \<Longrightarrow> steps H s (es @ fs) u"
  by (auto simp: steps_def exchange_append)

lemma steps_config [simp]:
  "steps H s es (set_config H c t) = steps H s es t" "steps H (set_config H c s) es t = steps H s es t"
  by (simp_all add: steps_def)

lemma steps_printed [simp]:
  "steps H s es (t\<lparr>printed := p\<rparr>) = steps H s es t" "steps H (s\<lparr>printed := p\<rparr>) es t = steps H s es t"
  by (simp_all add: steps_def)

lemma ask_steps: "ask r H s = (v, t) \<Longrightarrow> steps H s [(r, v)] t \<and> config_of H t = config_of H s \<and>
    printed t = printed s"
  by (auto simp: ask_def steps_def split: prod.splits)

text \<open>Commands that only ask change neither the configuration nor the printed commands.\<close>

lemma ask_config:
  assumes "ask r H s = (v, t)"
  shows "config_of H t = config_of H s" "printed t = printed s" "trace t = trace s @ [(r, v)]"
  using assms by (auto simp: ask_def split: prod.splits)

section \<open>A small world\<close>

text \<open>
  A concrete runtime for the witnesses: it counts its requests, deploys at the address written with
  that count, answers every read with the count
  (modulo 1000), and accepts everything.
\<close>

definition sample_perform :: "request \<Rightarrow> nat \<Rightarrow> val result \<times> nat" where
  "sample_perform r n =
     (Inr (case r of
        Deploy _ _ \<Rightarrow> Undef | GetDeployment _ \<Rightarrow> Str (replicate n CHR ''x'') | GetFactory _ \<Rightarrow> Undef
      | DeployProxy _ _ _ \<Rightarrow> Str (replicate n CHR ''x'') | DeployContract _ _ \<Rightarrow> Str (replicate n CHR ''x'')
      | UpgradeProxy _ _ \<Rightarrow> Str (replicate n CHR ''x'') | PrepareUpgrade _ _ \<Rightarrow> Str (replicate n CHR ''x'')
      | View _ _ _ \<Rightarrow> Big (int (n mod 1000)) | _ \<Rightarrow> Undef), Suc n)"

definition sample_hre :: "nat hre" where
  "sample_hre =
     \<lparr>network_name = ''testnet'', deployer = ''d'', signer0 = ''d'', perform = sample_perform,
      parseEther = (\<lambda>_. Inr (Big 1)), abi_encode = (\<lambda>_ vs. Inr (Arr vs))\<rparr>"

definition sample_config :: config where
  "sample_config =
     \<lparr>AdminAddress = ''A'', NativeAddress = ''N'', FeederAddress = ''F'', ProxyAdmin = ''P'',
      Timelock = ''T'', FairLaunch_address = ''L'', FairLaunch_pools = [], MasterChef = ''M'',
      RouterV2 = ''R'', LpTokens = [], Tokens = (\<lambda>_. Some ''K''), StrategyAddBaseTokenOnly = ''1'',
      StrategyLiquidate = ''2'', StrategyWithdrawMinimizeTrading = ''3'',
      StrategyPartialCloseLiquidate = ''4'', StrategyPartialCloseMinimizeTrading = ''5'',
      TripleSlopeModel = ''m'', LowInterestTripleSlopeModel = ''l'', HighInterestTripleSlopeModel = ''h'',
      WNativeRelayer = ''W'', WorkerConfig = ''C'', SimpleOracle = ''O'',
      Vaults = [\<lparr>vault_name = '''', vault_symbol = '''', vault_address = '''', vault_baseToken = Str '''',
        vault_debtToken = '''', vault_config = '''', vault_tripleSlopeModel = '''',
        vault_StrategyAddTwoSidesOptimal = '''', vault_workers = []\<rparr>]\<rparr>"

definition sample_js :: "nat js" where
  "sample_js = \<lparr>world = 0, MainnetConfig = sample_config, TestnetConfig = sample_config, trace = [],
     printed = []\<rparr>"

section \<open>Scripts that return\<close>

text \<open>
  An obliging world answers every request, with an address where one is expected and a small
  number for the length of a list of pools.  \<open>goes H Q m s\<close>: the script \<open>m\<close> returns from \<open>s\<close> in a
  state with \<open>Q\<close>.
\<close>

definition answer_ok :: "request \<Rightarrow> val \<Rightarrow> bool" where
  "answer_ok r v = (case r of
     GetDeployment _ \<Rightarrow> \<exists>a. v = Str a | DeployProxy _ _ _ \<Rightarrow> \<exists>a. v = Str a
   | DeployContract _ _ \<Rightarrow> \<exists>a. v = Str a | UpgradeProxy _ _ \<Rightarrow> \<exists>a. v = Str a
   | PrepareUpgrade _ _ \<Rightarrow> \<exists>a. v = Str a | View _ f _ \<Rightarrow> f = ''poolLength()'' \<longrightarrow> (\<exists>n. v = Big n \<and> 0 \<le> n \<and> n < 2 ^ 53)
   | _ \<Rightarrow> True)"

definition obliging :: "'w hre \<Rightarrow> bool" where
  "obliging H \<longleftrightarrow> (\<forall>r w. \<exists>v. fst (perform H r w) = Inr v \<and> answer_ok r v) \<and>
     (\<forall>e. \<exists>v. parseEther H e = Inr v) \<and> (\<forall>ts vs. \<exists>v. abi_encode H ts vs = Inr v)"

definition goes :: "'w hre \<Rightarrow> ('a \<Rightarrow> 'w js \<Rightarrow> bool) \<Rightarrow> ('w, 'a) script \<Rightarrow> 'w js \<Rightarrow> bool" where
  "goes H Q m s \<longleftrightarrow> (\<exists>x t. m H s = (Inr x, t) \<and> Q x t)"

named_theorems goes_intros \<open>rules that run a script against an obliging world\<close>

lemma goes_bind [goes_intros]: "goes H (\<lambda>x. goes H Q (f x)) m s \<Longrightarrow> goes H Q (bindS m f) s"
  by (auto simp: goes_def bindS_Inr)

lemma goes_then [goes_intros]: "goes H (\<lambda>_. goes H Q k) m s \<Longrightarrow> goes H Q (thenS m k) s"
  by (auto simp: goes_def thenS_Inr)

lemma goes_ret [goes_intros]: "Q x s \<Longrightarrow> goes H Q (retS x) s"
  by (simp add: goes_def retS_def)

lemma goes_getConfig [goes_intros]: "Q (config_of H s) s \<Longrightarrow> goes H Q getConfig s"
  by (simp add: goes_def getConfig_def)

lemma goes_hreS [goes_intros]: "Q (f H) s \<Longrightarrow> goes H Q (hreS f) s"
  by (simp add: goes_def hreS_def)

lemma goes_modifyConfig [goes_intros]:
  "Q () (set_config H (f (config_of H s)) s) \<Longrightarrow> goes H Q (modifyConfig f) s"
  by (simp add: goes_def modifyConfig_def)

lemma goes_printExec [goes_intros]:
  "(\<And>t. config_of H t = config_of H s \<Longrightarrow> Q () t) \<Longrightarrow> goes H Q (printExec c) s"
  by (simp add: goes_def printExec_def)

lemma goes_vaultAt [goes_intros]:
  "i < length (Vaults (config_of H s)) \<Longrightarrow> Q (Vaults (config_of H s) ! i) s \<Longrightarrow> goes H Q (vaultAt i) s"
  unfolding goes_def vaultAt_Inr by blast

lemma goes_ether [goes_intros]:
  "obliging H \<Longrightarrow> (\<And>v. Q v s) \<Longrightarrow> goes H Q (ether e) s"
  unfolding goes_def ether_Inr obliging_def by blast

lemma goes_ask [goes_intros]:
  assumes "obliging H" and "\<And>v t. answer_ok r v \<Longrightarrow> config_of H t = config_of H s \<Longrightarrow> Q v t"
  shows "goes H Q (ask r) s"
proof -
  have "\<exists>v. fst (perform H r (world s)) = Inr v \<and> answer_ok r v"
    using assms(1) by (simp only: obliging_def)
  then obtain v where v: "fst (perform H r (world s)) = Inr v" "answer_ok r v" by (elim exE conjE)
  obtain w where "perform H r (world s) = (Inr v, w)" using v(1) by (cases "perform H r (world s)") simp
  then have "ask r H s = (Inr v, s\<lparr>world := w, trace := trace s @ [(r, Inr v)]\<rparr>)" by (simp add: ask_def)
  moreover have "Q v (s\<lparr>world := w, trace := trace s @ [(r, Inr v)]\<rparr>)"
    by (rule assms(2) [OF v(2)]) simp
  ultimately show ?thesis unfolding goes_def by blast
qed

lemma goes_askUnit [goes_intros]:
  assumes "obliging H" and "\<And>t. config_of H t = config_of H s \<Longrightarrow> Q () t"
  shows "goes H Q (askUnit r) s"
  unfolding askUnit_def by (intro goes_bind goes_ask goes_ret) (use assms in auto)

lemma goes_askAddress [goes_intros]:
  assumes "obliging H" and "\<And>a t. config_of H t = config_of H s \<Longrightarrow> Q a t"
    and "\<And>v. answer_ok r v \<Longrightarrow> \<exists>a. v = Str a"
  shows "goes H Q (askAddress r) s"
proof -
  have "goes H Q (case v of Str a \<Rightarrow> retS a | _ \<Rightarrow> throwS ''TypeError'') t"
    if v: "answer_ok r v" and t: "config_of H t = config_of H s" for v t
  proof -
    from assms(3) [OF v] obtain a where "v = Str a" ..
    then show ?thesis by (simp add: goes_ret assms(2) [OF t])
  qed
  then show ?thesis unfolding askAddress_def by (intro goes_bind goes_ask assms(1))
qed

lemma goes_write [goes_intros]:
  assumes "obliging H" and "\<And>t. config_of H t = config_of H s \<Longrightarrow> Q () t"
  shows "goes H Q FileService_write s"
  unfolding FileService_write_def by (intro goes_intros assms)

lemma goes_forS:
  assumes "\<And>x s. x \<in> set xs \<Longrightarrow> I s \<Longrightarrow> goes H (\<lambda>_. I) (f x) s" and "I s"
  shows "goes H (\<lambda>_. I) (forS f xs) s"
  using assms
proof (induction xs arbitrary: s)
  case (Cons x xs)
  have "goes H (\<lambda>_. I) (f x) s" using Cons.prems by simp
  moreover have "goes H (\<lambda>_. I) (forS f xs) t" if "I t" for t
    using Cons.IH Cons.prems(1) that by simp
  ultimately show ?case by (auto simp: goes_def thenS_Inr)
qed (simp add: goes_ret)

lemma goes_mono: "goes H P m s \<Longrightarrow> (\<And>x t. P x t \<Longrightarrow> Q x t) \<Longrightarrow> goes H Q m s"
  by (auto simp: goes_def)

lemma sample_obliging [simp]: "obliging sample_hre"
  by (auto simp: obliging_def sample_hre_def sample_perform_def answer_ok_def split: request.splits)

end
