(* ===== verification/Vault_Scripts.thy ===== *)
theory Vault_Scripts
  imports Runtime
begin

text \<open>
  The scripts that open a lending vault: \<open>deploy/scripts/010-1\<close> to \<open>010-8\<close> deploy the vault's
  configuration contract and append the vault to the configuration file, \<open>011-1\<close> to \<open>011-8\<close> deploy
  the debt token and the vault, add both to FairLaunch, link the vault to its pool and complete the
  entry of the file.  The sixteen files are two texts with different constants: one definition
  with parameters each, and one instance per file.
\<close>

section \<open>010: the vault configuration contracts\<close>

definition new_vault_entry :: "string \<Rightarrow> string \<Rightarrow> string \<Rightarrow> vault_entry" where
  "new_vault_entry SYMBOL address INTEREST_MODEL =
     \<lparr>vault_name = '''', vault_symbol = SYMBOL, vault_address = '''', vault_baseToken = Undef,
      vault_debtToken = '''', vault_config = address, vault_tripleSlopeModel = INTEREST_MODEL,
      vault_StrategyAddTwoSidesOptimal = '''', vault_workers = []\<rparr>"

definition deploy_vault_config :: "string \<Rightarrow> (config \<Rightarrow> string) \<Rightarrow> ('w, unit) script" where
  "deploy_vault_config SYMBOL INTEREST_MODEL =
     bindS getConfig (\<lambda>config.
     bindS (ether ''100'') (\<lambda>MIN_DEBT_SIZE.
     bindS (askAddress (DeployProxy ''BasicVaultConfig''
       [MIN_DEBT_SIZE, Str ''1600'', Str ''4'', Str ''500'', Str (INTEREST_MODEL config),
        Str (NativeAddress config), Str (WNativeRelayer config), Str (FairLaunch_address config)]
       True)) (\<lambda>address.
     thenS (modifyConfig (\<lambda>c. c\<lparr>Vaults :=
       Vaults c @ [new_vault_entry SYMBOL address (INTEREST_MODEL config)]\<rparr>))
     FileService_write)))"

definition deploy_vault_config_huski :: "('w, unit) script" where
  "deploy_vault_config_huski = deploy_vault_config ''ibHUSKI'' HighInterestTripleSlopeModel"

definition deploy_vault_config_busd :: "('w, unit) script" where
  "deploy_vault_config_busd = deploy_vault_config ''ibBUSD'' HighInterestTripleSlopeModel"

definition deploy_vault_config_bnb :: "('w, unit) script" where
  "deploy_vault_config_bnb = deploy_vault_config ''ibBNB'' HighInterestTripleSlopeModel"

definition deploy_vault_config_usdt :: "('w, unit) script" where
  "deploy_vault_config_usdt = deploy_vault_config ''ibUSDT'' LowInterestTripleSlopeModel"

definition deploy_vault_config_cake :: "('w, unit) script" where
  "deploy_vault_config_cake = deploy_vault_config ''ibCAKE'' HighInterestTripleSlopeModel"

definition deploy_vault_config_eth :: "('w, unit) script" where
  "deploy_vault_config_eth = deploy_vault_config ''ibETH'' LowInterestTripleSlopeModel"

definition deploy_vault_config_btcb :: "('w, unit) script" where
  "deploy_vault_config_btcb = deploy_vault_config ''ibBTCB'' LowInterestTripleSlopeModel"

definition deploy_vault_config_usdc :: "('w, unit) script" where
  "deploy_vault_config_usdc = deploy_vault_config ''ibUSDC'' LowInterestTripleSlopeModel"

section \<open>011: the vaults\<close>

text \<open>\<open>BigNumber.toNumber()\<close> throws outside the safe integers.\<close>

definition toNumber :: "int \<Rightarrow> ('w, int) script" where
  "toNumber n = (if \<bar>n\<bar> < 2 ^ 53 then retS n else throwS ''overflow'')"

definition setVault :: "nat \<Rightarrow> (vault_entry \<Rightarrow> vault_entry) \<Rightarrow> ('w, unit) script" where
  "setVault i f = modifyConfig (\<lambda>c. c\<lparr>Vaults := (Vaults c)[i := f (Vaults c ! i)]\<rparr>)"

definition pushPool :: "pool_entry \<Rightarrow> ('w, unit) script" where
  "pushPool p = modifyConfig (\<lambda>c. c\<lparr>FairLaunch_pools := FairLaunch_pools c @ [p]\<rparr>)"

text \<open>
  The tail of the script: \<open>addPool\<close>, ten seconds of sleep, and the id of the last pool.
\<close>

definition add_fair_launch_pool ::
  "string \<Rightarrow> string \<Rightarrow> int \<Rightarrow> string \<Rightarrow> ('w, int) script" where
  "add_fair_launch_pool FAIR_LAUNCH_ADDR symbol alloc stakeToken =
     thenS (askUnit (Send FAIR_LAUNCH_ADDR ''addPool(string,uint256,address,bool)''
       [Str symbol, Num alloc, Str stakeToken, Bool True] []))
     (thenS (askUnit (Sleep 10000))
     (bindS (askBig (View FAIR_LAUNCH_ADDR ''poolLength()'' [])) (\<lambda>n. retS (n - 1))))"

definition completed_entry ::
  "string \<Rightarrow> string \<Rightarrow> val \<Rightarrow> string \<Rightarrow> vault_entry \<Rightarrow> vault_entry" where
  "completed_entry NAME address BASE_TOKEN_ADDR debtToken e =
     e\<lparr>vault_name := NAME, vault_address := address, vault_baseToken := BASE_TOKEN_ADDR,
       vault_debtToken := debtToken\<rparr>"

definition record_step ::
  "string \<Rightarrow> (vault_entry \<Rightarrow> vault_entry) \<Rightarrow> nat \<Rightarrow> ('w, unit) script" where
  "record_step SYM complete i = bindS (vaultAt i) (\<lambda>v.
     if vault_symbol v = SYM then thenS (setVault i complete) FileService_write else retS ())"

definition record_vault ::
  "string \<Rightarrow> (vault_entry \<Rightarrow> vault_entry) \<Rightarrow> ('w, unit) script" where
  "record_vault SYMBOL complete =
     bindS getConfig (\<lambda>config.
     forS (record_step SYMBOL complete) [0 ..< length (Vaults config)])"

definition deploy_vault ::
  "nat \<Rightarrow> string \<Rightarrow> int \<Rightarrow> int \<Rightarrow> string \<Rightarrow> ('w, unit) script" where
  "deploy_vault vaultIndex NAME ALLOC_POINT_FOR_DEPOSIT ALLOC_POINT_FOR_OPEN_POSITION baseToken =
     bindS getConfig (\<lambda>config.
     bindS (vaultAt vaultIndex) (\<lambda>entry.
     let BASE_TOKEN_ADDR = token config baseToken;
         FAIR_LAUNCH_ADDR = FairLaunch_address config;
         SYMBOL = vault_symbol entry;
         debtSymbol = ''debt'' @ SYMBOL in
     bindS (askAddress (DeployProxy ''DebtToken''
       [Str (debtSymbol @ ''_V2''), Str (debtSymbol @ ''_V2''), Str (Timelock config)] True))
     (\<lambda>debtToken.
     bindS (askAddress (DeployProxy ''Vault''
       [Str (vault_config entry), BASE_TOKEN_ADDR, Str NAME, Str SYMBOL, Num 18, Str debtToken] True))
     (\<lambda>vault.
     thenS (askUnit (Send debtToken ''setOkHolders(address[],bool)''
       [Arr [Str vault, Str FAIR_LAUNCH_ADDR], Bool True] []))
     (thenS (askUnit (Send debtToken ''transferOwnership(address)'' [Str vault] []))
     (bindS (add_fair_launch_pool FAIR_LAUNCH_ADDR debtSymbol ALLOC_POINT_FOR_OPEN_POSITION debtToken)
     (\<lambda>fairLaunchDebtPid.
     thenS (askUnit (Send vault ''setFairLaunchPoolId(uint256)'' [Big fairLaunchDebtPid]
       [(''gasLimit'', Str ''2000000'')]))
     (bindS (toNumber fairLaunchDebtPid) (\<lambda>debtId.
     thenS (pushPool \<lparr>pool_id = debtId, stakingToken = debtSymbol, pool_address = debtToken\<rparr>)
     (bindS (add_fair_launch_pool FAIR_LAUNCH_ADDR SYMBOL ALLOC_POINT_FOR_DEPOSIT vault)
     (\<lambda>fairLaunchPid.
     bindS (toNumber fairLaunchPid) (\<lambda>id.
     thenS (pushPool \<lparr>pool_id = id, stakingToken = SYMBOL, pool_address = vault\<rparr>)
     (thenS (askUnit (Send (WNativeRelayer config) ''setCallerOk(address[],bool)''
       [Arr [Str vault], Bool True] []))
     (record_vault SYMBOL (completed_entry NAME vault BASE_TOKEN_ADDR debtToken)))))))))))))))"

definition deploy_vault_huski :: "('w, unit) script" where
  "deploy_vault_huski = deploy_vault 1 ''Interest Bearing HUSKI'' 0 0 ''HUSKY''"

definition deploy_vault_busd :: "('w, unit) script" where
  "deploy_vault_busd = deploy_vault 2 ''Interest Bearing BUSD'' 200 300 ''BUSD''"

definition deploy_vault_bnb :: "('w, unit) script" where
  "deploy_vault_bnb = deploy_vault 3 ''Interest Bearing WBNB'' 200 300 ''WBNB''"

definition deploy_vault_usdt :: "('w, unit) script" where
  "deploy_vault_usdt = deploy_vault 4 ''Interest Bearing USDT'' 100 100 ''USDT''"

definition deploy_vault_cake :: "('w, unit) script" where
  "deploy_vault_cake = deploy_vault 5 ''Interest Bearing CAKE'' 0 0 ''CAKE''"

definition deploy_vault_eth :: "('w, unit) script" where
  "deploy_vault_eth = deploy_vault 6 ''Interest Bearing ETH'' 100 100 ''ETH''"

definition deploy_vault_btcb :: "('w, unit) script" where
  "deploy_vault_btcb = deploy_vault 7 ''Interest Bearing BTCB'' 100 50 ''BTCB''"

definition deploy_vault_usdc :: "('w, unit) script" where
  "deploy_vault_usdc = deploy_vault 8 ''Interest Bearing USDC'' 100 100 ''USDC''"

section \<open>What the scripts do when they return\<close>

lemma steps_ask: "ask r H s = (v, t) \<Longrightarrow> steps H t es u \<Longrightarrow> steps H s ((r, v) # es) u"
  using ask_steps [of r H s v t] steps_trans [of H s "[(r, v)]" t es u] by simp

lemma deploy_vault_config_Inr:
  assumes "deploy_vault_config S M H s = (Inr u, t)"
  shows "\<exists>m a v. parseEther H ''100'' = Inr m \<and>
    config_of H t = (config_of H s)\<lparr>Vaults :=
      Vaults (config_of H s) @ [new_vault_entry S a (M (config_of H s))]\<rparr> \<and>
    steps H s
      [(DeployProxy ''BasicVaultConfig''
         [m, Str ''1600'', Str ''4'', Str ''500'', Str (M (config_of H s)),
          Str (NativeAddress (config_of H s)), Str (WNativeRelayer (config_of H s)),
          Str (FairLaunch_address (config_of H s))] True, Inr (Str a)),
       (WriteFile (''./deploy/results/'' @ network_name H @ ''.json'') (config_of H t), Inr v)] t"
proof -
  let ?c = "config_of H s"
  from assms obtain m a s1 v where m: "parseEther H ''100'' = Inr m"
    and a: "ask (DeployProxy ''BasicVaultConfig''
         [m, Str ''1600'', Str ''4'', Str ''500'', Str (M ?c), Str (NativeAddress ?c),
          Str (WNativeRelayer ?c), Str (FairLaunch_address ?c)] True) H s = (Inr (Str a), s1)"
    and w': "ask (WriteFile (''./deploy/results/'' @ network_name H @ ''.json'')
        ((config_of H s1)\<lparr>Vaults := Vaults (config_of H s1) @ [new_vault_entry S a (M ?c)]\<rparr>)) H
        (set_config H ((config_of H s1)\<lparr>Vaults := Vaults (config_of H s1) @ [new_vault_entry S a (M ?c)]\<rparr>) s1)
        = (Inr v, t)"
    by (auto simp: deploy_vault_config_def bindS_Inr thenS_Inr getConfig_Inr ether_Inr askAddress_Inr
        modifyConfig_Inr FileService_write_Inr)
  note w = w' [unfolded ask_config(1) [OF a]]
  have "config_of H t = ?c\<lparr>Vaults := Vaults ?c @ [new_vault_entry S a (M ?c)]\<rparr>"
    using ask_config(1) [OF w] by simp
  with m steps_trans [OF conjunct1 [OF ask_steps [OF a]] conjunct1 [OF ask_steps [OF w], unfolded steps_config]]
  show ?thesis by auto
qed

text \<open>The loop that completes the entries of the vault's symbol: it only writes the file.\<close>

definition only_writes :: "'w hre \<Rightarrow> 'w js \<Rightarrow> 'w js \<Rightarrow> bool" where
  "only_writes H s t \<longleftrightarrow> (\<exists>es. steps H s es t \<and> (\<forall>e \<in> set es. \<exists>p c. fst e = WriteFile p c))"

lemma only_writes_refl [simp]: "only_writes H s s"
  unfolding only_writes_def by (rule exI [of _ "[]"]) simp

lemma only_writes_trans: "only_writes H s t \<Longrightarrow> only_writes H t u \<Longrightarrow> only_writes H s u"
  unfolding only_writes_def by (metis Un_iff set_append steps_trans)

lemma record_step_Inr:
  assumes "record_step SYM complete k H s = (Inr u, t)"
  shows "k < length (Vaults (config_of H s)) \<and> only_writes H s t \<and>
    config_of H t = (config_of H s)\<lparr>Vaults := (Vaults (config_of H s))[k :=
      (if vault_symbol (Vaults (config_of H s) ! k) = SYM then complete (Vaults (config_of H s) ! k)
       else Vaults (config_of H s) ! k)]\<rparr>"
proof (cases "vault_symbol (Vaults (config_of H s) ! k) = SYM")
  case True
  let ?c = "(config_of H s)\<lparr>Vaults := (Vaults (config_of H s))[k := complete (Vaults (config_of H s) ! k)]\<rparr>"
  from assms True obtain v where k: "k < length (Vaults (config_of H s))"
    and w: "ask (WriteFile (''./deploy/results/'' @ network_name H @ ''.json'') ?c) H
      (set_config H ?c s) = (Inr v, t)"
    by (auto simp: record_step_def bindS_Inr vaultAt_Inr thenS_Inr setVault_def modifyConfig_Inr
        FileService_write_Inr)
  show ?thesis
    using ask_config(1) [OF w] ask_steps [OF w] True k by (auto simp: only_writes_def)
next
  case False
  with assms show ?thesis by (auto simp: record_step_def bindS_Inr vaultAt_Inr retS_Inr)
qed

lemma record_loop_Inr:
  assumes "forS (record_step SYM complete) [k ..< n] H s = (Inr u, t)" "k \<le> n"
    and "length (Vaults (config_of H s)) = n"
  shows "only_writes H s t \<and> config_of H t = (config_of H s)\<lparr>Vaults :=
      take k (Vaults (config_of H s)) @
      map (\<lambda>e. if vault_symbol e = SYM then complete e else e) (drop k (Vaults (config_of H s)))\<rparr>"
    (is "_ \<and> config_of H t = (config_of H s)\<lparr>Vaults := take k _ @ map ?f _\<rparr>")
  using assms
proof (induction "n - k" arbitrary: k s)
  case 0
  then show ?case by (auto simp: retS_Inr)
next
  case (Suc d)
  let ?v = "Vaults (config_of H s)"
  from Suc.hyps(2) have k: "k < n" "[k ..< n] = k # [Suc k ..< n]" "d = n - Suc k"
    by (simp_all add: upt_conv_Cons)
  from Suc.prems(1) k(2) obtain s' where step: "record_step SYM complete k H s = (Inr (), s')"
    and rest: "forS (record_step SYM complete) [Suc k ..< n] H s' = (Inr u, t)"
    by (auto simp: thenS_Inr)
  note s' = record_step_Inr [OF step]
  have "only_writes H s' t \<and> config_of H t = (config_of H s')\<lparr>Vaults :=
      take (Suc k) (Vaults (config_of H s')) @ map ?f (drop (Suc k) (Vaults (config_of H s')))\<rparr>"
    by (rule Suc.hyps(1) [OF k(3) rest]) (use k(1) Suc.prems(3) s' in simp_all)
  moreover have "take (Suc k) (?v[k := ?f (?v ! k)]) @ map ?f (drop (Suc k) (?v[k := ?f (?v ! k)])) =
      take k ?v @ map ?f (drop k ?v)"
    using k(1) Suc.prems(3) by (simp add: take_Suc_conv_app_nth Cons_nth_drop_Suc [symmetric])
  ultimately show ?case using s' only_writes_trans by fastforce
qed

lemma record_vault_Inr:
  assumes "record_vault SYM complete H s = (Inr u, t)"
  shows "only_writes H s t \<and> config_of H t = (config_of H s)\<lparr>Vaults :=
      map (\<lambda>e. if vault_symbol e = SYM then complete e else e) (Vaults (config_of H s))\<rparr>"
proof -
  have "forS (record_step SYM complete) [0 ..< length (Vaults (config_of H s))] H s = (Inr u, t)"
    using assms by (auto simp: record_vault_def bindS_Inr getConfig_Inr)
  from record_loop_Inr [OF this] show ?thesis by simp
qed

text \<open>
  The exchanges of a complete run, in order, for the addresses \<open>d\<close> of the debt token and \<open>v\<close> of the
  vault and the pool counts \<open>n\<close> and \<open>m\<close> read after each \<open>addPool\<close>; \<open>rs\<close> are the answers nobody reads.
\<close>

definition vault_requests ::
  "config \<Rightarrow> vault_entry \<Rightarrow> string \<Rightarrow> int \<Rightarrow> int \<Rightarrow> val \<Rightarrow> string \<Rightarrow> string \<Rightarrow> int \<Rightarrow> int \<Rightarrow> (request \<times> val) list"
  where
  "vault_requests c e NAME ad ao base d v n m =
     (let FL = FairLaunch_address c; sym = vault_symbol e; dsym = ''debt'' @ sym in
      [(DeployProxy ''DebtToken'' [Str (dsym @ ''_V2''), Str (dsym @ ''_V2''), Str (Timelock c)] True, Str d),
       (DeployProxy ''Vault'' [Str (vault_config e), base, Str NAME, Str sym, Num 18, Str d] True, Str v),
       (Send d ''setOkHolders(address[],bool)'' [Arr [Str v, Str FL], Bool True] [], Undef),
       (Send d ''transferOwnership(address)'' [Str v] [], Undef),
       (Send FL ''addPool(string,uint256,address,bool)'' [Str dsym, Num ao, Str d, Bool True] [], Undef),
       (Sleep 10000, Undef),
       (View FL ''poolLength()'' [], Big n),
       (Send v ''setFairLaunchPoolId(uint256)'' [Big (n - 1)] [(''gasLimit'', Str ''2000000'')], Undef),
       (Send FL ''addPool(string,uint256,address,bool)'' [Str sym, Num ad, Str v, Bool True] [], Undef),
       (Sleep 10000, Undef),
       (View FL ''poolLength()'' [], Big m),
       (Send (WNativeRelayer c) ''setCallerOk(address[],bool)'' [Arr [Str v], Bool True] [], Undef)])"

text \<open>A run answers these requests: the answers to \<open>Send\<close> and \<open>Sleep\<close> may be anything but a failure.\<close>

fun answers :: "(request \<times> val) list \<Rightarrow> (request \<times> val result) list \<Rightarrow> bool" where
  "answers [] es \<longleftrightarrow> es = []"
| "answers ((r, v) # rs) es \<longleftrightarrow> (case es of [] \<Rightarrow> False | (r', a) # es' \<Rightarrow>
     r' = r \<and> (case r of Send _ _ _ _ \<Rightarrow> \<exists>x. a = Inr x | Sleep _ \<Rightarrow> \<exists>x. a = Inr x | _ \<Rightarrow> a = Inr v) \<and>
     answers rs es')"

lemma answers_requests: "answers rs es \<Longrightarrow> map fst es = map fst rs"
proof (induction rs arbitrary: es)
  case (Cons r rs)
  then show ?case by (cases r; cases es) auto
qed simp

lemma toNumber_Inr: "toNumber n H s = (Inr x, t) \<longleftrightarrow> \<bar>n\<bar> < 2 ^ 53 \<and> x = n \<and> t = s"
  by (auto simp: toNumber_def script_simps)

lemma pushPool_Inr:
  "pushPool p H s = (Inr u, t) \<longleftrightarrow>
   t = set_config H ((config_of H s)\<lparr>FairLaunch_pools := FairLaunch_pools (config_of H s) @ [p]\<rparr>) s"
  by (auto simp: pushPool_def modifyConfig_Inr)

lemma add_pool_Inr:
  "add_fair_launch_pool FL symb alloc tok H s = (Inr k, t) \<longleftrightarrow>
   (\<exists>a b s1 s2. ask (Send FL ''addPool(string,uint256,address,bool)''
        [Str symb, Num alloc, Str tok, Bool True] []) H s = (Inr a, s1) \<and>
     ask (Sleep 10000) H s1 = (Inr b, s2) \<and> ask (View FL ''poolLength()'' []) H s2 = (Inr (Big (k + 1)), t))"
proof -
  have "(\<exists>n. P n \<and> k = n - 1) \<longleftrightarrow> P (k + 1)" for P by (metis add_diff_cancel diff_add_cancel)
  then show ?thesis
    by (simp add: add_fair_launch_pool_def thenS_Inr bindS_Inr askUnit_Inr askBig_Inr retS_Inr) blast
qed

lemma deploy_vault_Inr:
  fixes s t :: "'w js"
  assumes run: "deploy_vault i NAME ad ao base H s = (Inr u, t)"
  obtains d v n m es s' where
    "i < length (Vaults (config_of H s))"
    "answers (vault_requests (config_of H s) (Vaults (config_of H s) ! i) NAME ad ao
        (token (config_of H s) base) d v n m) es" "steps H s es s'" "only_writes H s' t"
    "\<bar>n - 1\<bar> < 2 ^ 53" "\<bar>m - 1\<bar> < 2 ^ 53"
    "config_of H t = (config_of H s)\<lparr>
       FairLaunch_pools := FairLaunch_pools (config_of H s) @
         [\<lparr>pool_id = n - 1, stakingToken = ''debt'' @ vault_symbol (Vaults (config_of H s) ! i), pool_address = d\<rparr>,
          \<lparr>pool_id = m - 1, stakingToken = vault_symbol (Vaults (config_of H s) ! i), pool_address = v\<rparr>],
       Vaults := map (\<lambda>e. if vault_symbol e = vault_symbol (Vaults (config_of H s) ! i)
           then completed_entry NAME v (token (config_of H s) base) d e else e) (Vaults (config_of H s))\<rparr>"
proof -
  let ?c = "config_of H s" and ?e = "Vaults (config_of H s) ! i"
  let ?FL = "FairLaunch_address ?c" and ?b = "token ?c base"
  let ?sym = "vault_symbol ?e"
  let ?dsym = "''debt'' @ ?sym"
  from run obtain d v k j s1 s2 s3 s4 s5 s6 s7 s8 s9 s10 s11 s12 a3 a4 a5 a6 a8 a9 a10 a12
    where i: "i < length (Vaults ?c)"
    and 1: "ask (DeployProxy ''DebtToken'' [Str (?dsym @ ''_V2''), Str (?dsym @ ''_V2''), Str (Timelock ?c)] True) H s
        = (Inr (Str d), s1)"
    and 2: "ask (DeployProxy ''Vault'' [Str (vault_config ?e), ?b, Str NAME, Str ?sym, Num 18, Str d] True) H s1
        = (Inr (Str v), s2)"
    and 3: "ask (Send d ''setOkHolders(address[],bool)'' [Arr [Str v, Str ?FL], Bool True] []) H s2 = (Inr a3, s3)"
    and 4: "ask (Send d ''transferOwnership(address)'' [Str v] []) H s3 = (Inr a4, s4)"
    and 5: "ask (Send ?FL ''addPool(string,uint256,address,bool)'' [Str ?dsym, Num ao, Str d, Bool True] []) H s4
        = (Inr a5, s5)"
    and 6: "ask (Sleep 10000) H s5 = (Inr a6, s6)"
    and 7: "ask (View ?FL ''poolLength()'' []) H s6 = (Inr (Big (k + 1)), s7)"
    and 8: "ask (Send v ''setFairLaunchPoolId(uint256)'' [Big k] [(''gasLimit'', Str ''2000000'')]) H s7 = (Inr a8, s8)"
    and k: "\<bar>k\<bar> < 2 ^ 53"
    and 9: "ask (Send ?FL ''addPool(string,uint256,address,bool)'' [Str ?sym, Num ad, Str v, Bool True] []) H
        (set_config H ((config_of H s8)\<lparr>FairLaunch_pools := FairLaunch_pools (config_of H s8) @
          [\<lparr>pool_id = k, stakingToken = ?dsym, pool_address = d\<rparr>]\<rparr>) s8) = (Inr a9, s9)"
    and 10: "ask (Sleep 10000) H s9 = (Inr a10, s10)"
    and 11: "ask (View ?FL ''poolLength()'' []) H s10 = (Inr (Big (j + 1)), s11)"
    and j: "\<bar>j\<bar> < 2 ^ 53"
    and 12: "ask (Send (WNativeRelayer ?c) ''setCallerOk(address[],bool)'' [Arr [Str v], Bool True] []) H
        (set_config H ((config_of H s11)\<lparr>FairLaunch_pools := FairLaunch_pools (config_of H s11) @
          [\<lparr>pool_id = j, stakingToken = ?sym, pool_address = v\<rparr>]\<rparr>) s11) = (Inr a12, s12)"
    and r: "record_vault ?sym (completed_entry NAME v ?b d) H s12 = (Inr u, t)"
    by (clarsimp simp: deploy_vault_def Let_def bindS_Inr thenS_Inr getConfig_Inr vaultAt_Inr
        askAddress_Inr askUnit_Inr add_pool_Inr toNumber_Inr pushPool_Inr)
  let ?es = "[(DeployProxy ''DebtToken'' [Str (?dsym @ ''_V2''), Str (?dsym @ ''_V2''), Str (Timelock ?c)] True, Inr (Str d)),
       (DeployProxy ''Vault'' [Str (vault_config ?e), ?b, Str NAME, Str ?sym, Num 18, Str d] True, Inr (Str v)),
       (Send d ''setOkHolders(address[],bool)'' [Arr [Str v, Str ?FL], Bool True] [], Inr a3),
       (Send d ''transferOwnership(address)'' [Str v] [], Inr a4),
       (Send ?FL ''addPool(string,uint256,address,bool)'' [Str ?dsym, Num ao, Str d, Bool True] [], Inr a5),
       (Sleep 10000, Inr a6), (View ?FL ''poolLength()'' [], Inr (Big (k + 1))),
       (Send v ''setFairLaunchPoolId(uint256)'' [Big k] [(''gasLimit'', Str ''2000000'')], Inr a8),
       (Send ?FL ''addPool(string,uint256,address,bool)'' [Str ?sym, Num ad, Str v, Bool True] [], Inr a9),
       (Sleep 10000, Inr a10), (View ?FL ''poolLength()'' [], Inr (Big (j + 1))),
       (Send (WNativeRelayer ?c) ''setCallerOk(address[],bool)'' [Arr [Str v], Bool True] [], Inr a12)]"
  note asks = 1 2 3 4 5 6 7 8 9 10 11 12
  note st = asks [THEN ask_steps, THEN conjunct1, unfolded steps_config]
  have "steps H s ?es s12"
    using st by (simp add: steps_def)
  moreover have "answers (vault_requests ?c ?e NAME ad ao ?b d v (k + 1) (j + 1)) ?es"
    by (simp add: vault_requests_def Let_def)
  moreover note rec = record_vault_Inr [OF r]
  moreover have "config_of H t = ?c\<lparr>FairLaunch_pools := FairLaunch_pools ?c @
         [\<lparr>pool_id = k, stakingToken = ?dsym, pool_address = d\<rparr>, \<lparr>pool_id = j, stakingToken = ?sym, pool_address = v\<rparr>],
       Vaults := map (\<lambda>e. if vault_symbol e = ?sym then completed_entry NAME v ?b d e else e) (Vaults ?c)\<rparr>"
    using rec asks [THEN ask_config(1)] by simp
  ultimately show ?thesis
    using i k j by (intro that [of d v "k + 1" "j + 1" ?es s12]) simp_all
qed

section \<open>The sixteen scripts together\<close>

text \<open>The constants of the files: index, symbol and interest model of 010, and the rest of 011.\<close>

definition vault_configs_plan :: "(string \<times> (config \<Rightarrow> string)) list" where
  "vault_configs_plan =
     [(''ibHUSKI'', HighInterestTripleSlopeModel), (''ibBUSD'', HighInterestTripleSlopeModel),
      (''ibBNB'', HighInterestTripleSlopeModel), (''ibUSDT'', LowInterestTripleSlopeModel),
      (''ibCAKE'', HighInterestTripleSlopeModel), (''ibETH'', LowInterestTripleSlopeModel),
      (''ibBTCB'', LowInterestTripleSlopeModel), (''ibUSDC'', LowInterestTripleSlopeModel)]"

definition vaults_plan :: "(nat \<times> string \<times> int \<times> int \<times> string) list" where
  "vaults_plan =
     [(1, ''Interest Bearing HUSKI'', 0, 0, ''HUSKY''), (2, ''Interest Bearing BUSD'', 200, 300, ''BUSD''),
      (3, ''Interest Bearing WBNB'', 200, 300, ''WBNB''), (4, ''Interest Bearing USDT'', 100, 100, ''USDT''),
      (5, ''Interest Bearing CAKE'', 0, 0, ''CAKE''), (6, ''Interest Bearing ETH'', 100, 100, ''ETH''),
      (7, ''Interest Bearing BTCB'', 100, 50, ''BTCB''), (8, ''Interest Bearing USDC'', 100, 100, ''USDC'')]"

definition run_vault_configs :: "('w, unit) script" where
  "run_vault_configs = forS (\<lambda>script. script)
     [deploy_vault_config_huski, deploy_vault_config_busd, deploy_vault_config_bnb, deploy_vault_config_usdt,
      deploy_vault_config_cake, deploy_vault_config_eth, deploy_vault_config_btcb, deploy_vault_config_usdc]"

definition run_vaults :: "('w, unit) script" where
  "run_vaults = forS (\<lambda>script. script)
     [deploy_vault_huski, deploy_vault_busd, deploy_vault_bnb, deploy_vault_usdt,
      deploy_vault_cake, deploy_vault_eth, deploy_vault_btcb, deploy_vault_usdc]"

lemma run_vault_configs_plan:
  "run_vault_configs = forS (\<lambda>(S, M). deploy_vault_config S M) vault_configs_plan"
  by (simp add: run_vault_configs_def vault_configs_plan_def deploy_vault_config_huski_def
      deploy_vault_config_busd_def deploy_vault_config_bnb_def deploy_vault_config_usdt_def
      deploy_vault_config_cake_def deploy_vault_config_eth_def deploy_vault_config_btcb_def
      deploy_vault_config_usdc_def)

lemma run_vaults_plan:
  "run_vaults = forS (\<lambda>(i, N, ad, ao, b). deploy_vault i N ad ao b) vaults_plan"
  by (simp add: run_vaults_def vaults_plan_def deploy_vault_huski_def deploy_vault_busd_def
      deploy_vault_bnb_def deploy_vault_usdt_def deploy_vault_cake_def deploy_vault_eth_def deploy_vault_btcb_def
      deploy_vault_usdc_def)

text \<open>Models read from the configuration do not depend on the list of vaults.\<close>

definition model_field :: "(config \<Rightarrow> string) \<Rightarrow> bool" where
  "model_field M \<longleftrightarrow> (\<forall>c vs. M (c\<lparr>Vaults := vs\<rparr>) = M c)"

lemma model_fields [simp]:
  "model_field HighInterestTripleSlopeModel" "model_field LowInterestTripleSlopeModel"
  by (simp_all add: model_field_def)

lemma deploy_vault_configs:
  assumes "forS (\<lambda>(S, M). deploy_vault_config S M) ps H s = (Inr u, t)"
    and "\<forall>(S, M) \<in> set ps. model_field M"
  shows "\<exists>as. length as = length ps \<and> config_of H t = (config_of H s)\<lparr>Vaults :=
    Vaults (config_of H s) @ map2 (\<lambda>(S, M) a. new_vault_entry S a (M (config_of H s))) ps as\<rparr>"
  using assms
proof (induction ps arbitrary: s)
  case Nil
  then show ?case by (auto simp: retS_Inr)
next
  case (Cons p ps)
  obtain S M where p: "p = (S, M)" by (cases p)
  from Cons.prems(1) obtain s' x where step: "deploy_vault_config S M H s = (Inr x, s')"
    and rest: "forS (\<lambda>(S, M). deploy_vault_config S M) ps H s' = (Inr u, t)"
    by (auto simp: p thenS_Inr)
  from deploy_vault_config_Inr [OF step] obtain a where
    s': "config_of H s' = (config_of H s)\<lparr>Vaults :=
      Vaults (config_of H s) @ [new_vault_entry S a (M (config_of H s))]\<rparr>" by blast
  from Cons.IH [OF rest] Cons.prems(2) obtain as where as: "length as = length ps"
    "config_of H t = (config_of H s')\<lparr>Vaults :=
      Vaults (config_of H s') @ map2 (\<lambda>(S, M) a. new_vault_entry S a (M (config_of H s'))) ps as\<rparr>"
    by auto
  have "map2 (\<lambda>(S, M) a. new_vault_entry S a (M (config_of H s'))) ps as =
      map2 (\<lambda>(S, M) a. new_vault_entry S a (M (config_of H s))) ps as"
    using Cons.prems(2) by (auto simp: s' model_field_def dest!: set_zip_leftD)
  with as s' show ?case by (intro exI [of _ "a # as"]) (simp add: p)
qed

text \<open>
  What 011 leaves at the entry of one vault, relative to the configuration \<open>c\<close> before: the entry is
  completed with the two addresses, and FairLaunch has a pool for each of them on record.
\<close>

definition vault_opened :: "config \<Rightarrow> config \<Rightarrow> nat \<Rightarrow> string \<Rightarrow> string \<Rightarrow> bool" where
  "vault_opened c c' i NAME base \<longleftrightarrow> (\<exists>d v n m.
     Vaults c' ! i = completed_entry NAME v (token c base) d (Vaults c ! i) \<and>
     \<lparr>pool_id = n, stakingToken = ''debt'' @ vault_symbol (Vaults c ! i), pool_address = d\<rparr>
       \<in> set (FairLaunch_pools c') \<and>
     \<lparr>pool_id = m, stakingToken = vault_symbol (Vaults c ! i), pool_address = v\<rparr>
       \<in> set (FairLaunch_pools c'))"

lemma vault_opened_mono:
  "vault_opened c c' i N b \<Longrightarrow> Vaults c'' ! i = Vaults c' ! i \<Longrightarrow>
   set (FairLaunch_pools c') \<subseteq> set (FairLaunch_pools c'') \<Longrightarrow> vault_opened c c'' i N b"
  unfolding vault_opened_def by (elim exE conjE, intro exI conjI) (auto dest: subsetD)

lemma deploy_vault_opened:
  assumes run: "deploy_vault i N ad ao b H s = (Inr u, t)"
    and distinct: "distinct (map vault_symbol (Vaults (config_of H s)))"
  shows "vault_opened (config_of H s) (config_of H t) i N b \<and>
    map vault_symbol (Vaults (config_of H t)) = map vault_symbol (Vaults (config_of H s)) \<and>
    (\<forall>j < length (Vaults (config_of H s)). j \<noteq> i \<longrightarrow>
       Vaults (config_of H t) ! j = Vaults (config_of H s) ! j) \<and>
    set (FairLaunch_pools (config_of H s)) \<subseteq> set (FairLaunch_pools (config_of H t)) \<and>
    Tokens (config_of H t) = Tokens (config_of H s) \<and> i < length (Vaults (config_of H s))"
proof -
  let ?c = "config_of H s"
  obtain d v n m where i: "i < length (Vaults ?c)"
    and t: "config_of H t = ?c\<lparr>
       FairLaunch_pools := FairLaunch_pools ?c @
         [\<lparr>pool_id = n - 1, stakingToken = ''debt'' @ vault_symbol (Vaults ?c ! i), pool_address = d\<rparr>,
          \<lparr>pool_id = m - 1, stakingToken = vault_symbol (Vaults ?c ! i), pool_address = v\<rparr>],
       Vaults := map (\<lambda>e. if vault_symbol e = vault_symbol (Vaults ?c ! i)
           then completed_entry N v (token ?c b) d e else e) (Vaults ?c)\<rparr>"
    using run by (rule deploy_vault_Inr)
  have other: "vault_symbol (Vaults ?c ! j) \<noteq> vault_symbol (Vaults ?c ! i)"
    if "j < length (Vaults ?c)" "j \<noteq> i" for j
    using distinct i that by (auto simp: distinct_conv_nth)
  have "vault_opened ?c (config_of H t) i N b"
    unfolding vault_opened_def t
    by (rule exI [of _ d], rule exI [of _ v], rule exI [of _ "n - 1"], rule exI [of _ "m - 1"])
       (simp add: i)
  with i other show ?thesis by (auto simp: t completed_entry_def o_def if_distrib cong: if_cong)
qed

lemma deploy_vaults:
  assumes "forS (\<lambda>(i, N, ad, ao, b). deploy_vault i N ad ao b) ps H s = (Inr u, t)"
    and "distinct (map fst ps)" "distinct (map vault_symbol (Vaults (config_of H s)))"
  shows "(\<forall>(i, N, ad, ao, b) \<in> set ps. i < length (Vaults (config_of H s)) \<and>
       vault_opened (config_of H s) (config_of H t) i N b) \<and>
    map vault_symbol (Vaults (config_of H t)) = map vault_symbol (Vaults (config_of H s)) \<and>
    (\<forall>j < length (Vaults (config_of H s)). j \<notin> fst ` set ps \<longrightarrow>
       Vaults (config_of H t) ! j = Vaults (config_of H s) ! j) \<and>
    set (FairLaunch_pools (config_of H s)) \<subseteq> set (FairLaunch_pools (config_of H t))"
  using assms
proof (induction ps arbitrary: s)
  case Nil
  then show ?case by (auto simp: retS_Inr)
next
  case (Cons p ps)
  obtain i N ad ao b where p: "p = (i, N, ad, ao, b)" by (cases p)
  from Cons.prems(1) obtain s' x where step: "deploy_vault i N ad ao b H s = (Inr x, s')"
    and rest: "forS (\<lambda>(i, N, ad, ao, b). deploy_vault i N ad ao b) ps H s' = (Inr u, t)"
    by (auto simp: p thenS_Inr)
  note one = deploy_vault_opened [OF step Cons.prems(3)]
  then have len: "length (Vaults (config_of H s')) = length (Vaults (config_of H s))"
    by (metis length_map)
  have ih: "(\<forall>(i, N, ad, ao, b) \<in> set ps. i < length (Vaults (config_of H s')) \<and>
       vault_opened (config_of H s') (config_of H t) i N b) \<and>
    map vault_symbol (Vaults (config_of H t)) = map vault_symbol (Vaults (config_of H s')) \<and>
    (\<forall>j < length (Vaults (config_of H s')). j \<notin> fst ` set ps \<longrightarrow>
       Vaults (config_of H t) ! j = Vaults (config_of H s') ! j) \<and>
    set (FairLaunch_pools (config_of H s')) \<subseteq> set (FairLaunch_pools (config_of H t))"
    using Cons.IH [OF rest] Cons.prems(2,3) one by simp
  have "i \<notin> fst ` set ps" using Cons.prems(2) by (auto simp: p)
  with ih one len have "Vaults (config_of H t) ! i = Vaults (config_of H s') ! i" by simp
  with ih one have first: "vault_opened (config_of H s) (config_of H t) i N b"
    by (blast intro: vault_opened_mono)
  have "j < length (Vaults (config_of H s)) \<and> vault_opened (config_of H s) (config_of H t) j N' b'"
    if "(j, N', ad', ao', b') \<in> set ps" for j N' ad' ao' b'
  proof -
    have "j \<noteq> i" using that Cons.prems(2) by (force simp: p)
    moreover from ih that have j: "j < length (Vaults (config_of H s))"
        and o: "vault_opened (config_of H s') (config_of H t) j N' b'" by (auto simp: len)
    ultimately have "Vaults (config_of H s') ! j = Vaults (config_of H s) ! j" using one by simp
    then show ?thesis using j o one by (simp add: vault_opened_def token_def)
  qed
  with first ih one len show ?case by (auto simp: p)
qed

lemma plan_lengths [simp]: "length vault_configs_plan = 8" "length vaults_plan = 8"
  by (simp_all add: vault_configs_plan_def vaults_plan_def)

lemma vault_configs_models: "\<forall>(S, M) \<in> set vault_configs_plan. model_field M"
  by (simp add: vault_configs_plan_def)

lemma vault_configs_distinct: "distinct (map fst vault_configs_plan)"
  by (simp add: vault_configs_plan_def)

lemma vaults_plan_distinct: "distinct (map fst vaults_plan)"
  by (simp add: vaults_plan_def)

lemma vaults_plan_index: "i \<in> {1..8} \<Longrightarrow> fst (vaults_plan ! (i - 1)) = i"
proof -
  assume "i \<in> {1..8}"
  then have "i \<in> set [1 ..< 9]" by auto
  moreover have "\<forall>i \<in> set [1 ..< 9]. fst (vaults_plan ! (i - 1)) = i" by code_simp
  ultimately show ?thesis by blast
qed

text \<open>
  C29: Opening the vaults: when the eight scripts 010 and then the eight scripts 011 all return,
  starting from a file with one placeholder vault whose symbol is not one of theirs, the file has
  nine vaults.  Vault \<open>i\<close> of \<open>1..8\<close> has the symbol and interest model of the \<open>i\<close>-th 010 script and
  the name, token, debt token and address recorded by the \<open>i\<close>-th 011 script (so the indices the 011
  scripts hard-code are right), the placeholder is unchanged, and each vault has a FairLaunch pool
  on record for its debt token and one for its own token.
\<close>

theorem vault_scripts_open_all:
  assumes run: "thenS run_vault_configs run_vaults H s = (Inr u, t)"
    and placeholder: "Vaults (config_of H s) = [v0]" "vault_symbol v0 \<notin> fst ` set vault_configs_plan"
  shows "length (Vaults (config_of H t)) = 9 \<and> Vaults (config_of H t) ! 0 = v0 \<and>
    (\<forall>i \<in> {1..8}. let e = Vaults (config_of H t) ! i; SM = vault_configs_plan ! (i - 1);
         (idx, N, ad, ao, b) = vaults_plan ! (i - 1) in
       idx = i \<and> vault_symbol e = fst SM \<and> vault_tripleSlopeModel e = snd SM (config_of H s) \<and>
       vault_name e = N \<and> vault_baseToken e = token (config_of H s) b \<and>
       (\<exists>n m. \<lparr>pool_id = n, stakingToken = ''debt'' @ fst SM, pool_address = vault_debtToken e\<rparr>
           \<in> set (FairLaunch_pools (config_of H t)) \<and>
         \<lparr>pool_id = m, stakingToken = fst SM, pool_address = vault_address e\<rparr>
           \<in> set (FairLaunch_pools (config_of H t))))"
proof -
  let ?c = "config_of H s" and ?P = vault_configs_plan
  from run obtain s' x where configs: "run_vault_configs H s = (Inr x, s')"
    and vaults: "run_vaults H s' = (Inr u, t)" by (auto simp: thenS_Inr)
  let ?new = "\<lambda>(S, M) a. new_vault_entry S a (M ?c)"
  obtain as where as: "length as = 8" "config_of H s' = ?c\<lparr>Vaults := v0 # map2 ?new ?P as\<rparr>"
    using deploy_vault_configs [OF configs [unfolded run_vault_configs_plan]] vault_configs_models
    by (auto simp: placeholder(1))
  have len: "length (Vaults (config_of H s')) = 9" using as by simp
  have entry: "Vaults (config_of H s') ! i = ?new (?P ! (i - 1)) (as ! (i - 1))" if "i \<in> {1..8}" for i
    using that as by (auto simp: nth_Cons' split: prod.splits)
  have "map vault_symbol (map2 ?new ?P as) = map fst ?P"
    using as(1) by (intro nth_equalityI) (auto simp: new_vault_entry_def split: prod.splits)
  then have "distinct (map vault_symbol (Vaults (config_of H s')))"
    using placeholder(2) vault_configs_distinct by (simp add: as(2))
  note all = deploy_vaults [OF vaults [unfolded run_vaults_plan] vaults_plan_distinct this]
  have "length (Vaults (config_of H t)) = 9" using all len by (metis length_map)
  moreover have "Vaults (config_of H t) ! 0 = v0"
    using all by (simp add: as(2) vaults_plan_def)
  moreover have "let e = Vaults (config_of H t) ! i; SM = ?P ! (i - 1);
         (idx, N, ad, ao, b) = vaults_plan ! (i - 1) in
       idx = i \<and> vault_symbol e = fst SM \<and> vault_tripleSlopeModel e = snd SM ?c \<and>
       vault_name e = N \<and> vault_baseToken e = token ?c b \<and>
       (\<exists>n m. \<lparr>pool_id = n, stakingToken = ''debt'' @ fst SM, pool_address = vault_debtToken e\<rparr>
           \<in> set (FairLaunch_pools (config_of H t)) \<and>
         \<lparr>pool_id = m, stakingToken = fst SM, pool_address = vault_address e\<rparr>
           \<in> set (FairLaunch_pools (config_of H t)))"
    if i: "i \<in> {1..8}" for i
  proof -
    obtain N ad ao b where row: "vaults_plan ! (i - 1) = (i, N, ad, ao, b)"
      using vaults_plan_index [OF i] by (cases "vaults_plan ! (i - 1)") auto
    have "vaults_plan ! (i - 1) \<in> set vaults_plan" by (rule nth_mem) (use i in auto)
    then have "(i, N, ad, ao, b) \<in> set vaults_plan" by (simp only: row)
    with all have "vault_opened (config_of H s') (config_of H t) i N b" by fast
    then show ?thesis
      using entry [OF i] row by (cases "?P ! (i - 1)")
        (auto simp: vault_opened_def Let_def new_vault_entry_def completed_entry_def token_def as(2))
  qed
  ultimately show ?thesis by blast
qed

section \<open>The scripts return\<close>

lemma goes_deploy_vault_config:
  assumes "obliging H"
  shows "goes H (\<lambda>_ t. length (Vaults (config_of H t)) = Suc (length (Vaults (config_of H s))))
    (deploy_vault_config S M) s"
  unfolding deploy_vault_config_def
  by (intro goes_intros assms) (auto simp: answer_ok_def)

lemma goes_toNumber: "\<bar>n\<bar> < 2 ^ 53 \<Longrightarrow> Q n s \<Longrightarrow> goes H Q (toNumber n) s"
  by (simp add: toNumber_def goes_ret)

lemma goes_add_pool:
  assumes "obliging H"
    and "\<And>k t. \<bar>k\<bar> < 2 ^ 53 \<Longrightarrow> config_of H t = config_of H s \<Longrightarrow> Q k t"
  shows "goes H Q (add_fair_launch_pool FL symb alloc tok) s"
proof -
  have "goes H Q (bindS (askBig (View FL ''poolLength()'' [])) (\<lambda>n. retS (n - 1))) t"
    if t: "config_of H t = config_of H s" for t
  proof -
    have "goes H (\<lambda>v u. \<exists>n. v = Big n \<and> 0 \<le> n \<and> n < 2 ^ 53 \<and> config_of H u = config_of H s)
        (ask (View FL ''poolLength()'' [])) t"
      by (rule goes_ask [OF assms(1)]) (auto simp: answer_ok_def t)
    then show ?thesis
      unfolding askBig_def by (intro goes_bind) (erule goes_mono, auto intro!: goes_ret goes_bind assms(2))
  qed
  then show ?thesis
    unfolding add_fair_launch_pool_def by (intro goes_then goes_askUnit assms(1)) auto
qed

lemma goes_setVault:
  "Q () (set_config H ((config_of H s)\<lparr>Vaults := (Vaults (config_of H s))[i := f (Vaults (config_of H s) ! i)]\<rparr>) s) \<Longrightarrow>
   goes H Q (setVault i f) s"
  unfolding setVault_def by (rule goes_modifyConfig)

lemma goes_pushPool:
  "Q () (set_config H ((config_of H s)\<lparr>FairLaunch_pools := FairLaunch_pools (config_of H s) @ [p]\<rparr>) s) \<Longrightarrow>
   goes H Q (pushPool p) s"
  unfolding pushPool_def by (rule goes_modifyConfig)

lemma goes_record_step:
  assumes "obliging H" "i < n" "length (Vaults (config_of H s)) = n"
  shows "goes H (\<lambda>_ t. length (Vaults (config_of H t)) = n) (record_step SYM f i) s"
  unfolding record_step_def
  by (rule goes_bind, rule goes_vaultAt)
     (use assms in \<open>auto intro!: goes_then goes_setVault goes_write goes_ret\<close>)

lemma goes_record_vault:
  assumes "obliging H" "length (Vaults (config_of H s)) = n"
  shows "goes H (\<lambda>_ t. length (Vaults (config_of H t)) = n) (record_vault SYM f) s"
proof -
  have "goes H (\<lambda>_ t. length (Vaults (config_of H t)) = n) (forS (record_step SYM f) [0 ..< n]) s"
    by (rule goes_forS [where I = "\<lambda>t. length (Vaults (config_of H t)) = n"])
       (use assms in \<open>auto intro!: goes_record_step\<close>)
  then show ?thesis
    unfolding record_vault_def
    by (intro goes_bind goes_getConfig) (simp add: assms(2))
qed

lemma goes_deploy_vault:
  assumes "obliging H" "length (Vaults (config_of H s)) = n" "i < n"
  shows "goes H (\<lambda>_ t. length (Vaults (config_of H t)) = n) (deploy_vault i N ad ao b) s"
  unfolding deploy_vault_def Let_def
  by (intro goes_bind goes_then goes_getConfig goes_vaultAt goes_askAddress goes_askUnit goes_add_pool
      goes_toNumber goes_pushPool goes_record_vault assms(1))
     (use assms in \<open>auto simp: answer_ok_def\<close>)

lemma goes_vault_configs:
  assumes "obliging H"
  shows "goes H (\<lambda>_ t. length (Vaults (config_of H t)) = length (Vaults (config_of H s)) + length ps)
    (forS (\<lambda>(S, M). deploy_vault_config S M) ps) s"
proof (induction ps arbitrary: s)
  case (Cons p ps)
  obtain S M where p: "p = (S, M)" by (cases p)
  show ?case
    unfolding p forS.simps prod.case
    by (rule goes_then, rule goes_mono [OF goes_deploy_vault_config [OF assms]],
        rule goes_mono [OF Cons.IH]) simp
qed (simp add: goes_ret)

lemma goes_vault_scripts:
  assumes "obliging H" and "length (Vaults (config_of H s)) = 1"
  shows "goes H (\<lambda>_ t. length (Vaults (config_of H t)) = 9) (thenS run_vault_configs run_vaults) s"
proof -
  have vaults: "goes H (\<lambda>_ t. length (Vaults (config_of H t)) = 9) run_vaults t"
    if "length (Vaults (config_of H t)) = 9" for t
    unfolding run_vaults_plan
    by (rule goes_forS [where I = "\<lambda>t. length (Vaults (config_of H t)) = 9"])
       (use that in \<open>auto simp: vaults_plan_def intro!: goes_deploy_vault [OF assms(1)]\<close>)
  show ?thesis
    unfolding run_vault_configs_plan
    by (rule goes_then, rule goes_mono [OF goes_vault_configs [OF assms(1)]], rule vaults)
       (simp add: assms(2))
qed

theorem vault_scripts_open_all_witness:
  "\<exists>t. thenS run_vault_configs run_vaults sample_hre sample_js = (Inr (), t) \<and>
     length (Vaults (config_of sample_hre t)) = 9 \<and>
     vault_symbol (Vaults (config_of sample_hre t) ! 3) = ''ibBNB''"
proof -
  have one: "Vaults (config_of sample_hre sample_js) = Vaults sample_config"
    by (simp add: sample_js_def config_of_def sample_hre_def)
  then have "goes sample_hre (\<lambda>_ t. length (Vaults (config_of sample_hre t)) = 9) (thenS run_vault_configs run_vaults) sample_js"
    by (intro goes_vault_scripts) (simp_all add: sample_config_def)
  then obtain t where t: "thenS run_vault_configs run_vaults sample_hre sample_js = (Inr (), t)"
    by (auto simp: goes_def)
  have v0: "Vaults (config_of sample_hre sample_js) = [Vaults sample_config ! 0]"
      "vault_symbol (Vaults sample_config ! 0) \<notin> fst ` set vault_configs_plan"
    by (simp_all add: one sample_config_def vault_configs_plan_def)
  have row: "vaults_plan ! (3 - 1) = (3, ''Interest Bearing WBNB'', 200, 300, ''WBNB'')"
    by (simp add: vaults_plan_def)
  note all = vault_scripts_open_all [OF t v0, unfolded Let_def]
  have "vault_symbol (Vaults (config_of sample_hre t) ! 3) = fst (vault_configs_plan ! (3 - 1))"
    using all [THEN conjunct2, THEN conjunct2, THEN bspec, of 3] by (simp only: row prod.case) simp
  then show ?thesis using t all by (simp add: vault_configs_plan_def)
qed

text \<open>
  The HUSKI vault cannot be opened from the shipped files: \<open>011-1\<close> reads
  \<open>config.Tokens.HUSKY\<close> while both files call the token \<open>HUSKI\<close>.  When the key is missing and
  the deployment of a proxy rejects an undefined argument (as ethers does), the script stops with an
  error.
\<close>

theorem deploy_vault_huski_fails:
  assumes rejects: "\<And>name args b w. Undef \<in> set args \<Longrightarrow> \<exists>e. fst (perform H (DeployProxy name args b) w) = Inl e"
    and missing: "Tokens (config_of H s) ''HUSKY'' = None"
  shows "\<exists>e. fst (deploy_vault_huski H s) = Inl e"
proof (cases "fst (deploy_vault_huski H s)")
  case (Inr u)
  then have "deploy_vault 1 ''Interest Bearing HUSKI'' 0 0 ''HUSKY'' H s = (Inr u, snd (deploy_vault_huski H s))"
    by (metis deploy_vault_huski_def prod.collapse)
  then obtain d v n m es s' where
      "answers (vault_requests (config_of H s) (Vaults (config_of H s) ! 1) ''Interest Bearing HUSKI'' 0 0
        Undef d v n m) es" "steps H s es s'"
    using missing by (elim deploy_vault_Inr) (simp add: token_def)
  then obtain args where es: "exchange H (world s) es (world s')" and
    args: "Undef \<in> set args" "(DeployProxy ''Vault'' args True, Inr (Str v)) \<in> set es"
    by (auto simp: steps_def vault_requests_def Let_def split: list.splits)
  from exchange_answer [OF es args(2)] obtain w where
    "fst (perform H (DeployProxy ''Vault'' args True) w) = Inr (Str v)" ..
  with rejects [OF args(1)] show ?thesis by (metis Inl_Inr_False)
qed simp

definition strict_hre :: "nat hre" where
  "strict_hre = sample_hre\<lparr>perform := (\<lambda>r n. case r of
     DeployProxy _ args _ \<Rightarrow> if Undef \<in> set args then (Inl (Throw ''invalid address''), n) else sample_perform r n
   | _ \<Rightarrow> sample_perform r n)\<rparr>"

theorem deploy_vault_huski_fails_witness:
  "\<exists>e. fst (deploy_vault_huski strict_hre
     (sample_js\<lparr>TestnetConfig := sample_config\<lparr>Tokens := [''HUSKI'' \<mapsto> ''K'']\<rparr>\<rparr>)) = Inl e"
  by (rule deploy_vault_huski_fails)
     (simp_all add: strict_hre_def config_of_def sample_hre_def)

end
