(* ===== verification/Fair_Launch.thy ===== *)
theory Fair_Launch
  imports Solidity
begin

text \<open>
  \<open>contracts/6/token/FairLaunch.sol\<close>: the staking contract that mints HUSKY to the stakers of its
  pools.  The tokens and the badge contracts it calls, and OpenZeppelin's \<open>Ownable\<close> and \<open>SafeMath\<close>, are
  the fields of the parameter \<open>fl_ext\<close>, which act on a world \<open>'x\<close>; these calls do not change the
  contract's own storage.  A function that reverts yields the error and no state.
\<close>

section \<open>State\<close>

record user_info =
  user_amount :: nat
  rewardDebt :: nat
  bonusDebt :: nat
  fundedBy :: address
  lastClaimBlock :: nat

record pool_info =
  pool_symbol :: string
  stakeToken :: address
  allocPoint :: nat
  lastRewardBlock :: nat
  accHuskyPerShare :: nat
  accHuskyPerShareTilBonusEnd :: nat

record fair_launch =
  devaddr :: address
  huskyPerBlock :: nat
  bonusMultiplier :: nat
  bonusEndBlock :: nat
  bonusLockUpBps :: nat
  lastMultiplier :: nat
  badgeRelayer :: address
  badgePoints :: address
  complexOracle :: address
  poolInfo :: "pool_info list"
  userInfo :: "nat \<Rightarrow> address \<Rightarrow> user_info"
  totalAllocPoint :: nat
  startBlock :: nat

record 'x fl_ext =
  fl_math :: safe_math
  onlyOwner :: "address \<Rightarrow> 'x \<Rightarrow> bool"
  balanceOf :: "address \<Rightarrow> address \<Rightarrow> 'x \<Rightarrow> nat"
  husky_balanceOf :: "address \<Rightarrow> 'x \<Rightarrow> nat"
  husky_mint :: "address \<Rightarrow> nat \<Rightarrow> 'x \<Rightarrow> 'x result"
  husky_lock :: "address \<Rightarrow> nat \<Rightarrow> 'x \<Rightarrow> 'x result"
  husky_transfer :: "address \<Rightarrow> nat \<Rightarrow> 'x \<Rightarrow> (bool \<times> 'x) result"
  husky_manualMint :: "address \<Rightarrow> nat \<Rightarrow> 'x \<Rightarrow> 'x result"
  husky_lockToOwner :: "address \<Rightarrow> nat \<Rightarrow> 'x \<Rightarrow> 'x result"
  safeTransferFrom :: "address \<Rightarrow> address \<Rightarrow> address \<Rightarrow> nat \<Rightarrow> 'x \<Rightarrow> 'x result"
  safeTransfer :: "address \<Rightarrow> address \<Rightarrow> nat \<Rightarrow> 'x \<Rightarrow> 'x result"
  oracle_getPrice :: "address \<Rightarrow> address \<Rightarrow> 'x \<Rightarrow> nat result"
  badge_mint :: "address \<Rightarrow> address \<Rightarrow> nat \<Rightarrow> 'x \<Rightarrow> 'x result"

type_synonym 'x fl_state = "fair_launch \<times> 'x"

definition fl_constructor :: "address \<Rightarrow> nat \<Rightarrow> nat \<Rightarrow> nat \<Rightarrow> nat \<Rightarrow> fair_launch" where
  "fl_constructor dev perBlock start lockupBps endBlock =
     \<lparr>devaddr = dev, huskyPerBlock = perBlock, bonusMultiplier = 0, bonusEndBlock = endBlock,
      bonusLockUpBps = lockupBps, lastMultiplier = 0, badgeRelayer = zero_address,
      badgePoints = zero_address, complexOracle = zero_address, poolInfo = [],
      userInfo = (\<lambda>_ _. \<lparr>user_amount = 0, rewardDebt = 0, bonusDebt = 0, fundedBy = zero_address,
        lastClaimBlock = 0\<rparr>),
      totalAllocPoint = 0, startBlock = start\<rparr>"

section \<open>Setters\<close>

definition setDev :: "msg \<Rightarrow> address \<Rightarrow> fair_launch \<Rightarrow> fair_launch result" where
  "setDev m dev s = bindE (require (sender m = devaddr s) ''dev: wut?'') (\<lambda>_. Inr (s\<lparr>devaddr := dev\<rparr>))"

definition owner_only :: "'x fl_ext \<Rightarrow> msg \<Rightarrow> 'x \<Rightarrow> unit result" where
  "owner_only X m x = require (onlyOwner X (sender m) x) ''Ownable: caller is not the owner''"

definition setHuskyPerBlock :: "'x fl_ext \<Rightarrow> msg \<Rightarrow> nat \<Rightarrow> 'x fl_state \<Rightarrow> 'x fl_state result" where
  "setHuskyPerBlock X m n = (\<lambda>(s, x). bindE (owner_only X m x) (\<lambda>_. Inr (s\<lparr>huskyPerBlock := n\<rparr>, x)))"

definition setBadgeRelayer :: "'x fl_ext \<Rightarrow> msg \<Rightarrow> address \<Rightarrow> 'x fl_state \<Rightarrow> 'x fl_state result" where
  "setBadgeRelayer X m a = (\<lambda>(s, x). bindE (owner_only X m x) (\<lambda>_. Inr (s\<lparr>badgeRelayer := a\<rparr>, x)))"

definition setBadgePoints ::
  "'x fl_ext \<Rightarrow> msg \<Rightarrow> address \<Rightarrow> address \<Rightarrow> 'x fl_state \<Rightarrow> 'x fl_state result" where
  "setBadgePoints X m b c = (\<lambda>(s, x). bindE (owner_only X m x)
     (\<lambda>_. Inr (s\<lparr>badgePoints := b, complexOracle := c\<rparr>, x)))"

definition setBonus :: "'x fl_ext \<Rightarrow> msg \<Rightarrow> nat \<Rightarrow> nat \<Rightarrow> nat \<Rightarrow> 'x fl_state \<Rightarrow> 'x fl_state result" where
  "setBonus X m multiplier endBlock lockUpBps = (\<lambda>(s, x).
     bindE (owner_only X m x) (\<lambda>_.
     bindE (require (endBlock > block_number m) ''setBonus: bad bonusEndBlock'') (\<lambda>_.
     bindE (require (multiplier > 1) ''setBonus: bad bonusMultiplier'') (\<lambda>_.
     Inr (s\<lparr>bonusMultiplier := multiplier, bonusEndBlock := endBlock, bonusLockUpBps := lockUpBps\<rparr>, x)))))"

section \<open>Rewards\<close>

definition getMultiplier :: "safe_math \<Rightarrow> fair_launch \<Rightarrow> nat \<Rightarrow> nat \<Rightarrow> nat result" where
  "getMultiplier M s lastBlock current =
     (if current \<le> bonusEndBlock s
      then bindE (sm_sub M current lastBlock) (\<lambda>d. sm_mul M d (bonusMultiplier s))
      else if lastBlock \<ge> bonusEndBlock s then sm_sub M current lastBlock
      else bindE (sm_sub M (bonusEndBlock s) lastBlock) (\<lambda>d.
           bindE (sm_mul M d (bonusMultiplier s)) (\<lambda>b.
           bindE (sm_sub M current (bonusEndBlock s)) (\<lambda>r. sm_add M b r))))"

text \<open>\<open>a.mul(b).mul(c).div(d)\<close> and \<open>a.mul(b).div(c)\<close>.\<close>

definition mul_div :: "safe_math \<Rightarrow> nat \<Rightarrow> nat \<Rightarrow> nat \<Rightarrow> nat result" where
  "mul_div M a b c = bindE (sm_mul M a b) (\<lambda>p. sm_div M p c)"

definition mul_mul_div :: "safe_math \<Rightarrow> nat \<Rightarrow> nat \<Rightarrow> nat \<Rightarrow> nat \<Rightarrow> nat result" where
  "mul_mul_div M a b c d = bindE (sm_mul M a b) (\<lambda>p. mul_div M p c d)"

definition setPoolInfo :: "nat \<Rightarrow> (pool_info \<Rightarrow> pool_info) \<Rightarrow> fair_launch \<Rightarrow> fair_launch" where
  "setPoolInfo pid f s = s\<lparr>poolInfo := (poolInfo s)[pid := f (poolInfo s ! pid)]\<rparr>"

definition poolAt :: "fair_launch \<Rightarrow> nat \<Rightarrow> pool_info result" where
  "poolAt s pid = (if pid < length (poolInfo s) then Inr (poolInfo s ! pid)
     else Inl (Revert ''invalid opcode''))"

text \<open>The part of \<open>updatePool\<close> after the two early returns.\<close>

definition mint_rewards :: "'x fl_ext \<Rightarrow> msg \<Rightarrow> nat \<Rightarrow> nat \<Rightarrow> 'x fl_state \<Rightarrow> 'x fl_state result" where
  "mint_rewards X m pid lpSupply = (\<lambda>(s, x).
     let M = fl_math X; pool = poolInfo s ! pid; now = block_number m in
     bindE (getMultiplier M s (lastRewardBlock pool) now) (\<lambda>multiplier.
     bindE (mul_mul_div M multiplier (huskyPerBlock s) (allocPoint pool) (totalAllocPoint s)) (\<lambda>huskyReward.
     bindE (bindE (sm_div M huskyReward 10) (\<lambda>d. husky_mint X (devaddr s) d x)) (\<lambda>x.
     bindE (husky_mint X (this m) huskyReward x) (\<lambda>x.
     bindE (bindE (mul_div M huskyReward (10 ^ 12) lpSupply) (sm_add M (accHuskyPerShare pool))) (\<lambda>acc.
     bindE (if now \<le> bonusEndBlock s
            then bindE (mul_div M huskyReward (bonusLockUpBps s) 100000) (\<lambda>l.
                 bindE (husky_lock X (devaddr s) l x) (\<lambda>x. Inr (acc, x)))
            else Inr (accHuskyPerShareTilBonusEnd pool, x)) (\<lambda>(til, x).
     bindE (if now > bonusEndBlock s \<and> lastRewardBlock pool < bonusEndBlock s
            then bindE (sm_sub M (bonusEndBlock s) (lastRewardBlock pool)) (\<lambda>d.
                 bindE (sm_mul M d (bonusMultiplier s)) (\<lambda>b.
                 bindE (mul_mul_div M b (huskyPerBlock s) (allocPoint pool) (totalAllocPoint s)) (\<lambda>portion.
                 bindE (mul_div M portion (bonusLockUpBps s) 100000) (\<lambda>l.
                 bindE (husky_lock X (devaddr s) l x) (\<lambda>x.
                 bindE (bindE (mul_div M portion (10 ^ 12) lpSupply) (sm_add M til)) (\<lambda>til. Inr (til, x)))))))
            else Inr (til, x)) (\<lambda>(til, x).
     Inr ((setPoolInfo pid (\<lambda>p. p\<lparr>accHuskyPerShare := acc, accHuskyPerShareTilBonusEnd := til,
             lastRewardBlock := now\<rparr>) s)\<lparr>lastMultiplier := multiplier\<rparr>, x)))))))))"

definition updatePool :: "'x fl_ext \<Rightarrow> msg \<Rightarrow> nat \<Rightarrow> 'x fl_state \<Rightarrow> 'x fl_state result" where
  "updatePool X m pid = (\<lambda>(s, x).
     bindE (poolAt s pid) (\<lambda>pool.
     if block_number m \<le> lastRewardBlock pool then Inr (s, x)
     else let lpSupply = balanceOf X (stakeToken pool) (this m) x in
       if lpSupply = 0
       then Inr (setPoolInfo pid (\<lambda>p. p\<lparr>lastRewardBlock := block_number m\<rparr>) s, x)
       else mint_rewards X m pid lpSupply (s, x)))"

definition massUpdatePools :: "'x fl_ext \<Rightarrow> msg \<Rightarrow> 'x fl_state \<Rightarrow> 'x fl_state result" where
  "massUpdatePools X m = (\<lambda>(s, x).
     foldE (\<lambda>st pid. updatePool X m pid st) (s, x) [0 ..< length (poolInfo s)])"

section \<open>Pools\<close>

definition isDuplicatedPool :: "fair_launch \<Rightarrow> address \<Rightarrow> bool" where
  "isDuplicatedPool s tok = list_ex (\<lambda>p. stakeToken p = tok) (poolInfo s)"

definition poolLength :: "fair_launch \<Rightarrow> nat" where
  "poolLength s = length (poolInfo s)"

definition new_pool :: "msg \<Rightarrow> fair_launch \<Rightarrow> string \<Rightarrow> nat \<Rightarrow> address \<Rightarrow> pool_info" where
  "new_pool m s symb alloc tok =
     \<lparr>pool_symbol = symb, stakeToken = tok, allocPoint = alloc,
      lastRewardBlock = (if block_number m > startBlock s then block_number m else startBlock s),
      accHuskyPerShare = 0, accHuskyPerShareTilBonusEnd = 0\<rparr>"

definition addPool ::
  "'x fl_ext \<Rightarrow> msg \<Rightarrow> string \<Rightarrow> nat \<Rightarrow> address \<Rightarrow> bool \<Rightarrow> 'x fl_state \<Rightarrow> 'x fl_state result" where
  "addPool X m symb alloc tok withUpdate = (\<lambda>(s, x).
     bindE (owner_only X m x) (\<lambda>_.
     bindE (if withUpdate then massUpdatePools X m (s, x) else Inr (s, x)) (\<lambda>(s, x).
     bindE (require (tok \<noteq> zero_address) ''add: not stakeToken addr'') (\<lambda>_.
     bindE (require (\<not> isDuplicatedPool s tok) ''add: stakeToken dup'') (\<lambda>_.
     bindE (sm_add (fl_math X) (totalAllocPoint s) alloc) (\<lambda>total.
     Inr (s\<lparr>totalAllocPoint := total, poolInfo := poolInfo s @ [new_pool m s symb alloc tok]\<rparr>, x)))))))"

definition setPool :: "'x fl_ext \<Rightarrow> msg \<Rightarrow> nat \<Rightarrow> nat \<Rightarrow> bool \<Rightarrow> 'x fl_state \<Rightarrow> 'x fl_state result" where
  "setPool X m pid alloc withUpdate = (\<lambda>(s, x).
     bindE (owner_only X m x) (\<lambda>_.
     bindE (massUpdatePools X m (s, x)) (\<lambda>(s, x).
     bindE (poolAt s pid) (\<lambda>pool.
     bindE (bindE (sm_sub (fl_math X) (totalAllocPoint s) (allocPoint pool)) (\<lambda>t. sm_add (fl_math X) t alloc))
       (\<lambda>total. Inr ((setPoolInfo pid (\<lambda>p. p\<lparr>allocPoint := alloc\<rparr>) s)\<lparr>totalAllocPoint := total\<rparr>, x))))))"

section \<open>Stakes\<close>

definition setUserInfo :: "nat \<Rightarrow> address \<Rightarrow> (user_info \<Rightarrow> user_info) \<Rightarrow> fair_launch \<Rightarrow> fair_launch" where
  "setUserInfo pid a f s =
     s\<lparr>userInfo := (userInfo s)(pid := (userInfo s pid)(a := f (userInfo s pid a)))\<rparr>"

definition pendingHusky :: "'x fl_ext \<Rightarrow> msg \<Rightarrow> nat \<Rightarrow> address \<Rightarrow> 'x fl_state \<Rightarrow> nat result" where
  "pendingHusky X m pid a = (\<lambda>(s, x).
     let M = fl_math X; user = userInfo s pid a in
     bindE (poolAt s pid) (\<lambda>pool.
     let lpSupply = balanceOf X (stakeToken pool) (this m) x in
     bindE (if block_number m > lastRewardBlock pool \<and> lpSupply \<noteq> 0
       then bindE (getMultiplier M s (lastRewardBlock pool) (block_number m)) (\<lambda>multiplier.
            bindE (mul_mul_div M multiplier (huskyPerBlock s) (allocPoint pool) (totalAllocPoint s)) (\<lambda>reward.
            bindE (mul_div M reward (10 ^ 12) lpSupply) (sm_add M (accHuskyPerShare pool))))
       else Inr (accHuskyPerShare pool)) (\<lambda>acc.
     bindE (mul_div M (user_amount user) acc (10 ^ 12)) (\<lambda>r. sm_sub M r (rewardDebt user)))))"

definition safeHuskyTransfer :: "'x fl_ext \<Rightarrow> msg \<Rightarrow> address \<Rightarrow> nat \<Rightarrow> 'x \<Rightarrow> 'x result" where
  "safeHuskyTransfer X m to amount x =
     (let huskyBal = husky_balanceOf X (this m) x in
      bindE (husky_transfer X to (if amount > huskyBal then huskyBal else amount) x) (\<lambda>(ok, x).
      bindE (require ok ''failed to transfer HUSKY'') (\<lambda>_. Inr x)))"

definition harvest_internal :: "'x fl_ext \<Rightarrow> msg \<Rightarrow> address \<Rightarrow> nat \<Rightarrow> 'x fl_state \<Rightarrow> 'x fl_state result" where
  "harvest_internal X m to pid = (\<lambda>(s, x).
     let M = fl_math X; user = userInfo s pid to in
     bindE (poolAt s pid) (\<lambda>pool.
     bindE (require (user_amount user > 0) ''nothing to harvest'') (\<lambda>_.
     bindE (bindE (mul_div M (user_amount user) (accHuskyPerShare pool) (10 ^ 12))
       (\<lambda>r. sm_sub M r (rewardDebt user))) (\<lambda>pending.
     bindE (require (pending \<le> husky_balanceOf X (this m) x) ''wtf not enough husky'') (\<lambda>_.
     bindE (bindE (mul_div M (user_amount user) (accHuskyPerShareTilBonusEnd pool) (10 ^ 12))
       (\<lambda>r. sm_sub M r (bonusDebt user))) (\<lambda>bonus.
     bindE (safeHuskyTransfer X m to pending x) (\<lambda>x.
     bindE (bindE (mul_div M bonus (bonusLockUpBps s) 10000) (\<lambda>l. husky_lock X to l x)) (\<lambda>x.
     if complexOracle s \<noteq> zero_address \<and> badgePoints s \<noteq> zero_address
     then bindE (oracle_getPrice X (complexOracle s) (stakeToken pool) x) (\<lambda>price.
          bindE (mul_mul_div M (user_amount user) price (lastMultiplier s) (10 ^ 18)) (\<lambda>amount.
          bindE (badge_mint X (badgePoints s) to amount x) (\<lambda>x. Inr (s, x))))
     else Inr (s, x)))))))))"

text \<open>The debts of a user are set to what the stake has earned so far.\<close>

definition resetDebts :: "'x fl_ext \<Rightarrow> nat \<Rightarrow> address \<Rightarrow> fair_launch \<Rightarrow> fair_launch result" where
  "resetDebts X pid a s =
     bindE (poolAt s pid) (\<lambda>pool.
     bindE (mul_div (fl_math X) (user_amount (userInfo s pid a)) (accHuskyPerShare pool) (10 ^ 12)) (\<lambda>r.
     bindE (mul_div (fl_math X) (user_amount (userInfo s pid a)) (accHuskyPerShareTilBonusEnd pool) (10 ^ 12)) (\<lambda>b.
     Inr (setUserInfo pid a (\<lambda>u. u\<lparr>rewardDebt := r, bonusDebt := b\<rparr>) s))))"

definition fl_deposit ::
  "'x fl_ext \<Rightarrow> msg \<Rightarrow> address \<Rightarrow> nat \<Rightarrow> nat \<Rightarrow> 'x fl_state \<Rightarrow> 'x fl_state result" where
  "fl_deposit X m for pid amount = (\<lambda>(s, x).
     bindE (poolAt s pid) (\<lambda>pool.
     let funder = fundedBy (userInfo s pid for) in
     bindE (if funder \<noteq> zero_address then require (funder = sender m) ''bad sof'' else Inr ()) (\<lambda>_.
     bindE (require (stakeToken pool \<noteq> zero_address) ''deposit: not accept deposit'') (\<lambda>_.
     bindE (updatePool X m pid (s, x)) (\<lambda>(s, x).
     bindE (if user_amount (userInfo s pid for) > 0 then harvest_internal X m for pid (s, x) else Inr (s, x)) (\<lambda>(s, x).
     let s = (if fundedBy (userInfo s pid for) = zero_address
              then setUserInfo pid for (\<lambda>u. u\<lparr>fundedBy := sender m\<rparr>) s else s) in
     bindE (safeTransferFrom X (stakeToken pool) (sender m) (this m) amount x) (\<lambda>x.
     bindE (sm_add (fl_math X) (user_amount (userInfo s pid for)) amount) (\<lambda>total.
     bindE (resetDebts X pid for (setUserInfo pid for (\<lambda>u. u\<lparr>user_amount := total\<rparr>) s)) (\<lambda>s.
     Inr (s, x))))))))))"

definition withdraw_internal ::
  "'x fl_ext \<Rightarrow> msg \<Rightarrow> address \<Rightarrow> nat \<Rightarrow> nat \<Rightarrow> 'x fl_state \<Rightarrow> 'x fl_state result" where
  "withdraw_internal X m for pid amount = (\<lambda>(s, x).
     bindE (poolAt s pid) (\<lambda>pool.
     bindE (require (fundedBy (userInfo s pid for) = sender m) ''only funder'') (\<lambda>_.
     bindE (require (user_amount (userInfo s pid for) \<ge> amount) ''withdraw: not good'') (\<lambda>_.
     bindE (updatePool X m pid (s, x)) (\<lambda>(s, x).
     bindE (harvest_internal X m for pid (s, x)) (\<lambda>(s, x).
     bindE (sm_sub (fl_math X) (user_amount (userInfo s pid for)) amount) (\<lambda>rest.
     bindE (resetDebts X pid for (setUserInfo pid for (\<lambda>u. u\<lparr>user_amount := rest\<rparr>) s)) (\<lambda>s.
     let s = (if user_amount (userInfo s pid for) = 0
              then setUserInfo pid for (\<lambda>u. u\<lparr>fundedBy := zero_address\<rparr>) s else s) in
     bindE (if stakeToken pool \<noteq> zero_address
            then safeTransfer X (stakeToken pool) (sender m) amount x else Inr x) (\<lambda>x.
     Inr (s, x))))))))))"

definition fl_withdraw where
  "fl_withdraw X m for pid amount st = withdraw_internal X m for pid amount st"

definition fl_withdrawAll where
  "fl_withdrawAll X m for pid st = withdraw_internal X m for pid (user_amount (userInfo (fst st) pid for)) st"

definition fl_harvest :: "'x fl_ext \<Rightarrow> msg \<Rightarrow> nat \<Rightarrow> 'x fl_state \<Rightarrow> 'x fl_state result" where
  "fl_harvest X m pid st =
     bindE (poolAt (fst st) pid) (\<lambda>_.
     bindE (updatePool X m pid st) (\<lambda>st.
     bindE (harvest_internal X m (sender m) pid st) (\<lambda>(s, x).
     bindE (resetDebts X pid (sender m) s) (\<lambda>s. Inr (s, x)))))"

definition fl_emergencyWithdraw :: "'x fl_ext \<Rightarrow> msg \<Rightarrow> nat \<Rightarrow> 'x fl_state \<Rightarrow> 'x fl_state result" where
  "fl_emergencyWithdraw X m pid = (\<lambda>(s, x).
     bindE (poolAt s pid) (\<lambda>pool.
     bindE (require (fundedBy (userInfo s pid (sender m)) = sender m) ''only funder'') (\<lambda>_.
     bindE (safeTransfer X (stakeToken pool) (sender m) (user_amount (userInfo s pid (sender m))) x) (\<lambda>x.
     Inr (setUserInfo pid (sender m)
       (\<lambda>u. u\<lparr>user_amount := 0, rewardDebt := 0, fundedBy := zero_address\<rparr>) s, x)))))"

definition fl_manualMint :: "'x fl_ext \<Rightarrow> msg \<Rightarrow> address \<Rightarrow> nat \<Rightarrow> 'x fl_state \<Rightarrow> 'x fl_state result" where
  "fl_manualMint X m to amount = (\<lambda>(s, x). bindE (owner_only X m x) (\<lambda>_.
     bindE (husky_manualMint X to amount x) (\<lambda>x. Inr (s, x))))"

definition fl_lockToOwner :: "'x fl_ext \<Rightarrow> msg \<Rightarrow> address \<Rightarrow> nat \<Rightarrow> 'x fl_state \<Rightarrow> 'x fl_state result" where
  "fl_lockToOwner X m account amount = (\<lambda>(s, x).
     bindE (require (sender m = badgeRelayer s) ''badgeRelayer: wut?'') (\<lambda>_.
     bindE (husky_lockToOwner X account amount x) (\<lambda>x. Inr (s, x))))"

definition fl_unlockFromOwner :: "'x fl_ext \<Rightarrow> msg \<Rightarrow> address \<Rightarrow> nat \<Rightarrow> 'x fl_state \<Rightarrow> 'x fl_state result" where
  "fl_unlockFromOwner X m account amount = (\<lambda>(s, x).
     bindE (require (sender m = badgeRelayer s) ''badgeRelayer: wut?'') (\<lambda>_.
     bindE (sm_div (fl_math X) amount 10) (\<lambda>returnHusky.
     bindE (safeHuskyTransfer X m (devaddr s) returnHusky x) (\<lambda>x.
     bindE (bindE (sm_sub (fl_math X) amount returnHusky) (\<lambda>r. safeHuskyTransfer X m account r x)) (\<lambda>x.
     Inr (s, x))))))"

section \<open>What the operations keep\<close>

lemma poolAt_Inr [simp]: "poolAt s pid = Inr p \<longleftrightarrow> pid < length (poolInfo s) \<and> p = poolInfo s ! pid"
  by (auto simp: poolAt_def)

text \<open>The part of a pool that an update leaves alone.\<close>

definition pool_key :: "pool_info \<Rightarrow> string \<times> address \<times> nat" where
  "pool_key p = (pool_symbol p, stakeToken p, allocPoint p)"

definition same_pools :: "fair_launch \<Rightarrow> fair_launch \<Rightarrow> bool" where
  "same_pools s s' \<longleftrightarrow> map pool_key (poolInfo s') = map pool_key (poolInfo s) \<and>
     totalAllocPoint s' = totalAllocPoint s \<and> userInfo s' = userInfo s"

lemma same_pools_refl [simp]: "same_pools s s"
  by (simp add: same_pools_def)

lemma same_pools_trans: "same_pools s t \<Longrightarrow> same_pools t u \<Longrightarrow> same_pools s u"
  by (simp add: same_pools_def)

lemma map_update_key:
  "k (f (xs ! i)) = k (xs ! i) \<Longrightarrow> map k (xs[i := f (xs ! i)]) = map k xs"
  by (metis list_update_beyond list_update_id map_update not_le)

lemma same_pools_setPoolInfo:
  "(\<And>p. pool_key (f p) = pool_key p) \<Longrightarrow> same_pools s (setPoolInfo pid f s)"
  by (simp add: same_pools_def setPoolInfo_def map_update_key)

lemma mint_rewards_state:
  "mint_rewards X m pid lp (s, x) = Inr (s', x') \<Longrightarrow>
   \<exists>acc til mult. s' = (setPoolInfo pid (\<lambda>p. p\<lparr>accHuskyPerShare := acc,
     accHuskyPerShareTilBonusEnd := til, lastRewardBlock := block_number m\<rparr>) s)\<lparr>lastMultiplier := mult\<rparr>"
  by (clarsimp simp: mint_rewards_def Let_def) (intro exI, rule refl)

lemma mint_rewards_pools:
  assumes "mint_rewards X m pid lp (s, x) = Inr (s', x')"
  shows "same_pools s s'"
proof -
  from mint_rewards_state [OF assms] obtain acc til mult where
    s': "s' = (setPoolInfo pid (\<lambda>p. p\<lparr>accHuskyPerShare := acc, accHuskyPerShareTilBonusEnd := til,
      lastRewardBlock := block_number m\<rparr>) s)\<lparr>lastMultiplier := mult\<rparr>" by blast
  have "same_pools s (setPoolInfo pid (\<lambda>p. p\<lparr>accHuskyPerShare := acc,
      accHuskyPerShareTilBonusEnd := til, lastRewardBlock := block_number m\<rparr>) s)"
    by (rule same_pools_setPoolInfo) (simp add: pool_key_def)
  then show ?thesis by (simp add: s' same_pools_def)
qed

lemma updatePool_cases:
  assumes "updatePool X m pid (s, x) = Inr (s', x')"
  shows "pid < length (poolInfo s) \<and> (s' = s \<or>
    s' = setPoolInfo pid (\<lambda>p. p\<lparr>lastRewardBlock := block_number m\<rparr>) s \<or>
    (\<exists>lp. mint_rewards X m pid lp (s, x) = Inr (s', x')))"
  using assms by (auto simp: updatePool_def Let_def split: if_splits)

lemma updatePool_pools:
  assumes "updatePool X m pid (s, x) = Inr (s', x')"
  shows "same_pools s s'"
proof -
  have touch: "same_pools s (setPoolInfo pid (\<lambda>p. p\<lparr>lastRewardBlock := block_number m\<rparr>) s)"
    by (rule same_pools_setPoolInfo) (simp add: pool_key_def)
  from updatePool_cases [OF assms] consider "s' = s"
    | "s' = setPoolInfo pid (\<lambda>p. p\<lparr>lastRewardBlock := block_number m\<rparr>) s"
    | lp where "mint_rewards X m pid lp (s, x) = Inr (s', x')" by blast
  then show ?thesis
  proof cases
    case 1
    then show ?thesis by simp
  next
    case 2
    show ?thesis unfolding 2 by (rule touch)
  next
    case 3
    then show ?thesis by (rule mint_rewards_pools)
  qed
qed

lemma foldE_updatePool_pools:
  "foldE (\<lambda>st pid. updatePool X m pid st) (s, x) pids = Inr (s', x') \<Longrightarrow> same_pools s s'"
proof (induction pids arbitrary: s x)
  case (Cons pid pids)
  then obtain t y where "updatePool X m pid (s, x) = Inr (t, y)"
      "foldE (\<lambda>st pid. updatePool X m pid st) (t, y) pids = Inr (s', x')" by auto
  then show ?case by (intro same_pools_trans [OF updatePool_pools Cons.IH])
qed simp

lemma massUpdatePools_pools: "massUpdatePools X m (s, x) = Inr (s', x') \<Longrightarrow> same_pools s s'"
  by (auto simp: massUpdatePools_def dest: foldE_updatePool_pools)

lemma harvest_internal_state: "harvest_internal X m to pid (s, x) = Inr (s', x') \<Longrightarrow> s' = s"
  by (auto simp: harvest_internal_def Let_def split: if_splits prod.splits)

lemma resetDebts_state:
  "resetDebts X pid a s = Inr s' \<Longrightarrow> \<exists>r b. s' = setUserInfo pid a (\<lambda>u. u\<lparr>rewardDebt := r, bonusDebt := b\<rparr>) s"
  by (auto simp: resetDebts_def)

text \<open>The well-formedness of the contract's state.\<close>

definition fl_inv :: "fair_launch \<Rightarrow> bool" where
  "fl_inv s \<longleftrightarrow>
     totalAllocPoint s = sum_list (map allocPoint (poolInfo s)) \<and>
     distinct (map stakeToken (poolInfo s)) \<and> zero_address \<notin> set (map stakeToken (poolInfo s)) \<and>
     (\<forall>pid a. user_amount (userInfo s pid a) > 0 \<longrightarrow>
        pid < length (poolInfo s) \<and> fundedBy (userInfo s pid a) \<noteq> zero_address)"

lemma same_pools_columns:
  assumes "same_pools s s'"
  shows "map stakeToken (poolInfo s') = map stakeToken (poolInfo s)"
    "map allocPoint (poolInfo s') = map allocPoint (poolInfo s)"
    "length (poolInfo s') = length (poolInfo s)"
proof -
  have "map stakeToken ps = map (fst \<circ> snd) (map pool_key ps)"
    "map allocPoint ps = map (snd \<circ> snd) (map pool_key ps)" for ps
    by (simp_all add: pool_key_def)
  then show "map stakeToken (poolInfo s') = map stakeToken (poolInfo s)"
    "map allocPoint (poolInfo s') = map allocPoint (poolInfo s)"
    using assms by (simp_all only: same_pools_def)
  show "length (poolInfo s') = length (poolInfo s)"
    using assms unfolding same_pools_def by (metis length_map)
qed

lemma same_pools_inv: "same_pools s s' \<Longrightarrow> fl_inv s \<Longrightarrow> fl_inv s'"
  by (simp add: fl_inv_def same_pools_columns) (simp add: same_pools_def)

lemma isDuplicatedPool_iff: "isDuplicatedPool s tok \<longleftrightarrow> tok \<in> set (map stakeToken (poolInfo s))"
  by (auto simp: isDuplicatedPool_def list_ex_iff)

lemma addPool_state:
  assumes M: "safe_math_ok (fl_math X)" and run: "addPool X m symb alloc tok upd (s, x) = Inr (s', x')"
  shows "\<exists>t. same_pools s t \<and> tok \<noteq> zero_address \<and> tok \<notin> set (map stakeToken (poolInfo t)) \<and>
    s' = t\<lparr>totalAllocPoint := totalAllocPoint t + alloc,
           poolInfo := poolInfo t @ [new_pool m t symb alloc tok]\<rparr>"
proof -
  from run obtain t y where t: "(if upd then massUpdatePools X m (s, x) else Inr (s, x)) = Inr (t, y)"
    and rest: "tok \<noteq> zero_address" "\<not> isDuplicatedPool t tok"
      "s' = t\<lparr>totalAllocPoint := totalAllocPoint t + alloc,
        poolInfo := poolInfo t @ [new_pool m t symb alloc tok]\<rparr>"
    by (auto simp: addPool_def safe_math_iff [OF M])
  from t have "same_pools s t" by (auto dest: massUpdatePools_pools split: if_splits)
  with rest show ?thesis unfolding isDuplicatedPool_iff by blast
qed

section \<open>The contract as a state machine\<close>

text \<open>
  One step is one transaction: a public function called in the context \<open>m\<close>, that succeeds.  The
  world may also change by itself between two transactions.
\<close>

inductive fl_step :: "'x fl_ext \<Rightarrow> 'x fl_state \<Rightarrow> 'x fl_state \<Rightarrow> bool" for X where
  world: "fl_step X (s, x) (s, y)"
| setDev: "setDev m a s = Inr s' \<Longrightarrow> fl_step X (s, x) (s', x)"
| setHuskyPerBlock: "setHuskyPerBlock X m n st = Inr st' \<Longrightarrow> fl_step X st st'"
| setBadgeRelayer: "setBadgeRelayer X m a st = Inr st' \<Longrightarrow> fl_step X st st'"
| setBadgePoints: "setBadgePoints X m a b st = Inr st' \<Longrightarrow> fl_step X st st'"
| setBonus: "setBonus X m a b c st = Inr st' \<Longrightarrow> fl_step X st st'"
| addPool: "addPool X m symb alloc tok upd st = Inr st' \<Longrightarrow> fl_step X st st'"
| setPool: "setPool X m pid alloc upd st = Inr st' \<Longrightarrow> fl_step X st st'"
| massUpdatePools: "massUpdatePools X m st = Inr st' \<Longrightarrow> fl_step X st st'"
| updatePool: "updatePool X m pid st = Inr st' \<Longrightarrow> fl_step X st st'"
| deposit: "sender m \<noteq> zero_address \<Longrightarrow> fl_deposit X m for pid n st = Inr st' \<Longrightarrow> fl_step X st st'"
| withdraw: "fl_withdraw X m for pid n st = Inr st' \<Longrightarrow> fl_step X st st'"
| withdrawAll: "fl_withdrawAll X m for pid st = Inr st' \<Longrightarrow> fl_step X st st'"
| harvest: "fl_harvest X m pid st = Inr st' \<Longrightarrow> fl_step X st st'"
| emergencyWithdraw: "fl_emergencyWithdraw X m pid st = Inr st' \<Longrightarrow> fl_step X st st'"
| manualMint: "fl_manualMint X m a n st = Inr st' \<Longrightarrow> fl_step X st st'"
| lockToOwner: "fl_lockToOwner X m a n st = Inr st' \<Longrightarrow> fl_step X st st'"
| unlockFromOwner: "fl_unlockFromOwner X m a n st = Inr st' \<Longrightarrow> fl_step X st st'"

text \<open>An update of one user keeps the invariant when the stake stays owned.\<close>

lemma fl_inv_setUserInfo:
  assumes "fl_inv s" and "pid < length (poolInfo s)"
    and "user_amount (f (userInfo s pid a)) > 0 \<Longrightarrow> fundedBy (f (userInfo s pid a)) \<noteq> zero_address"
  shows "fl_inv (setUserInfo pid a f s)"
  using assms by (auto simp: fl_inv_def setUserInfo_def split: if_splits)

lemma fl_inv_same:
  "fl_inv s \<Longrightarrow> poolInfo s' = poolInfo s \<Longrightarrow> totalAllocPoint s' = totalAllocPoint s \<Longrightarrow>
   userInfo s' = userInfo s \<Longrightarrow> fl_inv s'"
  by (simp add: fl_inv_def)

lemma addPool_inv:
  assumes "safe_math_ok (fl_math X)" "fl_inv s" "addPool X m symb alloc tok upd (s, x) = Inr (s', x')"
  shows "fl_inv s'"
proof -
  from addPool_state [OF assms(1,3)] obtain t where t: "same_pools s t" "tok \<noteq> zero_address"
      "tok \<notin> set (map stakeToken (poolInfo t))"
      "s' = t\<lparr>totalAllocPoint := totalAllocPoint t + alloc, poolInfo := poolInfo t @ [new_pool m t symb alloc tok]\<rparr>"
    by blast
  from same_pools_inv [OF t(1) assms(2)] have "fl_inv t" .
  with t(2,3) show ?thesis by (auto simp: t(4) fl_inv_def new_pool_def less_Suc_eq)
qed

lemma setPool_inv:
  assumes M: "safe_math_ok (fl_math X)" and inv: "fl_inv s"
    and run: "setPool X m pid alloc upd (s, x) = Inr (s', x')"
  shows "fl_inv s'"
proof -
  from run obtain t where t: "massUpdatePools X m (s, x) = Inr (t, x')" "pid < length (poolInfo t)"
      "allocPoint (poolInfo t ! pid) \<le> totalAllocPoint t"
      "s' = (setPoolInfo pid (\<lambda>p. p\<lparr>allocPoint := alloc\<rparr>) t)
        \<lparr>totalAllocPoint := totalAllocPoint t - allocPoint (poolInfo t ! pid) + alloc\<rparr>"
    by (auto simp: setPool_def safe_math_iff [OF M])
  have "fl_inv t" using same_pools_inv [OF massUpdatePools_pools [OF t(1)] inv] .
  moreover have "map stakeToken ((poolInfo t)[pid := (poolInfo t ! pid)\<lparr>allocPoint := alloc\<rparr>])
      = map stakeToken (poolInfo t)"
    by (rule map_update_key [where f = "\<lambda>p. p\<lparr>allocPoint := alloc\<rparr>"]) simp
  moreover have "sum_list ((map allocPoint (poolInfo t))[pid := alloc]) =
      sum_list (map allocPoint (poolInfo t)) + alloc - allocPoint (poolInfo t ! pid)"
    using t(2) by (simp add: sum_list_update)
  ultimately show ?thesis
    using t(2,3) by (simp add: t(4) fl_inv_def setPoolInfo_def map_update)
qed

lemma resetDebts_inv:
  assumes "resetDebts X pid a s = Inr s'" "fl_inv s"
  shows "fl_inv s' \<and> poolInfo s' = poolInfo s \<and> pid < length (poolInfo s) \<and>
    user_amount (userInfo s' pid a) = user_amount (userInfo s pid a) \<and>
    fundedBy (userInfo s' pid a) = fundedBy (userInfo s pid a)"
proof -
  from assms(1) have pid: "pid < length (poolInfo s)" by (auto simp: resetDebts_def)
  from resetDebts_state [OF assms(1)] obtain r b where
    s': "s' = setUserInfo pid a (\<lambda>u. u\<lparr>rewardDebt := r, bonusDebt := b\<rparr>) s" by blast
  have "fl_inv s'"
    unfolding s' by (rule fl_inv_setUserInfo [OF assms(2) pid]) (use assms(2) in \<open>simp add: fl_inv_def\<close>)
  then show ?thesis using pid by (simp add: s' setUserInfo_def)
qed

lemma fl_deposit_inv:
  assumes M: "safe_math_ok (fl_math X)" and inv: "fl_inv s" and m: "sender m \<noteq> zero_address"
    and run: "fl_deposit X m for pid n (s, x) = Inr (s', x')"
  shows "fl_inv s'"
proof -
  let ?fund = "\<lambda>s. if fundedBy (userInfo s pid for) = zero_address
      then setUserInfo pid for (\<lambda>u. u\<lparr>fundedBy := sender m\<rparr>) s else s"
  from run obtain t y total where t: "updatePool X m pid (s, x) = Inr (t, y)" "pid < length (poolInfo s)"
    and r: "resetDebts X pid for (setUserInfo pid for (\<lambda>u. u\<lparr>user_amount := total\<rparr>) (?fund t)) = Inr s'"
    by (clarsimp simp: fl_deposit_def Let_def) (force split: if_splits dest: harvest_internal_state)
  have "fl_inv t" using same_pools_inv [OF updatePool_pools [OF t(1)] inv] .
  moreover have "pid < length (poolInfo t)"
    using t(2) same_pools_columns(3) [OF updatePool_pools [OF t(1)]] by simp
  ultimately have "fl_inv (setUserInfo pid for (\<lambda>u. u\<lparr>user_amount := total\<rparr>) (?fund t))"
    using m by (auto simp: fl_inv_def setUserInfo_def)
  from resetDebts_inv [OF r this] show ?thesis ..
qed

lemma withdraw_internal_inv:
  assumes M: "safe_math_ok (fl_math X)" and inv: "fl_inv s"
    and run: "withdraw_internal X m for pid n (s, x) = Inr (s', x')"
  shows "fl_inv s'"
proof -
  from run obtain t y rest u where t: "updatePool X m pid (s, x) = Inr (t, y)" "pid < length (poolInfo s)"
    and rest: "n \<le> user_amount (userInfo t pid for)" "rest = user_amount (userInfo t pid for) - n"
    and u: "resetDebts X pid for (setUserInfo pid for (\<lambda>u. u\<lparr>user_amount := rest\<rparr>) t) = Inr u"
    and s': "s' = (if user_amount (userInfo u pid for) = 0
              then setUserInfo pid for (\<lambda>u. u\<lparr>fundedBy := zero_address\<rparr>) u else u)"
    by (clarsimp simp: withdraw_internal_def Let_def safe_math_iff [OF M])
       (metis harvest_internal_state)
  have t_inv: "fl_inv t" using same_pools_inv [OF updatePool_pools [OF t(1)] inv] .
  have pid: "pid < length (poolInfo t)"
    using t(2) same_pools_columns(3) [OF updatePool_pools [OF t(1)]] by simp
  have "fl_inv (setUserInfo pid for (\<lambda>u. u\<lparr>user_amount := rest\<rparr>) t)"
    by (rule fl_inv_setUserInfo [OF t_inv pid]) (use t_inv rest in \<open>auto simp: fl_inv_def\<close>)
  note u_inv = resetDebts_inv [OF u this]
  have pidu: "pid < length (poolInfo u)" using u_inv pid by (simp add: setUserInfo_def)
  show ?thesis
    unfolding s' by (auto intro!: fl_inv_setUserInfo pidu conjunct1 [OF u_inv])
qed

lemma fl_harvest_inv:
  assumes "fl_inv s" "fl_harvest X m pid (s, x) = Inr (s', x')"
  shows "fl_inv s'"
proof -
  from assms(2) obtain t y where t: "updatePool X m pid (s, x) = Inr (t, y)"
    and r: "resetDebts X pid (sender m) t = Inr s'"
    by (clarsimp simp: fl_harvest_def) (metis harvest_internal_state)
  have "fl_inv t" using same_pools_inv [OF updatePool_pools [OF t] assms(1)] .
  from resetDebts_inv [OF r this] show ?thesis ..
qed

lemma fl_emergencyWithdraw_inv:
  assumes "fl_inv s" "fl_emergencyWithdraw X m pid (s, x) = Inr (s', x')"
  shows "fl_inv s'"
  using assms(2) by (auto simp: fl_emergencyWithdraw_def intro!: fl_inv_setUserInfo assms(1))

lemma fl_step_inv:
  assumes "fl_step X st st'" "safe_math_ok (fl_math X)" "fl_inv (fst st)"
  shows "fl_inv (fst st')"
  using assms
proof (induction rule: fl_step.induct)
  case (setDev m a s s' x)
  then show ?case by (auto simp: setDev_def intro: fl_inv_same)
next
  case (setHuskyPerBlock m n st st')
  then show ?case by (cases st) (auto simp: setHuskyPerBlock_def intro: fl_inv_same)
next
  case (setBadgeRelayer m a st st')
  then show ?case by (cases st) (auto simp: setBadgeRelayer_def intro: fl_inv_same)
next
  case (setBadgePoints m a b st st')
  then show ?case by (cases st) (auto simp: setBadgePoints_def intro: fl_inv_same)
next
  case (setBonus m a b c st st')
  then show ?case by (cases st) (auto simp: setBonus_def intro: fl_inv_same)
next
  case (addPool m symb alloc tok upd st st')
  then show ?case by (cases st; cases st') (auto intro: addPool_inv)
next
  case (setPool m pid alloc upd st st')
  then show ?case by (cases st; cases st') (auto intro: setPool_inv)
next
  case (massUpdatePools m st st')
  then show ?case by (cases st; cases st') (auto intro: same_pools_inv massUpdatePools_pools)
next
  case (updatePool m pid st st')
  then show ?case by (cases st; cases st') (auto intro: same_pools_inv updatePool_pools)
next
  case (deposit m "for" pid n st st')
  then show ?case by (cases st; cases st') (auto intro: fl_deposit_inv)
next
  case (withdraw m "for" pid n st st')
  then show ?case by (cases st; cases st') (auto simp: fl_withdraw_def intro: withdraw_internal_inv)
next
  case (withdrawAll m "for" pid st st')
  then show ?case by (cases st; cases st') (auto simp: fl_withdrawAll_def intro: withdraw_internal_inv)
next
  case (harvest m pid st st')
  then show ?case by (cases st; cases st') (auto intro: fl_harvest_inv)
next
  case (emergencyWithdraw m pid st st')
  then show ?case by (cases st; cases st') (auto intro: fl_emergencyWithdraw_inv)
next
  case (manualMint m a n st st')
  then show ?case by (cases st) (auto simp: fl_manualMint_def)
next
  case (lockToOwner m a n st st')
  then show ?case by (cases st) (auto simp: fl_lockToOwner_def)
next
  case (unlockFromOwner m a n st st')
  then show ?case by (cases st) (auto simp: fl_unlockFromOwner_def)
qed simp

text \<open>
  The identity of the pools, by their ids: their symbols and staking tokens.  A step changes none of
  it and at most appends a pool.
\<close>

definition pool_identities :: "fair_launch \<Rightarrow> (string \<times> address) list" where
  "pool_identities s = map (\<lambda>p. (pool_symbol p, stakeToken p)) (poolInfo s)"

lemma pool_identities_same:
  "poolInfo s' = poolInfo s \<Longrightarrow> pool_identities s' = pool_identities s"
  by (simp add: pool_identities_def)

lemma same_pools_identities: "same_pools s s' \<Longrightarrow> pool_identities s' = pool_identities s"
proof -
  have "pool_identities s = map (\<lambda>(symb, tok, alloc). (symb, tok)) (map pool_key (poolInfo s))" for s
    by (simp add: pool_identities_def pool_key_def)
  then show "same_pools s s' \<Longrightarrow> pool_identities s' = pool_identities s" by (simp only: same_pools_def)
qed

lemma setUserInfo_pools [simp]: "poolInfo (setUserInfo pid a f s) = poolInfo s"
  by (simp add: setUserInfo_def)

lemma resetDebts_pools: "resetDebts X pid a s = Inr s' \<Longrightarrow> poolInfo s' = poolInfo s"
  using resetDebts_state [of X pid a s s'] by auto

lemma fl_deposit_identities:
  assumes "fl_deposit X m for pid n (s, x) = Inr (s', x')"
  shows "pool_identities s' = pool_identities s"
proof -
  let ?fund = "\<lambda>s. if fundedBy (userInfo s pid for) = zero_address
      then setUserInfo pid for (\<lambda>u. u\<lparr>fundedBy := sender m\<rparr>) s else s"
  from assms obtain t y total where t: "updatePool X m pid (s, x) = Inr (t, y)"
    and r: "resetDebts X pid for (setUserInfo pid for (\<lambda>u. u\<lparr>user_amount := total\<rparr>) (?fund t)) = Inr s'"
    by (clarsimp simp: fl_deposit_def Let_def) (force split: if_splits dest: harvest_internal_state)
  have "poolInfo s' = poolInfo t" using resetDebts_pools [OF r] by simp
  with same_pools_identities [OF updatePool_pools [OF t]] show ?thesis by (simp add: pool_identities_def)
qed

lemma withdraw_internal_identities:
  assumes "withdraw_internal X m for pid n (s, x) = Inr (s', x')"
  shows "pool_identities s' = pool_identities s"
proof -
  from assms obtain t y rest u where t: "updatePool X m pid (s, x) = Inr (t, y)"
    and u: "resetDebts X pid for (setUserInfo pid for (\<lambda>u. u\<lparr>user_amount := rest\<rparr>) t) = Inr u"
    and s': "s' = (if user_amount (userInfo u pid for) = 0
              then setUserInfo pid for (\<lambda>u. u\<lparr>fundedBy := zero_address\<rparr>) u else u)"
    by (clarsimp simp: withdraw_internal_def Let_def) (metis harvest_internal_state)
  have "poolInfo s' = poolInfo t" using resetDebts_pools [OF u] by (simp add: s')
  with same_pools_identities [OF updatePool_pools [OF t]] show ?thesis by (simp add: pool_identities_def)
qed

lemma fl_harvest_identities:
  assumes "fl_harvest X m pid (s, x) = Inr (s', x')"
  shows "pool_identities s' = pool_identities s"
proof -
  from assms obtain t y where t: "updatePool X m pid (s, x) = Inr (t, y)"
    and r: "resetDebts X pid (sender m) t = Inr s'"
    by (clarsimp simp: fl_harvest_def) (metis harvest_internal_state)
  from same_pools_identities [OF updatePool_pools [OF t]] resetDebts_pools [OF r] show ?thesis
    by (simp add: pool_identities_def)
qed

lemma setPool_identities:
  assumes "setPool X m pid alloc upd (s, x) = Inr (s', x')"
  shows "pool_identities s' = pool_identities s"
proof -
  from assms obtain t total where t: "massUpdatePools X m (s, x) = Inr (t, x')"
      "s' = (setPoolInfo pid (\<lambda>p. p\<lparr>allocPoint := alloc\<rparr>) t)\<lparr>totalAllocPoint := total\<rparr>"
    by (auto simp: setPool_def)
  have "pool_identities s' = pool_identities t"
    by (simp add: t(2) pool_identities_def setPoolInfo_def
        map_update_key [where f = "\<lambda>p. p\<lparr>allocPoint := alloc\<rparr>"])
  with same_pools_identities [OF massUpdatePools_pools [OF t(1)]] show ?thesis by simp
qed

lemma addPool_identities:
  assumes "addPool X m symb alloc tok upd (s, x) = Inr (s', x')"
  shows "pool_identities s' = pool_identities s @ [(symb, tok)]"
proof -
  from assms obtain t y total where t: "(if upd then massUpdatePools X m (s, x) else Inr (s, x)) = Inr (t, y)"
    and s': "s' = t\<lparr>totalAllocPoint := total, poolInfo := poolInfo t @ [new_pool m t symb alloc tok]\<rparr>"
    by (auto simp: addPool_def)
  from t have "same_pools s t" by (auto dest: massUpdatePools_pools split: if_splits)
  from same_pools_identities [OF this] show ?thesis by (simp add: s' pool_identities_def new_pool_def)
qed

lemma fl_step_identities:
  "fl_step X st st' \<Longrightarrow> \<exists>new. pool_identities (fst st') = pool_identities (fst st) @ new"
proof (induction rule: fl_step.induct)
  case (addPool m symb alloc tok upd st st')
  then show ?case by (cases st; cases st') (auto dest: addPool_identities)
next
  case (setPool m pid alloc upd st st')
  then show ?case by (cases st; cases st') (auto dest: setPool_identities)
next
  case (massUpdatePools m st st')
  then show ?case by (cases st; cases st') (auto dest!: massUpdatePools_pools same_pools_identities)
next
  case (updatePool m pid st st')
  then show ?case by (cases st; cases st') (auto dest!: updatePool_pools same_pools_identities)
next
  case (deposit m "for" pid n st st')
  then show ?case by (cases st; cases st') (auto dest: fl_deposit_identities)
next
  case (withdraw m "for" pid n st st')
  then show ?case by (cases st; cases st') (auto simp: fl_withdraw_def dest: withdraw_internal_identities)
next
  case (withdrawAll m "for" pid st st')
  then show ?case by (cases st; cases st') (auto simp: fl_withdrawAll_def dest: withdraw_internal_identities)
next
  case (harvest m pid st st')
  then show ?case by (cases st; cases st') (auto dest: fl_harvest_identities)
qed (auto simp: setDev_def setHuskyPerBlock_def setBadgeRelayer_def setBadgePoints_def setBonus_def
    fl_emergencyWithdraw_def fl_manualMint_def fl_lockToOwner_def fl_unlockFromOwner_def Let_def
    pool_identities_def)

lemma fl_steps_identities:
  "(fl_step X)\<^sup>*\<^sup>* st st' \<Longrightarrow> \<exists>new. pool_identities (fst st') = pool_identities (fst st) @ new"
proof (induction rule: rtranclp_induct)
  case (step st1 st2)
  from fl_step_identities [OF step(2)] step(3) show ?case by auto
qed simp

section \<open>Properties\<close>

text \<open>A world of no interest for the witnesses: everybody is the owner and every token call works.\<close>

definition sample_fl_ext :: "nat fl_ext" where
  "sample_fl_ext =
     \<lparr>fl_math = checked_math, onlyOwner = (\<lambda>_ _. True), balanceOf = (\<lambda>_ _ x. x),
      husky_balanceOf = (\<lambda>_ _. uint_max), husky_mint = (\<lambda>_ _ x. Inr x), husky_lock = (\<lambda>_ _ x. Inr x),
      husky_transfer = (\<lambda>_ _ x. Inr (True, x)), husky_manualMint = (\<lambda>_ _ x. Inr x),
      husky_lockToOwner = (\<lambda>_ _ x. Inr x), safeTransferFrom = (\<lambda>_ _ _ n x. Inr (x + n)),
      safeTransfer = (\<lambda>_ _ n x. Inr (x - n)), oracle_getPrice = (\<lambda>_ _ _. Inr 1),
      badge_mint = (\<lambda>_ _ _ x. Inr x)\<rparr>"

definition sample_msg :: msg where
  "sample_msg = \<lparr>sender = ''me'', block_number = 10, block_timestamp = 0, this = ''FL''\<rparr>"

definition sample_fl :: fair_launch where
  "sample_fl = fl_constructor ''dev'' 1 1 0 2"

text \<open>
  C13: FairLaunch's books: in every state reachable from the constructor, \<open>totalAllocPoint\<close> is the sum
  of the allocation points of the pools, no two pools have the same staking token and none has the
  zero address, and a user with a stake has it in an existing pool and has a funder; and whatever
  follows, every pool keeps its symbol, its staking token and its id: later pools come after it.
\<close>

theorem fair_launch_invariant:
  assumes "(fl_step X)\<^sup>*\<^sup>* (fl_constructor dev perBlock start lockupBps endBlock, x) (s, y)"
    and "safe_math_ok (fl_math X)" and "(fl_step X)\<^sup>*\<^sup>* (s, y) (s', y')"
  shows "totalAllocPoint s = sum_list (map allocPoint (poolInfo s)) \<and>
    distinct (map stakeToken (poolInfo s)) \<and> zero_address \<notin> set (map stakeToken (poolInfo s)) \<and>
    (\<forall>pid a. user_amount (userInfo s pid a) > 0 \<longrightarrow>
       pid < length (poolInfo s) \<and> fundedBy (userInfo s pid a) \<noteq> zero_address) \<and>
    length (poolInfo s) \<le> length (poolInfo s') \<and>
    (\<forall>pid < length (poolInfo s). pool_symbol (poolInfo s' ! pid) = pool_symbol (poolInfo s ! pid) \<and>
       stakeToken (poolInfo s' ! pid) = stakeToken (poolInfo s ! pid))"
proof -
  have "fl_inv (fst st')" if "(fl_step X)\<^sup>*\<^sup>* st st'" "fl_inv (fst st)" for st st'
    using that by (induction rule: rtranclp_induct) (auto intro: fl_step_inv assms(2))
  from this [OF assms(1)] have "fl_inv s" by (simp add: fl_inv_def fl_constructor_def)
  moreover from fl_steps_identities [OF assms(3)] obtain new where
    new: "pool_identities s' = pool_identities s @ new" by auto
  have len: "length (poolInfo s) \<le> length (poolInfo s')"
    using arg_cong [OF new, of length] by (simp add: pool_identities_def)
  moreover have "pool_symbol (poolInfo s' ! pid) = pool_symbol (poolInfo s ! pid) \<and>
       stakeToken (poolInfo s' ! pid) = stakeToken (poolInfo s ! pid)" if "pid < length (poolInfo s)" for pid
    using arg_cong [OF new, of "\<lambda>ps. ps ! pid"] that len by (simp add: pool_identities_def nth_append)
  ultimately show ?thesis by (simp add: fl_inv_def)
qed

text \<open>Two pools are added, and then a stake is put in the first one.\<close>

definition one_pool :: fair_launch where
  "one_pool = sample_fl\<lparr>totalAllocPoint := 300, poolInfo := [new_pool sample_msg sample_fl ''debtibBUSD'' 300 ''D'']\<rparr>"

definition two_pools :: fair_launch where
  "two_pools = one_pool\<lparr>totalAllocPoint := 500,
     poolInfo := poolInfo one_pool @ [new_pool sample_msg one_pool ''ibBUSD'' 200 ''V'']\<rparr>"

lemmas sample_fl_defs = sample_fl_ext_def sample_fl_def fl_constructor_def zero_address_def checked_math_def
  uint_max_def new_pool_def sample_msg_def one_pool_def two_pools_def

lemma sample_pools:
  "addPool sample_fl_ext sample_msg ''debtibBUSD'' 300 ''D'' True (sample_fl, 0) = Inr (one_pool, 0)"
  "addPool sample_fl_ext sample_msg ''ibBUSD'' 200 ''V'' True (one_pool, 0) = Inr (two_pools, 0)"
  by (simp_all add: sample_fl_defs addPool_def owner_only_def massUpdatePools_def isDuplicatedPool_def
      updatePool_def poolAt_def)

lemma sample_stake: "\<exists>s. fl_deposit sample_fl_ext sample_msg ''me'' 0 5 (two_pools, 0) = Inr (s, 5) \<and>
    user_amount (userInfo s 0 ''me'') = 5"
  by (simp add: sample_fl_defs fl_deposit_def updatePool_def poolAt_def resetDebts_def mul_div_def
      setUserInfo_def Let_def)

theorem fair_launch_invariant_witness:
  "\<exists>s. (fl_step sample_fl_ext)\<^sup>*\<^sup>* (fl_constructor ''dev'' 1 1 0 2, 0) (s, 5) \<and>
     user_amount (userInfo s 0 ''me'') = 5 \<and> 0 < length (poolInfo s) \<and>
     fundedBy (userInfo s 0 ''me'') \<noteq> zero_address \<and>
     stakeToken (poolInfo s ! 0) = ''D'' \<and> stakeToken (poolInfo s ! 1) = ''V''"
proof -
  let ?c = "(fl_constructor ''dev'' 1 1 0 2, 0)"
  obtain s where d: "fl_deposit sample_fl_ext sample_msg ''me'' 0 5 (two_pools, 0) = Inr (s, 5)"
    and amount: "user_amount (userInfo s 0 ''me'') = 5" using sample_stake by blast
  have "sender sample_msg \<noteq> zero_address" by (simp add: sample_msg_def zero_address_def)
  then have last: "fl_step sample_fl_ext (two_pools, 0) (s, 5)" using d by (rule fl_step.deposit)
  have two: "(fl_step sample_fl_ext)\<^sup>*\<^sup>* ?c (two_pools, 0)"
    using fl_step.addPool [OF sample_pools(1)] fl_step.addPool [OF sample_pools(2)] unfolding sample_fl_def
    by (meson rtranclp.rtrancl_into_rtrancl rtranclp.rtrancl_refl)
  then have s: "(fl_step sample_fl_ext)\<^sup>*\<^sup>* ?c (s, 5)" using last by (rule rtranclp.rtrancl_into_rtrancl)
  have later: "(fl_step sample_fl_ext)\<^sup>*\<^sup>* (two_pools, 0) (s, 5)" using last by (rule r_into_rtranclp)
  have M: "safe_math_ok (fl_math sample_fl_ext)" by (simp add: sample_fl_ext_def)
  have "length (poolInfo two_pools) = 2 \<and> stakeToken (poolInfo two_pools ! 0) = ''D'' \<and>
      stakeToken (poolInfo two_pools ! 1) = ''V''" by (simp add: sample_fl_defs)
  with fair_launch_invariant [OF two M later] fair_launch_invariant [OF s M rtranclp.rtrancl_refl]
  show ?thesis using s amount by (intro exI [of _ s]) auto
qed

text \<open>Without allocation points, updating a pool that has stakes reverts.\<close>

lemma updatePool_no_points:
  assumes M: "safe_math_ok (fl_math X)" and zero: "totalAllocPoint s = 0"
    and pid: "pid < length (poolInfo s)" "lastRewardBlock (poolInfo s ! pid) < block_number m"
    and staked: "balanceOf X (stakeToken (poolInfo s ! pid)) (this m) x \<noteq> 0"
  shows "\<exists>e. updatePool X m pid (s, x) = Inl e"
proof (cases "updatePool X m pid (s, x)")
  case (Inr st)
  with pid staked obtain p where "sm_div (fl_math X) p 0 = Inr r" for r
    by (auto simp: updatePool_def poolAt_def Let_def mint_rewards_def mul_mul_div_def mul_div_def zero
        safe_math_iff [OF M])
  with safe_div_zero [OF M, of p] show ?thesis by auto
qed simp

lemma updatePool_other:
  assumes M: "safe_math_ok (fl_math X)" and zero: "totalAllocPoint s = 0"
    and run: "updatePool X m i (s, x) = Inr (t, y)"
  shows "y = x \<and> (i \<noteq> pid \<longrightarrow> poolInfo t ! pid = poolInfo s ! pid) \<and> totalAllocPoint t = 0 \<and>
    length (poolInfo t) = length (poolInfo s)"
proof -
  have i: "i < length (poolInfo s)" using updatePool_cases [OF run] by simp
  then have "block_number m \<le> lastRewardBlock (poolInfo s ! i) \<or>
      balanceOf X (stakeToken (poolInfo s ! i)) (this m) x = 0"
    using updatePool_no_points [OF M zero, of i m x] run by (metis Inl_Inr_False not_le)
  with run i zero show ?thesis
    by (auto simp: updatePool_def poolAt_def Let_def setPoolInfo_def split: if_splits)
qed

lemma massUpdatePools_no_points:
  assumes M: "safe_math_ok (fl_math X)" and pid: "pid \<in> set pids"
  shows "totalAllocPoint s = 0 \<Longrightarrow> pid < length (poolInfo s) \<Longrightarrow>
    lastRewardBlock (poolInfo s ! pid) < block_number m \<Longrightarrow>
    balanceOf X (stakeToken (poolInfo s ! pid)) (this m) x \<noteq> 0 \<Longrightarrow>
    \<exists>e. foldE (\<lambda>st i. updatePool X m i st) (s, x) pids = Inl e"
  using pid
proof (induction pids arbitrary: s x)
  case (Cons i pids)
  show ?case
  proof (cases "updatePool X m i (s, x)")
    case (Inr st)
    obtain t y where st: "st = (t, y)" by (cases st)
    have "i \<noteq> pid" using updatePool_no_points [OF M Cons.prems(1-4)] Inr by auto
    moreover note o = updatePool_other [OF M Cons.prems(1) Inr [unfolded st], of pid]
    ultimately have "\<exists>e. foldE (\<lambda>st i. updatePool X m i st) (t, y) pids = Inl e"
      using Cons.prems by (intro Cons.IH) auto
    then show ?thesis by (simp add: Inr st)
  qed simp
qed simp

text \<open>
  C30: FairLaunch stops when no pool has allocation points: if \<open>totalAllocPoint\<close> is zero and some
  pool holds staked tokens and is not up to date, its \<open>updatePool\<close> divides by zero, so deposits,
  withdrawals and harvests of that pool revert, and so do \<open>massUpdatePools\<close>, \<open>setPool\<close> and
  \<open>addPool\<close> with an update; \<open>emergencyWithdraw\<close> still pays the funder whenever the token does.
\<close>

theorem no_alloc_points_block_staking:
  assumes M: "safe_math_ok (fl_math X)" and zero: "totalAllocPoint s = 0"
    and pid: "pid < length (poolInfo s)" "lastRewardBlock (poolInfo s ! pid) < block_number m"
    and staked: "balanceOf X (stakeToken (poolInfo s ! pid)) (this m) x \<noteq> 0"
  shows "(\<exists>e. fl_deposit X m for pid n (s, x) = Inl e) \<and> (\<exists>e. fl_withdraw X m for pid n (s, x) = Inl e) \<and>
    (\<exists>e. fl_harvest X m pid (s, x) = Inl e) \<and> (\<exists>e. massUpdatePools X m (s, x) = Inl e) \<and>
    (\<exists>e. setPool X m i alloc upd (s, x) = Inl e) \<and> (\<exists>e. addPool X m symb alloc tok True (s, x) = Inl e) \<and>
    (\<forall>y. fundedBy (userInfo s pid (sender m)) = sender m \<longrightarrow>
       safeTransfer X (stakeToken (poolInfo s ! pid)) (sender m) (user_amount (userInfo s pid (sender m))) x = Inr y \<longrightarrow>
       (\<exists>s'. fl_emergencyWithdraw X m pid (s, x) = Inr (s', y) \<and> user_amount (userInfo s' pid (sender m)) = 0))"
proof -
  from updatePool_no_points [OF M zero pid staked] obtain e where e: "updatePool X m pid (s, x) = Inl e" ..
  have "pid \<in> set [0 ..< length (poolInfo s)]" using pid(1) by simp
  from massUpdatePools_no_points [OF M this zero pid staked] obtain d where
    d: "massUpdatePools X m (s, x) = Inl d" by (auto simp: massUpdatePools_def)
  have fails: "\<exists>e. r = Inl e" if "\<And>y. r \<noteq> Inr y" for r :: "'z result"
    using that by (cases r) auto
  have "fl_deposit X m for pid n (s, x) \<noteq> Inr st" "fl_withdraw X m for pid n (s, x) \<noteq> Inr st"
      "fl_harvest X m pid (s, x) \<noteq> Inr st" "setPool X m i alloc upd (s, x) \<noteq> Inr st"
      "addPool X m symb alloc tok True (s, x) \<noteq> Inr st" for st
    by (auto simp: fl_deposit_def fl_withdraw_def withdraw_internal_def fl_harvest_def setPool_def
        addPool_def Let_def e d)
  note this [THEN fails]
  moreover have "\<exists>s'. fl_emergencyWithdraw X m pid (s, x) = Inr (s', y) \<and>
      user_amount (userInfo s' pid (sender m)) = 0"
    if "fundedBy (userInfo s pid (sender m)) = sender m"
      "safeTransfer X (stakeToken (poolInfo s ! pid)) (sender m) (user_amount (userInfo s pid (sender m))) x = Inr y" for y
    using that pid(1) by (simp add: fl_emergencyWithdraw_def setUserInfo_def poolAt_def)
  ultimately show ?thesis using d by blast
qed

definition stuck_fl :: fair_launch where
  "stuck_fl = sample_fl\<lparr>poolInfo := [(new_pool sample_msg sample_fl ''ibHUSKI'' 0 ''V'')\<lparr>lastRewardBlock := 1\<rparr>]\<rparr>"

theorem no_alloc_points_block_staking_witness:
  "\<exists>e. fl_deposit sample_fl_ext sample_msg ''me'' 0 5 (stuck_fl, 3) = Inl e"
  using no_alloc_points_block_staking [of sample_fl_ext stuck_fl 0 sample_msg 3 "''me''" 5 0 0 True "''''" "''''"]
  by (simp add: sample_fl_ext_def stuck_fl_def sample_fl_def fl_constructor_def new_pool_def sample_msg_def)

section \<open>The interface the scripts rely on\<close>

text \<open>
  What a client that registers staking tokens one by one needs: a successful registration appends a
  token that was not there.
\<close>

locale pool_registry =
  fixes add :: "'m \<Rightarrow> string \<Rightarrow> nat \<Rightarrow> address \<Rightarrow> bool \<Rightarrow> 's \<Rightarrow> 's result"
    and stakes :: "'s \<Rightarrow> address list"
  assumes add_appends: "add m symb alloc tok upd s = Inr s' \<Longrightarrow> stakes s' = stakes s @ [tok]"
    and add_fresh: "add m symb alloc tok upd s = Inr s' \<Longrightarrow> tok \<notin> set (stakes s)"
begin

lemma last_is_new: "add m symb alloc tok upd s = Inr s' \<Longrightarrow> stakes s' ! (length (stakes s') - 1) = tok"
  by (simp add: add_appends)

lemma old_ids_stay:
  "add m symb alloc tok upd s = Inr s' \<Longrightarrow> i < length (stakes s) \<Longrightarrow> stakes s' ! i = stakes s ! i"
  by (simp add: add_appends nth_append)

lemma id_is_unique:
  "add m symb alloc tok upd s = Inr s' \<Longrightarrow> i < length (stakes s') \<Longrightarrow> stakes s' ! i = tok \<Longrightarrow>
   i = length (stakes s') - 1"
proof (rule ccontr)
  assume run: "add m symb alloc tok upd s = Inr s'" and i: "i < length (stakes s')" "stakes s' ! i = tok"
    and "i \<noteq> length (stakes s') - 1"
  with add_appends [OF run] have "i < length (stakes s)" by simp
  with i(2) add_appends [OF run] have "tok \<in> set (stakes s)" by (auto simp: nth_append)
  with add_fresh [OF run] show False ..
qed

end

definition fl_stakes :: "'x fl_state \<Rightarrow> address list" where
  "fl_stakes = (\<lambda>(s, x). map stakeToken (poolInfo s))"

lemma addPool_stakes:
  assumes run: "addPool X m symb alloc tok upd (s, x) = Inr (s', x')"
  shows "map stakeToken (poolInfo s') = map stakeToken (poolInfo s) @ [tok] \<and>
    tok \<notin> set (map stakeToken (poolInfo s))"
proof -
  from run obtain t y total where t: "(if upd then massUpdatePools X m (s, x) else Inr (s, x)) = Inr (t, y)"
    and rest: "\<not> isDuplicatedPool t tok"
      "s' = t\<lparr>totalAllocPoint := total, poolInfo := poolInfo t @ [new_pool m t symb alloc tok]\<rparr>"
    by (auto simp: addPool_def)
  from t have "same_pools s t" by (auto dest: massUpdatePools_pools split: if_splits)
  from same_pools_columns(1) [OF this] rest show ?thesis
    unfolding isDuplicatedPool_iff by (simp add: new_pool_def)
qed

interpretation fair_launch_pools: pool_registry "addPool X" fl_stakes for X
  by unfold_locales (auto simp: fl_stakes_def dest: addPool_stakes)

end
