(* ===== verification/Vault_Links.thy ===== *)
theory Vault_Links
  imports Vault_Scripts Fair_Launch
begin

text \<open>
  The vault scripts against the FairLaunch contract they talk to.  A transaction is only submitted when
  ethers answers; the contract changes when it is mined, which \<open>serves_fair_launch\<close> lets happen at any later
  time, at the latest during the ten seconds the scripts sleep.  The property then says that the pool ids
  the scripts read off \<open>poolLength\<close> are those of the pools they added.
\<close>

section \<open>Submitted and mined\<close>

definition is_add_pool :: "address \<Rightarrow> request \<Rightarrow> bool" where
  "is_add_pool FL r = (case r of
     Send a f _ _ \<Rightarrow> a = FL \<and> f = ''addPool(string,uint256,address,bool)'' | _ \<Rightarrow> False)"

text \<open>The arguments of a submitted \<open>addPool\<close>.\<close>

type_synonym pool_args = "string \<times> nat \<times> address \<times> bool"

definition args_token :: "pool_args \<Rightarrow> address" where
  "args_token = (\<lambda>(symb, alloc, tok, withUpdate). tok)"

text \<open>
  \<open>mined X (st, p) (st', p')\<close>: the contract goes from \<open>st\<close> to \<open>st'\<close> and the submitted \<open>addPool\<close> calls
  from \<open>p\<close> to \<open>p'\<close>.  Those that are mined are executed in order and do not revert; what others do in
  between adds no pool.
\<close>

inductive mined :: "'x fl_ext \<Rightarrow> 'x fl_state \<times> pool_args list \<Rightarrow> 'x fl_state \<times> pool_args list \<Rightarrow> bool"
  for X :: "'x fl_ext" where
  mined_end: "mined X c c"
| mined_other: "fl_stakes st' = fl_stakes st \<Longrightarrow> mined X (st', p) c \<Longrightarrow> mined X (st, p) c"
| mined_pool: "addPool X m symb alloc tok withUpdate st = Inr st' \<Longrightarrow> mined X (st', p) c \<Longrightarrow>
    mined X (st, (symb, alloc, tok, withUpdate) # p) c"

lemma mined_stakes:
  "mined X c c' \<Longrightarrow> fl_stakes (fst c') @ map args_token (snd c') = fl_stakes (fst c) @ map args_token (snd c)"
  by (induction rule: mined.induct) (auto simp: args_token_def dest: fair_launch_pools.add_appends)

lemma mined_nothing: "mined X c c' \<Longrightarrow> snd c = [] \<Longrightarrow> snd c' = []"
  by (induction rule: mined.induct) auto

text \<open>
  \<open>FL\<close> is the address, \<open>st\<close> the state of the contract in a world and \<open>pend\<close> the \<open>addPool\<close> calls submitted
  there and not mined: an accepted \<open>addPool\<close> joins them, a view sees what is mined, and after a sleep of
  ten seconds none is left.
\<close>

definition serves_fair_launch ::
  "'w hre \<Rightarrow> address \<Rightarrow> 'x fl_ext \<Rightarrow> ('w \<Rightarrow> 'x fl_state) \<Rightarrow> ('w \<Rightarrow> pool_args list) \<Rightarrow> bool" where
  "serves_fair_launch H FL X st pend \<longleftrightarrow> (\<forall>w.
     (\<forall>symb a tok u ov v w'. perform H (Send FL ''addPool(string,uint256,address,bool)''
          [Str symb, Num a, Str tok, Bool u] ov) w = (Inr v, w') \<longrightarrow>
        mined X (st w, pend w @ [(symb, nat a, tok, u)]) (st w', pend w')) \<and>
     (\<forall>n w'. perform H (View FL ''poolLength()'' []) w = (Inr (Big n), w') \<longrightarrow>
        n = int (poolLength (fst (st w)))) \<and>
     (\<forall>n v w'. perform H (Sleep n) w = (Inr v, w') \<longrightarrow> 10000 \<le> n \<longrightarrow> pend w' = []) \<and>
     (\<forall>r v w'. perform H r w = (v, w') \<longrightarrow> \<not> is_add_pool FL r \<longrightarrow> mined X (st w, pend w) (st w', pend w')))"

text \<open>The staking tokens once everything submitted is mined.\<close>

definition stakes_to_be :: "('w \<Rightarrow> 'x fl_state) \<Rightarrow> ('w \<Rightarrow> pool_args list) \<Rightarrow> 'w \<Rightarrow> address list" where
  "stakes_to_be st pend w = fl_stakes (st w) @ map args_token (pend w)"

lemma served_add:
  assumes "serves_fair_launch H FL X st pend" and "perform H (Send FL ''addPool(string,uint256,address,bool)''
     [Str symb, Num a, Str tok, Bool u] ov) w = (Inr v, w')"
  shows "stakes_to_be st pend w' = stakes_to_be st pend w @ [tok]"
proof -
  from assms have "mined X (st w, pend w @ [(symb, nat a, tok, u)]) (st w', pend w')"
    unfolding serves_fair_launch_def by blast
  from mined_stakes [OF this] show ?thesis by (simp add: stakes_to_be_def args_token_def)
qed

lemma served_length:
  "serves_fair_launch H FL X st pend \<Longrightarrow> perform H (View FL ''poolLength()'' []) w = (Inr (Big n), w') \<Longrightarrow>
   pend w = [] \<Longrightarrow> n = int (length (stakes_to_be st pend w))"
  by (auto simp: serves_fair_launch_def poolLength_def fl_stakes_def stakes_to_be_def split_beta)

lemma served_other:
  assumes "serves_fair_launch H FL X st pend" and "\<not> is_add_pool FL r" and "perform H r w = (v, w')"
  shows "stakes_to_be st pend w' = stakes_to_be st pend w" and "pend w = [] \<Longrightarrow> pend w' = []"
proof -
  from assms have "mined X (st w, pend w) (st w', pend w')" unfolding serves_fair_launch_def by blast
  from mined_stakes [OF this] mined_nothing [OF this]
  show "stakes_to_be st pend w' = stakes_to_be st pend w" "pend w = [] \<Longrightarrow> pend w' = []"
    by (simp_all add: stakes_to_be_def)
qed

text \<open>A block of requests none of which adds a pool.\<close>

lemma served_block:
  assumes "serves_fair_launch H FL X st pend"
  shows "exchange H w es w' \<Longrightarrow> \<forall>e \<in> set es. \<not> is_add_pool FL (fst e) \<Longrightarrow>
    stakes_to_be st pend w' = stakes_to_be st pend w \<and> (pend w = [] \<longrightarrow> pend w' = [])"
proof (induction es arbitrary: w)
  case (Cons e es)
  obtain r v where e: "e = (r, v)" by (cases e)
  obtain w1 where "perform H r w = (v, w1)" "exchange H w1 es w'"
    using Cons.prems(1) by (cases "perform H r w") (auto simp: e)
  then show ?case using Cons served_other [OF assms] by (auto simp: e)
qed simp

lemma exchange_Cons_Inr:
  "exchange H w ((r, Inr v) # es) w' \<Longrightarrow> \<exists>u. perform H r w = (Inr v, u) \<and> exchange H u es w'"
  by (cases "perform H r w") auto

lemma only_writes_stakes:
  assumes "serves_fair_launch H FL X st pend" "only_writes H s t"
  shows "stakes_to_be st pend (world t) = stakes_to_be st pend (world s) \<and>
    (pend (world s) = [] \<longrightarrow> pend (world t) = []) \<and> (\<exists>es. trace t = trace s @ es)"
proof -
  from assms(2) obtain es where es: "steps H s es t" "\<forall>e \<in> set es. \<exists>p c. fst e = WriteFile p c"
    by (auto simp: only_writes_def)
  have "\<forall>e \<in> set es. \<not> is_add_pool FL (fst e)" using es(2) by (auto simp: is_add_pool_def)
  from served_block [OF assms(1) _ this] es(1) show ?thesis by (auto simp: steps_def)
qed

text \<open>One registration of the script: other requests, \<open>addPool\<close>, the sleep, \<open>poolLength\<close>.\<close>

lemma served_registration:
  assumes S: "serves_fair_launch H FL X st pend"
    and run: "exchange H w (pre @ (Send FL ''addPool(string,uint256,address,bool)''
        [Str symb, Num a, Str tok, Bool True] [], Inr x) # (Sleep 10000, Inr z) #
        (View FL ''poolLength()'' [], Inr (Big n)) # post) w'"
    and others: "\<forall>e \<in> set pre. \<not> is_add_pool FL (fst e)"
  shows "n = int (Suc (length (stakes_to_be st pend w))) \<and>
    (\<exists>u. stakes_to_be st pend u = stakes_to_be st pend w @ [tok] \<and> pend u = [] \<and> exchange H u post w')"
proof -
  from run obtain w1 where 1: "exchange H w pre w1" and r1: "exchange H w1 ((Send FL ''addPool(string,uint256,address,bool)''
        [Str symb, Num a, Str tok, Bool True] [], Inr x) # (Sleep 10000, Inr z) #
        (View FL ''poolLength()'' [], Inr (Big n)) # post) w'"
    by (auto simp: exchange_append simp del: exchange.simps)
  from exchange_Cons_Inr [OF r1] obtain w2 where
    2: "perform H (Send FL ''addPool(string,uint256,address,bool)'' [Str symb, Num a, Str tok, Bool True] []) w1 = (Inr x, w2)"
    and r2: "exchange H w2 ((Sleep 10000, Inr z) # (View FL ''poolLength()'' [], Inr (Big n)) # post) w'" by blast
  from exchange_Cons_Inr [OF r2] obtain w3 where 3: "perform H (Sleep 10000) w2 = (Inr z, w3)"
    and r3: "exchange H w3 ((View FL ''poolLength()'' [], Inr (Big n)) # post) w'" by blast
  from exchange_Cons_Inr [OF r3] obtain w4 where
    4: "perform H (View FL ''poolLength()'' []) w3 = (Inr (Big n), w4)" and r4: "exchange H w4 post w'" by blast
  have mined: "pend w3 = []" using S 3 unfolding serves_fair_launch_def by blast
  have no: "\<not> is_add_pool FL (Sleep 10000)" "\<not> is_add_pool FL (View FL ''poolLength()'' [])"
    by (simp_all add: is_add_pool_def)
  have "stakes_to_be st pend w3 = stakes_to_be st pend w @ [tok]"
    using served_block [OF S 1] served_add [OF S 2] served_other(1) [OF S no(1) 3] others by simp
  with served_other [OF S no(2) 4] mined served_length [OF S 4 mined] r4 show ?thesis by auto
qed

text \<open>The two registrations among the exchanges of a run.\<close>

lemma vault_requests_split:
  assumes "answers (vault_requests c e NAME ad ao base d v n m) es"
  obtains pre x z link y z' last where
    "es = pre @ (Send (FairLaunch_address c) ''addPool(string,uint256,address,bool)''
        [Str (''debt'' @ vault_symbol e), Num ao, Str d, Bool True] [], Inr x)
       # (Sleep 10000, Inr z) # (View (FairLaunch_address c) ''poolLength()'' [], Inr (Big n)) # link @
       (Send (FairLaunch_address c) ''addPool(string,uint256,address,bool)''
        [Str (vault_symbol e), Num ad, Str v, Bool True] [], Inr y)
       # (Sleep 10000, Inr z') # (View (FairLaunch_address c) ''poolLength()'' [], Inr (Big m)) # last"
    "\<forall>e \<in> set pre. \<not> is_add_pool FL (fst e)" "\<forall>e \<in> set link. \<not> is_add_pool FL (fst e)"
    "\<forall>e \<in> set last. \<not> is_add_pool FL (fst e)"
    "Send v ''setFairLaunchPoolId(uint256)'' [Big (n - 1)] [(''gasLimit'', Str ''2000000'')] \<in> fst ` set link"
proof -
  from assms obtain e1 e2 e3 e4 x z e8 y z' e12 where es: "es = [e1, e2, e3, e4,
      (Send (FairLaunch_address c) ''addPool(string,uint256,address,bool)''
        [Str (''debt'' @ vault_symbol e), Num ao, Str d, Bool True] [], Inr x), (Sleep 10000, Inr z),
      (View (FairLaunch_address c) ''poolLength()'' [], Inr (Big n)), e8,
      (Send (FairLaunch_address c) ''addPool(string,uint256,address,bool)''
        [Str (vault_symbol e), Num ad, Str v, Bool True] [], Inr y), (Sleep 10000, Inr z'),
      (View (FairLaunch_address c) ''poolLength()'' [], Inr (Big m)), e12]"
    and "map fst [e1, e2, e3, e4, e8, e12] =
      map fst (let rs = vault_requests c e NAME ad ao base d v n m in
        [rs ! 0, rs ! 1, rs ! 2, rs ! 3, rs ! 7, rs ! 11])"
    by (auto simp: vault_requests_def Let_def split: list.splits)
  then show ?thesis
    by (intro that [of "[e1, e2, e3, e4]" x z "[e8]" y z' "[e12]"])
       (auto simp: vault_requests_def Let_def is_add_pool_def image_iff)
qed

text \<open>
  C16: The vault is linked to its own pool: a successful run of an 011 script adds exactly the pools of the
  debt token and of the vault, records the ids these pools have in the contract, and sends
  \<open>setFairLaunchPoolId\<close> to the vault with the id of the debt token's pool; against the FairLaunch contract,
  when no \<open>addPool\<close> is pending at the start, nobody else adds a pool during the run, and the script's own
  accepted \<open>addPool\<close> calls do not revert and are mined by the end of the ten seconds it sleeps after each.
\<close>

theorem vault_linked_to_its_pools:
  assumes run: "deploy_vault i NAME ad ao base H s = (Inr u, t)"
    and S: "serves_fair_launch H (FairLaunch_address (config_of H s)) X st pend" and start: "pend (world s) = []"
  shows "\<exists>d v. let n = length (fl_stakes (st (world s))); symb = vault_symbol (Vaults (config_of H s) ! i) in
    fl_stakes (st (world t)) = fl_stakes (st (world s)) @ [d, v] \<and>
    FairLaunch_pools (config_of H t) = FairLaunch_pools (config_of H s) @
      [\<lparr>pool_id = int n, stakingToken = ''debt'' @ symb, pool_address = d\<rparr>,
       \<lparr>pool_id = int (Suc n), stakingToken = symb, pool_address = v\<rparr>] \<and>
    Send v ''setFairLaunchPoolId(uint256)'' [Big (int n)] [(''gasLimit'', Str ''2000000'')]
      \<in> fst ` set (drop (length (trace s)) (trace t))"
proof -
  let ?c = "config_of H s" and ?e = "Vaults (config_of H s) ! i"
  let ?FL = "FairLaunch_address ?c" and ?sym = "vault_symbol ?e" and ?n = "length (fl_stakes (st (world s)))"
  obtain d v n m es s' where
    ans: "answers (vault_requests ?c ?e NAME ad ao (token ?c base) d v n m) es"
    and es: "steps H s es s'" and wr: "only_writes H s' t"
    and pools: "FairLaunch_pools (config_of H t) = FairLaunch_pools ?c @
      [\<lparr>pool_id = n - 1, stakingToken = ''debt'' @ ?sym, pool_address = d\<rparr>,
       \<lparr>pool_id = m - 1, stakingToken = ?sym, pool_address = v\<rparr>]"
    by (rule deploy_vault_Inr [OF run]) simp
  from ans obtain pre x z link y z' last where split:
    "es = pre @ (Send ?FL ''addPool(string,uint256,address,bool)'' [Str (''debt'' @ ?sym), Num ao, Str d, Bool True] [], Inr x)
       # (Sleep 10000, Inr z) # (View ?FL ''poolLength()'' [], Inr (Big n)) # link @
       (Send ?FL ''addPool(string,uint256,address,bool)'' [Str ?sym, Num ad, Str v, Bool True] [], Inr y)
       # (Sleep 10000, Inr z') # (View ?FL ''poolLength()'' [], Inr (Big m)) # last"
    and others: "\<forall>e \<in> set pre. \<not> is_add_pool ?FL (fst e)" "\<forall>e \<in> set link. \<not> is_add_pool ?FL (fst e)"
      "\<forall>e \<in> set last. \<not> is_add_pool ?FL (fst e)"
    and link: "Send v ''setFairLaunchPoolId(uint256)'' [Big (n - 1)] [(''gasLimit'', Str ''2000000'')] \<in> fst ` set link"
    by (rule vault_requests_split)
  have s0: "stakes_to_be st pend (world s) = fl_stakes (st (world s))" by (simp add: stakes_to_be_def start)
  from es have ex: "exchange H (world s) es (world s')" by (simp add: steps_def)
  from served_registration [OF S ex [unfolded split] others(1)] obtain w1 where
    n: "n = int (Suc ?n)" and w1: "stakes_to_be st pend w1 = fl_stakes (st (world s)) @ [d]"
    and ex1: "exchange H w1 (link @
       (Send ?FL ''addPool(string,uint256,address,bool)'' [Str ?sym, Num ad, Str v, Bool True] [], Inr y)
       # (Sleep 10000, Inr z') # (View ?FL ''poolLength()'' [], Inr (Big m)) # last) (world s')" unfolding s0 by blast
  from served_registration [OF S ex1 others(2)] obtain w2 where
    m: "m = int (Suc (Suc ?n))" and w2: "stakes_to_be st pend w2 = fl_stakes (st (world s)) @ [d, v]" "pend w2 = []"
    and ex2: "exchange H w2 last (world s')" by (auto simp: w1)
  have "stakes_to_be st pend (world t) = fl_stakes (st (world s)) @ [d, v]" "pend (world t) = []"
    using served_block [OF S ex2 others(3)] only_writes_stakes [OF S wr] w2 by simp_all
  then have "fl_stakes (st (world t)) = fl_stakes (st (world s)) @ [d, v]" by (simp add: stakes_to_be_def)
  moreover have "set es \<subseteq> set (drop (length (trace s)) (trace t))"
    using es only_writes_stakes [OF S wr] by (auto simp: steps_def)
  then have "Send v ''setFairLaunchPoolId(uint256)'' [Big (int ?n)] [(''gasLimit'', Str ''2000000'')]
      \<in> fst ` set (drop (length (trace s)) (trace t))"
    using link n by (auto simp: split)
  ultimately show ?thesis using pools by (auto simp: n m Let_def)
qed

text \<open>
  A runtime at whose address \<open>L\<close> the FairLaunch model stands: an \<open>addPool\<close> is kept until the next sleep of
  ten seconds, which mines what is kept, and fails when that reverts.
\<close>

type_synonym chain = "nat \<times> nat fl_state \<times> pool_args list"

definition mine_all :: "pool_args list \<Rightarrow> nat fl_state \<Rightarrow> nat fl_state result" where
  "mine_all p st = foldE (\<lambda>st (symb, alloc, tok, u). addPool sample_fl_ext sample_msg symb alloc tok u st) st p"

lemma mine_all_mined: "mine_all p st = Inr st' \<Longrightarrow> mined sample_fl_ext (st, p) (st', [])"
proof (induction p arbitrary: st)
  case (Cons a p)
  obtain symb alloc tok u where a: "a = (symb, alloc, tok, u)" by (cases a) auto
  from Cons.prems obtain st1 where one: "addPool sample_fl_ext sample_msg symb alloc tok u st = Inr st1"
    and rest: "mine_all p st1 = Inr st'" by (auto simp: mine_all_def a)
  show ?case unfolding a by (rule mined_pool [OF one Cons.IH [OF rest]])
qed (simp add: mine_all_def mined_end)

definition chain_perform :: "request \<Rightarrow> chain \<Rightarrow> val result \<times> chain" where
  "chain_perform r = (\<lambda>(k, st, p). case r of
     Send a f args ov \<Rightarrow> if is_add_pool ''L'' r then (case args of
         [Str symb, Num n, Str tok, Bool u] \<Rightarrow> (Inr Undef, (k, st, p @ [(symb, nat n, tok, u)]))
       | _ \<Rightarrow> (Inl (Throw ''invalid arguments''), (k, st, p)))
       else (Inr Undef, (k, st, p))
   | Sleep n \<Rightarrow> if n < 10000 then (Inr Undef, (k, st, p)) else (case mine_all p st of
         Inr st' \<Rightarrow> (Inr Undef, (k, st', [])) | Inl e \<Rightarrow> (Inl e, (k, st, p)))
   | View a f args \<Rightarrow> (Inr (Big (int (poolLength (fst st)))), (k, st, p))
   | _ \<Rightarrow> (fst (sample_perform r k), (Suc k, st, p)))"

definition chain_hre :: "chain hre" where
  "chain_hre =
     \<lparr>network_name = ''testnet'', deployer = ''d'', signer0 = ''d'', perform = chain_perform,
      parseEther = (\<lambda>_. Inr (Big 1)), abi_encode = (\<lambda>_ vs. Inr (Arr vs))\<rparr>"

definition chain_js :: "chain js" where
  "chain_js = \<lparr>world = (0, (sample_fl, 0), []), MainnetConfig = sample_config, TestnetConfig = sample_config,
     trace = [], printed = []\<rparr>"

lemma chain_serves: "serves_fair_launch chain_hre ''L'' sample_fl_ext (\<lambda>w. fst (snd w)) (\<lambda>w. snd (snd w))"
  by (auto simp: serves_fair_launch_def chain_hre_def chain_perform_def is_add_pool_def
      split: request.splits sum.splits if_splits intro: mined_end mine_all_mined)

lemma chain_runs: "\<exists>t. deploy_vault 0 ''V'' 200 300 ''BUSD'' chain_hre chain_js = (Inr (), t)"
  by (simp add: deploy_vault_def Let_def bindS_def thenS_def retS_def getConfig_def vaultAt_def
      askAddress_def askUnit_def askBig_def ask_def add_fair_launch_pool_def toNumber_def pushPool_def
      modifyConfig_def record_vault_def record_step_def setVault_def FileService_write_def hreS_def
      config_of_def set_config_def chain_hre_def chain_js_def chain_perform_def sample_perform_def mine_all_def
      is_add_pool_def token_def sample_config_def addPool_def owner_only_def sample_fl_ext_def
      massUpdatePools_def sample_fl_def fl_constructor_def zero_address_def isDuplicatedPool_def
      checked_math_def uint_max_def new_pool_def updatePool_def poolAt_def sample_msg_def poolLength_def
      completed_entry_def setPoolInfo_def)

theorem vault_linked_to_its_pools_witness:
  "\<exists>t d v. deploy_vault 0 ''V'' 200 300 ''BUSD'' chain_hre chain_js = (Inr (), t) \<and>
     fl_stakes (fst (snd (world t))) = [d, v] \<and>
     map pool_id (FairLaunch_pools (config_of chain_hre t)) = [0, 1]"
proof -
  obtain t where t: "deploy_vault 0 ''V'' 200 300 ''BUSD'' chain_hre chain_js = (Inr (), t)"
    using chain_runs by blast
  have L: "FairLaunch_address (config_of chain_hre chain_js) = ''L''"
      "FairLaunch_pools (config_of chain_hre chain_js) = []"
    by (simp_all add: config_of_def chain_hre_def chain_js_def sample_config_def)
  have "fl_stakes (fst (snd (world chain_js))) = []" "snd (snd (world chain_js)) = []"
    by (simp_all add: chain_js_def fl_stakes_def sample_fl_def fl_constructor_def)
  with vault_linked_to_its_pools [OF t, unfolded L, OF chain_serves] t show ?thesis
    by (auto simp: Let_def)
qed

end
