(* ===== verification/Vault_Guards.thy ===== *)
theory Vault_Guards
  imports Solidity
begin

text \<open>
  The two comparisons by which \<open>contracts/6/protocol/Vault.sol\<close> protects its lenders: \<open>work\<close> accepts a
  debt and \<open>kill\<close> liquidates a position on the value of the position and a factor of its worker.
\<close>

definition work_guard :: "safe_math \<Rightarrow> nat \<Rightarrow> nat \<Rightarrow> nat \<Rightarrow> unit result" where
  "work_guard M health debt factor = bindE (sm_mul M health factor) (\<lambda>a.
     bindE (sm_mul M debt 10000) (\<lambda>b. require (a \<ge> b) ''Vault::work: bad work factor''))"

definition kill_guard :: "safe_math \<Rightarrow> nat \<Rightarrow> nat \<Rightarrow> nat \<Rightarrow> unit result" where
  "kill_guard M health debt factor = bindE (sm_mul M health factor) (\<lambda>a.
     bindE (sm_mul M debt 10000) (\<lambda>b. require (a < b) ''Vault::kill: can't liquidate''))"

lemma guards_iff:
  assumes "safe_math_ok M"
  shows "work_guard M health debt f = Inr () \<longleftrightarrow>
      health * f \<le> uint_max \<and> debt * 10000 \<le> uint_max \<and> debt * 10000 \<le> health * f"
    and "kill_guard M health debt f = Inr () \<longleftrightarrow>
      health * f \<le> uint_max \<and> debt * 10000 \<le> uint_max \<and> health * f < debt * 10000"
  by (auto simp: work_guard_def kill_guard_def safe_math_iff [OF assms])

end
