(* ===== verification/Worker_Scripts.thy ===== *)
theory Worker_Scripts
  imports Vault_Scripts
begin

text \<open>
  The scripts \<open>deploy/scripts/014-1\<close> to \<open>014-8\<close> deploy the workers of the eight vaults: the contracts
  that open and close leveraged positions in one liquidity pool each.  Every file is a table of
  workers and a loop over it.  The loops are three texts, which differ in when a worker is written
  to the configuration file; the tables are eight, with risk parameters per worker.
\<close>

section \<open>A row of a table\<close>

record worker_row =
  WORKER_NAME :: string
  POOL_ID :: int
  REINVEST_BOUNTY_BPS :: string
  WORK_FACTOR :: string
  KILL_FACTOR :: string
  MAX_PRICE_DIFF :: string
  REINVEST_BOT :: string
  BASE_TOKEN_ADDR :: val
  VAULT_CONFIG_ADDR :: string
  WORKER_CONFIG_ADDR :: string
  VAULT_ADDR :: string
  MASTER_CHEF_ADDR :: string
  PANCAKESWAP_ROUTER_ADDR :: string
  ADD_STRAT_ADDR :: string
  LIQ_STRAT_ADDR :: string
  STRATS :: "string list"

text \<open>All rows read the same members of the configuration, save the name of the base token.\<close>

definition row_of ::
  "config \<Rightarrow> vault_entry \<Rightarrow> string \<Rightarrow> string \<Rightarrow> int \<Rightarrow> string \<Rightarrow> string \<Rightarrow> string \<Rightarrow> worker_row" where
  "row_of config vault baseToken name poolId work kill priceDiff =
     \<lparr>WORKER_NAME = name, POOL_ID = poolId, REINVEST_BOUNTY_BPS = ''200'', WORK_FACTOR = work,
      KILL_FACTOR = kill, MAX_PRICE_DIFF = priceDiff, REINVEST_BOT = AdminAddress config,
      BASE_TOKEN_ADDR = token config baseToken, VAULT_CONFIG_ADDR = vault_config vault,
      WORKER_CONFIG_ADDR = WorkerConfig config, VAULT_ADDR = vault_address vault,
      MASTER_CHEF_ADDR = MasterChef config, PANCAKESWAP_ROUTER_ADDR = RouterV2 config,
      ADD_STRAT_ADDR = StrategyAddBaseTokenOnly config, LIQ_STRAT_ADDR = StrategyLiquidate config,
      STRATS = [StrategyPartialCloseLiquidate config, StrategyPartialCloseMinimizeTrading config,
        StrategyWithdrawMinimizeTrading config, vault_StrategyAddTwoSidesOptimal vault]\<rparr>"

section \<open>The body of the loop\<close>

definition worker_request :: "bool \<Rightarrow> worker_row \<Rightarrow> request" where
  "worker_request unsafeAllow r =
     DeployProxy ''PancakeswapV2Worker''
       [Str (VAULT_ADDR r), BASE_TOKEN_ADDR r, Str (MASTER_CHEF_ADDR r), Str (PANCAKESWAP_ROUTER_ADDR r),
        Num (POOL_ID r), Str (ADD_STRAT_ADDR r), Str (LIQ_STRAT_ADDR r), Str (REINVEST_BOUNTY_BPS r)]
       unsafeAllow"

definition deploy_worker :: "bool \<Rightarrow> worker_row \<Rightarrow> ('w, string) script" where
  "deploy_worker unsafeAllow r = askAddress (worker_request unsafeAllow r)"

definition setWorkersOk :: "string \<Rightarrow> string \<Rightarrow> request" where
  "setWorkersOk worker strat = Send strat ''setWorkersOk(address[],bool)'' [Arr [Str worker], Bool True] []"

definition risk_params :: "worker_row \<Rightarrow> val" where
  "risk_params r = Obj [(''acceptDebt'', Bool True), (''workFactor'', Str (WORK_FACTOR r)),
     (''killFactor'', Str (KILL_FACTOR r)), (''maxPriceDiff'', Str (MAX_PRICE_DIFF r))]"

text \<open>The transactions that let a deployed worker operate, in the order of the code.\<close>

definition link_requests :: "worker_row \<Rightarrow> string \<Rightarrow> request list" where
  "link_requests r worker =
     [Send worker ''setReinvestorOk(address[],bool)'' [Arr [Str (REINVEST_BOT r)], Bool True] [],
      Send worker ''setStrategyOk(address[],bool)'' [Arr (map Str (STRATS r)), Bool True] [],
      setWorkersOk worker (ADD_STRAT_ADDR r),
      setWorkersOk worker (LIQ_STRAT_ADDR r)] @
     map (setWorkersOk worker) (STRATS r) @
     [Send (WORKER_CONFIG_ADDR r) ''setConfigs(address[],(bool,uint64,uint64,uint64)[])''
        [Arr [Str worker], Arr [risk_params r]] [],
      Send (VAULT_CONFIG_ADDR r) ''setWorkers(address[],address[])''
        [Arr [Str worker], Arr [Str (WORKER_CONFIG_ADDR r)]] []]"

definition link_worker :: "worker_row \<Rightarrow> string \<Rightarrow> ('w, unit) script" where
  "link_worker r worker = forS askUnit (link_requests r worker)"

definition entry_of :: "worker_row \<Rightarrow> string \<Rightarrow> worker_entry" where
  "entry_of r worker =
     \<lparr>worker_name = WORKER_NAME r, worker_address = worker, worker_config = WORKER_CONFIG_ADDR r,
      worker_pId = POOL_ID r\<rparr>"

definition push_worker :: "nat \<Rightarrow> worker_row \<Rightarrow> string \<Rightarrow> ('w, unit) script" where
  "push_worker vaultIndex r worker =
     setVault vaultIndex (\<lambda>e. e\<lparr>vault_workers := vault_workers e @ [entry_of r worker]\<rparr>)"

section \<open>The three loops\<close>

type_synonym worker_table = "config \<Rightarrow> vault_entry \<Rightarrow> worker_row list"

text \<open>\<open>014-1\<close>: the file is written once, after the loop.\<close>

definition worker_then_push :: "nat \<Rightarrow> worker_row \<Rightarrow> ('w, unit) script" where
  "worker_then_push vaultIndex r =
     bindS (deploy_worker True r) (\<lambda>worker.
     thenS (link_worker r worker) (push_worker vaultIndex r worker))"

definition deploy_workers_then_write :: "nat \<Rightarrow> worker_table \<Rightarrow> nat \<Rightarrow> ('w, unit) script" where
  "deploy_workers_then_write vaultIndex table start =
     bindS getConfig (\<lambda>config. bindS (vaultAt vaultIndex) (\<lambda>vault.
     thenS (forS (worker_then_push vaultIndex) (drop start (table config vault))) FileService_write))"

text \<open>\<open>014-2\<close>: every worker is written after its transactions.\<close>

definition worker_linked_first :: "nat \<Rightarrow> worker_row \<Rightarrow> ('w, unit) script" where
  "worker_linked_first vaultIndex r =
     bindS (deploy_worker False r) (\<lambda>worker.
     thenS (link_worker r worker)
     (thenS (push_worker vaultIndex r worker) FileService_write))"

definition deploy_workers_linked_first :: "nat \<Rightarrow> worker_table \<Rightarrow> nat \<Rightarrow> ('w, unit) script" where
  "deploy_workers_linked_first vaultIndex table start =
     bindS getConfig (\<lambda>config. bindS (vaultAt vaultIndex) (\<lambda>vault.
     forS (worker_linked_first vaultIndex) (drop start (table config vault))))"

text \<open>\<open>014-3\<close> to \<open>014-8\<close>: every worker is written as soon as it is deployed.\<close>

definition worker_recorded_first :: "nat \<Rightarrow> worker_row \<Rightarrow> ('w, unit) script" where
  "worker_recorded_first vaultIndex r =
     bindS (deploy_worker True r) (\<lambda>worker.
     thenS (push_worker vaultIndex r worker)
     (thenS FileService_write (link_worker r worker)))"

definition deploy_workers_recorded_first :: "nat \<Rightarrow> worker_table \<Rightarrow> nat \<Rightarrow> ('w, unit) script" where
  "deploy_workers_recorded_first vaultIndex table start =
     bindS getConfig (\<lambda>config. bindS (vaultAt vaultIndex) (\<lambda>vault.
     forS (worker_recorded_first vaultIndex) (drop start (table config vault))))"

section \<open>The tables\<close>

definition workers_huski :: worker_table where
  "workers_huski config vault =
     (let row = row_of config vault ''HUSKY'' in [
      row ''BUSD-HUSKI Worker'' (-1) ''5500'' ''7000'' ''11000''])"

definition deploy_workers_huski :: "('w, unit) script" where
  "deploy_workers_huski = deploy_workers_then_write 1 workers_huski 0"

definition workers_busd_1 :: worker_table where
  "workers_busd_1 config vault =
     (let row = row_of config vault ''BUSD'' in [
      row ''CAKE-BUSD Worker'' 389 ''7000'' ''8000'' ''11000'',
      row ''BNB-BUSD Worker'' 252 ''7000'' ''8000'' ''11000'',
      row ''USDT-BUSD Worker'' 258 ''8600'' ''9100'' ''11000'',
      row ''USDC-BUSD Worker'' 283 ''7800'' ''8900'' ''11000''])"

definition workers_busd_2 :: worker_table where
  "workers_busd_2 config vault =
     (let row = row_of config vault ''BUSD'' in [
      row ''DAI-BUSD Worker'' 282 ''7800'' ''8900'' ''11000'',
      row ''TRX-BUSD Worker'' 442 ''7000'' ''8000'' ''11000'',
      row ''BTT-BUSD Worker'' 443 ''7000'' ''8000'' ''11000''])"

definition workers_busd :: worker_table where
  "workers_busd config vault = workers_busd_1 config vault @ workers_busd_2 config vault"

definition deploy_workers_busd :: "('w, unit) script" where
  "deploy_workers_busd = deploy_workers_linked_first 2 workers_busd 5"

definition workers_bnb_1 :: worker_table where
  "workers_bnb_1 config vault =
     (let row = row_of config vault ''WBNB'' in [
      row ''CAKE-BNB Worker'' 251 ''7000'' ''8000'' ''11000'',
      row ''BUSD-BNB Worker'' 252 ''7000'' ''8000'' ''11000'',
      row ''USDT-BNB Worker'' 264 ''7000'' ''8000'' ''11000'',
      row ''ETH-BNB Worker'' 261 ''7000'' ''8000'' ''11000'',
      row ''BTCB-BNB Worker'' 262 ''7000'' ''8000'' ''11000''])"

definition workers_bnb_2 :: worker_table where
  "workers_bnb_2 config vault =
     (let row = row_of config vault ''WBNB'' in [
      row ''DOT-BNB Worker'' 255 ''7000'' ''8000'' ''11000'',
      row ''ADA-BNB Worker'' 253 ''7000'' ''8000'' ''11000'',
      row ''UNI-BNB Worker'' 268 ''7000'' ''8000'' ''11000'',
      row ''LINK-BNB Worker'' 257 ''7000'' ''8000'' ''11000'',
      row ''XVS-BNB Worker'' 260 ''7000'' ''8000'' ''11000''])"

definition workers_bnb_3 :: worker_table where
  "workers_bnb_3 config vault =
     (let row = row_of config vault ''WBNB'' in [
      row ''DOT-BNB Worker'' 255 ''7000'' ''8000'' ''11000'',
      row ''AXS-BNB Worker'' 430 ''7000'' ''8000'' ''11000'',
      row ''DODO-BNB Worker'' 305 ''7000'' ''8000'' ''11000''])"

definition workers_bnb :: worker_table where
  "workers_bnb config vault = workers_bnb_1 config vault @ workers_bnb_2 config vault @ workers_bnb_3 config vault"

definition deploy_workers_bnb :: "('w, unit) script" where
  "deploy_workers_bnb = deploy_workers_recorded_first 3 workers_bnb 12"

definition workers_usdt :: worker_table where
  "workers_usdt config vault =
     (let row = row_of config vault ''USDT'' in [
      row ''CAKE-USDT Worker'' 422 ''7000'' ''8000'' ''11000'',
      row ''BNB-USDT Worker'' 264 ''7000'' ''8000'' ''11000'',
      row ''BUSD-USDT Worker'' 258 ''8600'' ''9100'' ''11000'',
      row ''USDC-USDT Worker'' 423 ''7800'' ''8900'' ''11000''])"

definition deploy_workers_usdt :: "('w, unit) script" where
  "deploy_workers_usdt = deploy_workers_recorded_first 4 workers_usdt 1"

definition workers_cake :: worker_table where
  "workers_cake config vault =
     (let row = row_of config vault ''CAKE'' in [
      row ''BNB-CAKE Worker'' 21 ''7000'' ''8000'' ''11000'',
      row ''USDT-CAKE Worker'' 57 ''7000'' ''8000'' ''11000'',
      row ''BUSD-CAKE Worker'' 49 ''7000'' ''8000'' ''11000''])"

definition deploy_workers_cake :: "('w, unit) script" where
  "deploy_workers_cake = deploy_workers_recorded_first 5 workers_cake 0"

definition workers_eth :: worker_table where
  "workers_eth config vault =
     (let row = row_of config vault ''ETH'' in [
      row ''BNB-ETH Worker'' 261 ''7000'' ''8000'' ''11000'',
      row ''SUSHI-ETH Worker'' 306 ''7000'' ''8000'' ''11000''])"

definition deploy_workers_eth :: "('w, unit) script" where
  "deploy_workers_eth = deploy_workers_recorded_first 6 workers_eth 0"

definition workers_btcb :: worker_table where
  "workers_btcb config vault =
     (let row = row_of config vault ''BTCB'' in [
      row ''BNB-BTCB Worker'' 262 ''5500'' ''7000'' ''11000'',
      row ''BUSD-BTCB Worker'' 365 ''5500'' ''7000'' ''11000''])"

definition deploy_workers_btcb :: "('w, unit) script" where
  "deploy_workers_btcb = deploy_workers_recorded_first 7 workers_btcb 0"

definition workers_usdc :: worker_table where
  "workers_usdc config vault =
     (let row = row_of config vault ''USDC'' in [
      row ''BUSD-USDC Worker'' 283 ''7800'' ''8900'' ''11000'',
      row ''USDT-USDC Worker'' 423 ''7800'' ''8900'' ''11000''])"

definition deploy_workers_usdc :: "('w, unit) script" where
  "deploy_workers_usdc = deploy_workers_recorded_first 8 workers_usdc 0"

section \<open>The transactions of a run\<close>

definition is_write :: "request \<Rightarrow> bool" where
  "is_write r = (case r of WriteFile _ _ \<Rightarrow> True | _ \<Rightarrow> False)"

text \<open>The requests of a list of exchanges other than writing the file.\<close>

definition calls :: "(request \<times> val result) list \<Rightarrow> request list" where
  "calls es = filter (\<lambda>r. \<not> is_write r) (map fst es)"

lemma calls_simps [simp]:
  "calls [] = []" "calls (e # es) = (if is_write (fst e) then calls es else fst e # calls es)"
  "calls (es @ fs) = calls es @ calls fs"
  by (simp_all add: calls_def)

lemma is_write_simps [simp]:
  "is_write (WriteFile p c)" "\<not> is_write (worker_request b r)" "\<not> is_write (Send a f args ov)"
  by (simp_all add: is_write_def worker_request_def)

lemma calls_no_write: "\<forall>r \<in> set (map fst es). \<not> is_write r \<Longrightarrow> calls es = map fst es"
  by (simp add: calls_def filter_id_conv)

lemma link_requests_send: "r \<in> set (link_requests w a) \<Longrightarrow> \<exists>b f args ov. r = Send b f args ov"
  by (auto simp: link_requests_def setWorkersOk_def)

lemma askUnits_Inr:
  "forS askUnit rs H s = (Inr u, t) \<Longrightarrow>
   \<exists>es. steps H s es t \<and> map fst es = rs \<and> config_of H t = config_of H s"
proof (induction rs arbitrary: s)
  case (Cons r rs)
  from Cons.prems obtain v s' where ask: "ask r H s = (Inr v, s')" and rest: "forS askUnit rs H s' = (Inr u, t)"
    by (auto simp: thenS_Inr askUnit_Inr)
  from Cons.IH [OF rest] obtain es where "steps H s' es t" "map fst es = rs" "config_of H t = config_of H s'"
    by blast
  then show ?case
    using steps_ask [OF ask] ask_config(1) [OF ask] by (intro exI [of _ "(r, Inr v) # es"]) simp
qed (auto simp: retS_Inr intro!: exI [of _ "[]"])

lemma link_worker_Inr:
  assumes "link_worker r a H s = (Inr u, t)"
  shows "\<exists>es. steps H s es t \<and> calls es = link_requests r a \<and> config_of H t = config_of H s"
proof -
  from askUnits_Inr [OF assms [unfolded link_worker_def]] obtain es where
    es: "steps H s es t" "map fst es = link_requests r a" "config_of H t = config_of H s" by blast
  have "calls es = link_requests r a"
    using calls_no_write [of es] link_requests_send by (metis es(2) is_write_simps(3))
  with es show ?thesis by blast
qed

definition add_worker :: "nat \<Rightarrow> worker_row \<Rightarrow> string \<Rightarrow> config \<Rightarrow> config" where
  "add_worker i r a c = c\<lparr>Vaults := (Vaults c)[i :=
     (Vaults c ! i)\<lparr>vault_workers := vault_workers (Vaults c ! i) @ [entry_of r a]\<rparr>]\<rparr>"

lemma push_worker_Inr:
  "push_worker i r a H s = (Inr u, t) \<longleftrightarrow> t = set_config H (add_worker i r a (config_of H s)) s"
  by (simp add: push_worker_def setVault_def modifyConfig_Inr add_worker_def)

lemma deploy_worker_Inr:
  "deploy_worker b r H s = (Inr a, t) \<longleftrightarrow> ask (worker_request b r) H s = (Inr (Str a), t)"
  by (simp add: deploy_worker_def askAddress_Inr)

text \<open>
  What one round of any of the loops does for a row \<open>r\<close>: deploys one worker, links it with the
  transactions of the row, and records it.
\<close>

definition worker_calls :: "bool \<Rightarrow> worker_row \<Rightarrow> string \<Rightarrow> request list" where
  "worker_calls b r a = worker_request b r # link_requests r a"

locale worker_round =
  fixes round :: "worker_row \<Rightarrow> ('w, unit) script" and i :: nat and b :: bool
  assumes round_Inr: "round r H s = (Inr u, t) \<Longrightarrow>
    \<exists>a es. config_of H t = add_worker i r a (config_of H s) \<and> steps H s es t \<and>
      calls es = worker_calls b r a \<and> (worker_request b r, Inr (Str a)) \<in> set es"
begin

lemma loop_Inr:
  "forS round rs H s = (Inr u, t) \<Longrightarrow>
   \<exists>as es. length as = length rs \<and>
     config_of H t = fold (\<lambda>(r, a). add_worker i r a) (zip rs as) (config_of H s) \<and>
     steps H s es t \<and> calls es = concat (map2 (worker_calls b) rs as) \<and>
     (\<forall>(r, a) \<in> set (zip rs as). (worker_request b r, Inr (Str a)) \<in> set es)"
proof (induction rs arbitrary: s)
  case Nil
  then show ?case by (auto simp: retS_Inr intro!: exI [of _ "[]"])
next
  case (Cons r rs)
  from Cons.prems obtain s' where one: "round r H s = (Inr (), s')" and rest: "forS round rs H s' = (Inr u, t)"
    by (auto simp: thenS_Inr)
  from round_Inr [OF one] obtain a es where 1:
    "config_of H s' = add_worker i r a (config_of H s)" "steps H s es s'"
    "calls es = worker_calls b r a" "(worker_request b r, Inr (Str a)) \<in> set es" by blast
  from Cons.IH [OF rest] obtain as fs where 2: "length as = length rs"
    "config_of H t = fold (\<lambda>(r, a). add_worker i r a) (zip rs as) (config_of H s')"
    "steps H s' fs t" "calls fs = concat (map2 (worker_calls b) rs as)"
    "\<forall>(r, a) \<in> set (zip rs as). (worker_request b r, Inr (Str a)) \<in> set fs" by blast
  show ?case
    using 1 2 steps_trans [OF 1(2) 2(3)]
    by (intro exI [of _ "a # as"] exI [of _ "es @ fs"]) auto
qed

end

lemma write_steps:
  assumes "FileService_write H s = (Inr u, t)"
  shows "\<exists>es. steps H s es t \<and> calls es = [] \<and> config_of H t = config_of H s"
proof -
  from assms obtain v where
    "ask (WriteFile (''./deploy/results/'' @ network_name H @ ''.json'') (config_of H s)) H s = (Inr v, t)"
    by (auto simp: FileService_write_Inr)
  from ask_steps [OF this] show ?thesis by fastforce
qed

lemma then_push_round:
  assumes "worker_then_push i r H s = (Inr u, t)"
  shows "\<exists>a es. config_of H t = add_worker i r a (config_of H s) \<and> steps H s es t \<and>
    calls es = worker_calls True r a \<and> (worker_request True r, Inr (Str a)) \<in> set es"
proof -
  from assms obtain a s1 s2 where
    1: "ask (worker_request True r) H s = (Inr (Str a), s1)"
    and 2: "link_worker r a H s1 = (Inr (), s2)" and 3: "t = set_config H (add_worker i r a (config_of H s2)) s2"
    by (auto simp: worker_then_push_def bindS_Inr thenS_Inr deploy_worker_Inr push_worker_Inr)
  from link_worker_Inr [OF 2] obtain es where es: "steps H s1 es s2" "calls es = link_requests r a"
    "config_of H s2 = config_of H s1" by blast
  then show ?thesis
    using steps_ask [OF 1 es(1)] ask_config(1) [OF 1]
    by (intro exI [of _ a] exI [of _ "(worker_request True r, Inr (Str a)) # es"]) (simp add: 3 worker_calls_def)
qed

lemma linked_first_round:
  assumes "worker_linked_first i r H s = (Inr u, t)"
  shows "\<exists>a es. config_of H t = add_worker i r a (config_of H s) \<and> steps H s es t \<and>
    calls es = worker_calls False r a \<and> (worker_request False r, Inr (Str a)) \<in> set es"
proof -
  from assms obtain a s1 s2 where
    1: "ask (worker_request False r) H s = (Inr (Str a), s1)" and 2: "link_worker r a H s1 = (Inr (), s2)"
    and 3: "FileService_write H (set_config H (add_worker i r a (config_of H s2)) s2) = (Inr u, t)"
    by (auto simp: worker_linked_first_def bindS_Inr thenS_Inr deploy_worker_Inr push_worker_Inr)
  from link_worker_Inr [OF 2] obtain es where es: "steps H s1 es s2" "calls es = link_requests r a"
    "config_of H s2 = config_of H s1" by blast
  from write_steps [OF 3] obtain fs where fs: "steps H s2 fs t" "calls fs = []"
    "config_of H t = add_worker i r a (config_of H s2)" by auto
  show ?thesis
    using steps_ask [OF 1 steps_trans [OF es(1) fs(1)]] ask_config(1) [OF 1] es fs
    by (intro exI [of _ a] exI [of _ "(worker_request False r, Inr (Str a)) # es @ fs"]) (simp add: worker_calls_def)
qed

lemma recorded_first_round:
  assumes "worker_recorded_first i r H s = (Inr u, t)"
  shows "\<exists>a es. config_of H t = add_worker i r a (config_of H s) \<and> steps H s es t \<and>
    calls es = worker_calls True r a \<and> (worker_request True r, Inr (Str a)) \<in> set es"
proof -
  from assms obtain a s1 s2 where
    1: "ask (worker_request True r) H s = (Inr (Str a), s1)"
    and 2: "FileService_write H (set_config H (add_worker i r a (config_of H s1)) s1) = (Inr (), s2)"
    and 3: "link_worker r a H s2 = (Inr u, t)"
    by (auto simp: worker_recorded_first_def bindS_Inr thenS_Inr deploy_worker_Inr push_worker_Inr)
  from write_steps [OF 2] obtain fs where fs: "steps H s1 fs s2" "calls fs = []"
    "config_of H s2 = add_worker i r a (config_of H s1)" by auto
  from link_worker_Inr [OF 3] obtain es where es: "steps H s2 es t" "calls es = link_requests r a"
    "config_of H t = config_of H s2" by blast
  show ?thesis
    using steps_ask [OF 1 steps_trans [OF fs(1) es(1)]] ask_config(1) [OF 1] es fs
    by (intro exI [of _ a] exI [of _ "(worker_request True r, Inr (Str a)) # fs @ es"]) (simp add: worker_calls_def)
qed

interpretation then_push: worker_round "worker_then_push i" i True for i
  by unfold_locales (rule then_push_round)

interpretation linked_first: worker_round "worker_linked_first i" i False for i
  by unfold_locales (rule linked_first_round)

interpretation recorded_first: worker_round "worker_recorded_first i" i True for i
  by unfold_locales (rule recorded_first_round)

lemma add_workers:
  assumes "length as = length rs" and "i < length (Vaults c)"
  shows "fold (\<lambda>(r, a). add_worker i r a) (zip rs as) c =
    c\<lparr>Vaults := (Vaults c)[i := (Vaults c ! i)\<lparr>vault_workers := vault_workers (Vaults c ! i) @ map2 entry_of rs as\<rparr>]\<rparr>"
  using assms by (induction rs as arbitrary: c rule: list_induct2') (auto simp: add_worker_def)

section \<open>What the worker scripts do\<close>

text \<open>The scripts, by the variant of the loop.\<close>

datatype loop_variant = Then_write | Linked_first | Recorded_first

fun deploy_workers :: "loop_variant \<Rightarrow> nat \<Rightarrow> worker_table \<Rightarrow> nat \<Rightarrow> ('w, unit) script" where
  "deploy_workers Then_write = deploy_workers_then_write"
| "deploy_workers Linked_first = deploy_workers_linked_first"
| "deploy_workers Recorded_first = deploy_workers_recorded_first"

definition workers_plan :: "(loop_variant \<times> nat \<times> worker_table \<times> nat) list" where
  "workers_plan =
     [(Then_write, 1, workers_huski, 0), (Linked_first, 2, workers_busd, 5),
      (Recorded_first, 3, workers_bnb, 12), (Recorded_first, 4, workers_usdt, 1),
      (Recorded_first, 5, workers_cake, 0), (Recorded_first, 6, workers_eth, 0),
      (Recorded_first, 7, workers_btcb, 0), (Recorded_first, 8, workers_usdc, 0)]"

lemma workers_plan_scripts:
  "[deploy_workers_huski, deploy_workers_busd, deploy_workers_bnb, deploy_workers_usdt,
    deploy_workers_cake, deploy_workers_eth, deploy_workers_btcb, deploy_workers_usdc] =
   map (\<lambda>(v, i, table, start). deploy_workers v i table start) workers_plan"
  by (simp add: workers_plan_def deploy_workers_huski_def deploy_workers_busd_def deploy_workers_bnb_def
      deploy_workers_usdt_def deploy_workers_cake_def deploy_workers_eth_def deploy_workers_btcb_def
      deploy_workers_usdc_def)

lemma deploy_workers_Inr:
  assumes run: "deploy_workers v i table start H s = (Inr u, t)"
  defines "c \<equiv> config_of H s" and "rows \<equiv> drop start (table (config_of H s) (Vaults (config_of H s) ! i))"
  shows "i < length (Vaults c) \<and> (\<exists>as es. length as = length rows \<and>
     config_of H t = c\<lparr>Vaults := (Vaults c)[i :=
       (Vaults c ! i)\<lparr>vault_workers := vault_workers (Vaults c ! i) @ map2 entry_of rows as\<rparr>]\<rparr> \<and>
     steps H s es t \<and> calls es = concat (map2 (worker_calls (v \<noteq> Linked_first)) rows as) \<and>
     (\<forall>(r, a) \<in> set (zip rows as). (worker_request (v \<noteq> Linked_first) r, Inr (Str a)) \<in> set es))"
proof (cases v)
  case Then_write
  from run obtain s' where i: "i < length (Vaults c)"
    and loop: "forS (worker_then_push i) rows H s = (Inr (), s')" and wr: "FileService_write H s' = (Inr u, t)"
    unfolding Then_write c_def rows_def
    by (auto simp: deploy_workers_then_write_def bindS_Inr thenS_Inr getConfig_Inr vaultAt_Inr)
  from then_push.loop_Inr [OF loop] obtain as es where l: "length as = length rows"
     "config_of H s' = fold (\<lambda>(r, a). add_worker i r a) (zip rows as) c"
     "steps H s es s'" "calls es = concat (map2 (worker_calls True) rows as)"
     "\<forall>(r, a) \<in> set (zip rows as). (worker_request True r, Inr (Str a)) \<in> set es" unfolding c_def by blast
  from write_steps [OF wr] obtain fs where fs: "steps H s' fs t" "calls fs = []" "config_of H t = config_of H s'"
    by blast
  show ?thesis
    using l fs steps_trans [OF l(3) fs(1)] i Then_write
    by (intro conjI exI [of _ as] exI [of _ "es @ fs"]) (auto simp: add_workers)
next
  case Linked_first
  from run have i: "i < length (Vaults c)" and loop: "forS (worker_linked_first i) rows H s = (Inr u, t)"
    unfolding Linked_first c_def rows_def
    by (auto simp: deploy_workers_linked_first_def bindS_Inr getConfig_Inr vaultAt_Inr)
  from linked_first.loop_Inr [OF loop] obtain as es where l: "length as = length rows"
     "config_of H t = fold (\<lambda>(r, a). add_worker i r a) (zip rows as) c"
     "steps H s es t" "calls es = concat (map2 (worker_calls False) rows as)"
     "\<forall>(r, a) \<in> set (zip rows as). (worker_request False r, Inr (Str a)) \<in> set es" unfolding c_def by blast
  show ?thesis
    using l i Linked_first by (intro conjI exI [of _ as] exI [of _ es]) (auto simp: add_workers)
next
  case Recorded_first
  from run have i: "i < length (Vaults c)" and loop: "forS (worker_recorded_first i) rows H s = (Inr u, t)"
    unfolding Recorded_first c_def rows_def
    by (auto simp: deploy_workers_recorded_first_def bindS_Inr getConfig_Inr vaultAt_Inr)
  from recorded_first.loop_Inr [OF loop] obtain as es where l: "length as = length rows"
     "config_of H t = fold (\<lambda>(r, a). add_worker i r a) (zip rows as) c"
     "steps H s es t" "calls es = concat (map2 (worker_calls True) rows as)"
     "\<forall>(r, a) \<in> set (zip rows as). (worker_request True r, Inr (Str a)) \<in> set es" unfolding c_def by blast
  show ?thesis
    using l i Recorded_first by (intro conjI exI [of _ as] exI [of _ es]) (auto simp: add_workers)
qed


section \<open>No deployed worker is lost\<close>

lemma askUnits_any:
  "forS askUnit rs H s = (x, t) \<Longrightarrow>
   \<exists>es. trace t = trace s @ es \<and> fst ` set es \<subseteq> set rs \<and> config_of H t = config_of H s"
proof (induction rs arbitrary: s)
  case (Cons r rs)
  obtain v s' where ask: "ask r H s = (v, s')" by (cases "ask r H s")
  note a = ask_config [OF ask]
  show ?case
  proof (cases v)
    case (Inl e)
    then have "t = s'" using Cons.prems ask by (simp add: thenS_def bindS_def askUnit_def)
    then show ?thesis using a by auto
  next
    case (Inr y)
    then have "forS askUnit rs H s' = (x, t)"
      using Cons.prems ask by (simp add: thenS_def bindS_def askUnit_def [of r] retS_def)
    from Cons.IH [OF this] show ?thesis using a by (auto simp: image_subset_iff)
  qed
qed (auto simp: retS_def)

text \<open>
  The workers of vault \<open>i\<close> in a configuration, and what an exchange shows of those deployed in it: right after
  the deployment, before any other request, a version of the file with the worker is handed to the file
  system; if that write fails, the script stops there with its error; and all later versions have the
  worker too.
\<close>

definition workers_in :: "nat \<Rightarrow> config \<Rightarrow> string set" where
  "workers_in i c = worker_address ` set (vault_workers (Vaults c ! i))"

definition all_recorded :: "nat \<Rightarrow> string \<Rightarrow> unit result \<Rightarrow> (request \<times> val result) list \<Rightarrow> bool" where
  "all_recorded i name x es \<longleftrightarrow> (\<forall>pre b r a post. es = pre @ (worker_request b r, Inr (Str a)) # post \<longrightarrow>
     (\<exists>c v rest. post = (WriteFile (''./deploy/results/'' @ name @ ''.json'') c, v) # rest \<and>
        (\<forall>e. v = Inl e \<longrightarrow> rest = [] \<and> x = Inl e)) \<and>
     (\<forall>p c v. (WriteFile p c, v) \<in> set post \<longrightarrow> a \<in> workers_in i c))"

definition writes_keep :: "nat \<Rightarrow> string set \<Rightarrow> (request \<times> val result) list \<Rightarrow> bool" where
  "writes_keep i A es \<longleftrightarrow> (\<forall>p c v. (WriteFile p c, v) \<in> set es \<longrightarrow> A \<subseteq> workers_in i c)"

lemma all_recorded_none:
  "\<forall>r b a. (worker_request b r, Inr (Str a)) \<notin> set es \<Longrightarrow> all_recorded i name x es"
  unfolding all_recorded_def by (metis in_set_conv_decomp)

lemma all_recorded_append:
  assumes "all_recorded i name (Inr ()) es" and "all_recorded i name x fs"
    and "\<And>b r a. (worker_request b r, Inr (Str a)) \<in> set es \<Longrightarrow> a \<in> A" and "writes_keep i A fs"
  shows "all_recorded i name x (es @ fs)"
  unfolding all_recorded_def
proof (intro allI impI)
  fix pre b r a post assume split: "es @ fs = pre @ (worker_request b r, Inr (Str a)) # post"
  let ?e = "(worker_request b r, Inr (Str a))" and ?p = "''./deploy/results/'' @ name @ ''.json''"
  let ?goal = "\<lambda>post. (\<exists>c v rest. post = (WriteFile ?p c, v) # rest \<and> (\<forall>e. v = Inl e \<longrightarrow> rest = [] \<and> x = Inl e)) \<and>
    (\<forall>p c v. (WriteFile p c, v) \<in> set post \<longrightarrow> a \<in> workers_in i c)"
  from split consider us where "es = pre @ us" "us @ fs = ?e # post" | us where "es @ us = pre" "fs = us @ ?e # post"
    by (auto simp: append_eq_append_conv2)
  then show "?goal post"
  proof cases
    case 1
    show ?thesis
    proof (cases us)
      case Nil
      then have "fs = [] @ ?e # post" using 1(2) by simp
      then show ?thesis using assms(2) unfolding all_recorded_def by blast
    next
      case (Cons u vs)
      then have e: "es = pre @ ?e # vs" and post: "post = vs @ fs" using 1 by simp_all
      have a: "a \<in> A" by (rule assms(3) [of b r]) (simp add: e)
      have later: "a \<in> workers_in i c" if "(WriteFile p c, v) \<in> set fs" for p c v
        using assms(4) that a unfolding writes_keep_def by blast
      from assms(1) [unfolded all_recorded_def, rule_format, OF e] obtain c v rest where
        "vs = (WriteFile ?p c, v) # rest" "\<forall>e. v \<noteq> Inl e"
        "\<forall>p c v. (WriteFile p c, v) \<in> set vs \<longrightarrow> a \<in> workers_in i c" by auto
      then show ?thesis using later by (auto simp: post)
    qed
  next
    case 2
    show ?thesis using assms(2) [unfolded all_recorded_def, rule_format, OF 2(2)] .
  qed
qed

lemma add_worker_workers:
  "i < length (Vaults c) \<Longrightarrow> workers_in i (add_worker i r a c) = insert a (workers_in i c)"
  by (auto simp: workers_in_def add_worker_def entry_of_def)

text \<open>One round, however it ends.\<close>

lemma recorded_first_any:
  assumes run: "worker_recorded_first i r H s = (x, t)" and i: "i < length (Vaults (config_of H s))"
  shows "\<exists>es. trace t = trace s @ es \<and> all_recorded i (network_name H) x es \<and> i < length (Vaults (config_of H t)) \<and>
    writes_keep i (workers_in i (config_of H s)) es \<and> workers_in i (config_of H s) \<subseteq> workers_in i (config_of H t) \<and>
    (\<forall>b r a. (worker_request b r, Inr (Str a)) \<in> set es \<longrightarrow> a \<in> workers_in i (config_of H t))"
proof -
  obtain v s1 where ask: "ask (worker_request True r) H s = (v, s1)" by (cases "ask (worker_request True r) H s")
  note a = ask_config [OF ask]
  show ?thesis
  proof (cases "\<exists>a. v = Inr (Str a)")
    case False
    then have t: "config_of H t = config_of H s1 \<and> trace t = trace s1"
      using run ask by (cases v; cases "projr v")
        (auto simp: worker_recorded_first_def deploy_worker_def askAddress_def bindS_def throwS_def split: val.splits)
    have "all_recorded i (network_name H) x [(worker_request True r, v)]"
      using False by (intro all_recorded_none) auto
    then show ?thesis using a i t False
      by (intro exI [of _ "[(worker_request True r, v)]"]) (auto simp: writes_keep_def worker_request_def)
  next
    case True
    then obtain d where d: "v = Inr (Str d)" ..
    let ?c = "add_worker i r d (config_of H s)" and ?p = "''./deploy/results/'' @ network_name H @ ''.json''"
    obtain y s2 where wr: "ask (WriteFile ?p ?c) H (set_config H ?c s1) = (y, s2)"
      by (cases "ask (WriteFile ?p ?c) H (set_config H ?c s1)")
    note b = ask_config [OF wr]
    have len: "i < length (Vaults ?c)" using i by (simp add: add_worker_def)
    have run': "(case y of Inl e \<Rightarrow> (Inl e, s2) | Inr z \<Rightarrow> link_worker r d H s2) = (x, t)"
      using run ask wr a
      by (auto simp: worker_recorded_first_def deploy_worker_def askAddress_def bindS_def thenS_def retS_def d
          push_worker_def setVault_def modifyConfig_def add_worker_def FileService_write_def hreS_def
          getConfig_def askUnit_def split: sum.splits)
    obtain es where es: "trace t = trace s2 @ es" "fst ` set es \<subseteq> set (link_requests r d)" "config_of H t = config_of H s2"
      and stop: "\<And>e. y = Inl e \<Longrightarrow> es = [] \<and> x = Inl e"
    proof (cases y)
      case (Inl e)
      then show ?thesis using run' by (intro that [of "[]"]) auto
    next
      case (Inr z)
      then have "link_worker r d H s2 = (x, t)" using run' by simp
      from askUnits_any [OF this [unfolded link_worker_def]] show ?thesis using that Inr by blast
    qed
    let ?es = "(worker_request True r, Inr (Str d)) # (WriteFile ?p ?c, y) # es"
    have sends: "\<exists>b f args ov. q = Send b f args ov" if "(q, w) \<in> set es" for q w
    proof -
      have "q \<in> set (link_requests r d)" using es(2) that by force
      then show ?thesis by (rule link_requests_send)
    qed
    have no: "(worker_request b r', w) \<notin> set ((WriteFile ?p ?c, y) # es)" "(WriteFile p c, w) \<notin> set es" for b r' w p c
      using sends [of _ w] by (fastforce simp: worker_request_def)+
    have "trace t = trace s @ ?es" using a(3) b(3) es(1) by (simp add: d)
    moreover have "all_recorded i (network_name H) x ?es"
      unfolding all_recorded_def
    proof (intro allI impI)
      fix pre b r' a' post assume split: "?es = pre @ (worker_request b r', Inr (Str a')) # post"
      have "pre = []"
      proof (rule ccontr)
        assume "pre \<noteq> []"
        then obtain e pre' where "pre = e # pre'" by (cases pre) auto
        then have "(WriteFile ?p ?c, y) # es = pre' @ (worker_request b r', Inr (Str a')) # post" using split by simp
        then have "(worker_request b r', Inr (Str a')) \<in> set ((WriteFile ?p ?c, y) # es)" by (metis in_set_conv_decomp)
        with no(1) show False by blast
      qed
      then have eq: "(worker_request True r, Inr (Str d)) = (worker_request b r', Inr (Str a'))"
          "post = (WriteFile ?p ?c, y) # es" using split by (auto simp only: append_Nil list.inject)
      then have "a' = d" by simp
      with eq(2) show "(\<exists>c v rest. post = (WriteFile ?p c, v) # rest \<and> (\<forall>e. v = Inl e \<longrightarrow> rest = [] \<and> x = Inl e)) \<and>
          (\<forall>p c v. (WriteFile p c, v) \<in> set post \<longrightarrow> a' \<in> workers_in i c)"
        using stop no(2) by (auto simp: add_worker_workers [OF i])
    qed
    moreover have "writes_keep i (workers_in i (config_of H s)) ?es"
      using no(2) by (auto simp: writes_keep_def worker_request_def add_worker_workers [OF i])
    moreover have "config_of H t = ?c" using es(3) b(1) by simp
    then have "i < length (Vaults (config_of H t))" "workers_in i (config_of H s) \<subseteq> workers_in i (config_of H t)"
        "\<forall>b r a. (worker_request b r, Inr (Str a)) \<in> set ?es \<longrightarrow> a \<in> workers_in i (config_of H t)"
      using len no(1) by (auto simp: add_worker_workers [OF i])
    ultimately show ?thesis by blast
  qed
qed

lemma recorded_first_loop_any:
  assumes "forS (worker_recorded_first i) rs H s = (x, t)" and "i < length (Vaults (config_of H s))"
  shows "\<exists>es. trace t = trace s @ es \<and> all_recorded i (network_name H) x es \<and>
    writes_keep i (workers_in i (config_of H s)) es"
  using assms
proof (induction rs arbitrary: s)
  case Nil
  then show ?case by (auto simp: retS_def all_recorded_def writes_keep_def)
next
  case (Cons r rs)
  obtain y s1 where one: "worker_recorded_first i r H s = (y, s1)" by (cases "worker_recorded_first i r H s")
  from recorded_first_any [OF one Cons.prems(2)] obtain es where es: "trace s1 = trace s @ es"
    "all_recorded i (network_name H) y es" "i < length (Vaults (config_of H s1))"
    "writes_keep i (workers_in i (config_of H s)) es" "workers_in i (config_of H s) \<subseteq> workers_in i (config_of H s1)"
    "\<And>b r a. (worker_request b r, Inr (Str a)) \<in> set es \<Longrightarrow> a \<in> workers_in i (config_of H s1)" by blast
  show ?case
  proof (cases y)
    case (Inl e)
    then have "t = s1" "x = y" using Cons.prems(1) one by (auto simp: thenS_def bindS_def)
    then show ?thesis using es by blast
  next
    case (Inr u)
    then have "forS (worker_recorded_first i) rs H s1 = (x, t)"
      using Cons.prems(1) one by (simp add: thenS_def bindS_def)
    from Cons.IH [OF this es(3)] obtain fs where fs: "trace t = trace s1 @ fs" "all_recorded i (network_name H) x fs"
      "writes_keep i (workers_in i (config_of H s1)) fs" by blast
    have "all_recorded i (network_name H) x (es @ fs)"
      by (rule all_recorded_append [OF _ fs(2) es(6) fs(3)]) (use es(2) Inr in simp)
    moreover have "writes_keep i (workers_in i (config_of H s)) (es @ fs)"
      using es(4,5) fs(3) unfolding writes_keep_def set_append Un_iff by blast
    ultimately show ?thesis using es(1) fs(1) by auto
  qed
qed

text \<open>
  C32: No worker is lost: in every run of the loop of \<open>014-3\<close> to \<open>014-8\<close>, also one that stops with an
  error at any request, each deployment of a worker is followed at once, before any transaction, by the
  writing of a version of the configuration file that has the worker under the vault of the script.  Either
  that write succeeds, or it is the last thing the run does and its error is what the run ends with; and every
  version written later has the worker too.
\<close>

theorem recorded_first_keeps_workers:
  assumes "deploy_workers_recorded_first i table start H s = (x, t)"
  shows "\<exists>es. trace t = trace s @ es \<and> (\<forall>pre b r a post. es = pre @ (worker_request b r, Inr (Str a)) # post \<longrightarrow>
     (\<exists>c v rest. post = (WriteFile (''./deploy/results/'' @ network_name H @ ''.json'') c, v) # rest \<and>
        (\<forall>e. v = Inl e \<longrightarrow> rest = [] \<and> x = Inl e)) \<and>
     (\<forall>p c v. (WriteFile p c, v) \<in> set post \<longrightarrow> a \<in> worker_address ` set (vault_workers (Vaults c ! i))))"
proof (cases "i < length (Vaults (config_of H s))")
  case True
  then have "forS (worker_recorded_first i) (drop start (table (config_of H s) (Vaults (config_of H s) ! i))) H s = (x, t)"
    using assms by (simp add: deploy_workers_recorded_first_def bindS_def getConfig_def vaultAt_def retS_def)
  from recorded_first_loop_any [OF this True] show ?thesis unfolding all_recorded_def workers_in_def by blast
next
  case False
  then have "t = s"
    using assms by (simp add: deploy_workers_recorded_first_def bindS_def getConfig_def vaultAt_def throwS_def)
  then show ?thesis by simp
qed

section \<open>The worker scripts return\<close>








definition nine_vaults_js :: "nat js" where
  "nine_vaults_js = sample_js\<lparr>TestnetConfig := sample_config\<lparr>Vaults := replicate 9 (hd (Vaults sample_config))\<rparr>\<rparr>"

lemma nine_vaults [simp]:
  "config_of sample_hre nine_vaults_js = sample_config\<lparr>Vaults := replicate 9 (hd (Vaults sample_config))\<rparr>"
  by (simp add: nine_vaults_js_def config_of_def sample_hre_def)


text \<open>A world that rejects all transactions: the run stops after the first worker, which is in the file.\<close>

definition refusing_hre :: "nat hre" where
  "refusing_hre = sample_hre\<lparr>perform := (\<lambda>q n. case q of
     Send _ _ _ _ \<Rightarrow> (Inl (Throw ''transaction failed''), n) | _ \<Rightarrow> sample_perform q n)\<rparr>"

lemma refused_run:
  "\<exists>t c es. deploy_workers_recorded_first 6 workers_eth 0 refusing_hre nine_vaults_js = (Inl (Throw ''transaction failed''), t) \<and>
     trace t = (worker_request True (hd (workers_eth (config_of refusing_hre nine_vaults_js)
       (Vaults (config_of refusing_hre nine_vaults_js) ! 6))), Inr (Str ''''))
       # (WriteFile ''./deploy/results/testnet.json'' c, Inr Undef) # es"
  by (simp add: deploy_workers_recorded_first_def workers_eth_def Let_def worker_recorded_first_def deploy_worker_def
      askAddress_def link_worker_def link_requests_def push_worker_def setVault_def modifyConfig_def FileService_write_def
      bindS_def thenS_def retS_def hreS_def getConfig_def vaultAt_def askUnit_def ask_def refusing_hre_def sample_hre_def
      sample_perform_def worker_request_def nine_vaults_js_def sample_js_def config_of_def set_config_def sample_config_def
      entry_of_def)

theorem recorded_first_keeps_workers_witness:
  "\<exists>t r c es. deploy_workers_recorded_first 6 workers_eth 0 refusing_hre nine_vaults_js = (Inl (Throw ''transaction failed''), t) \<and>
     trace t = (worker_request True r, Inr (Str '''')) # (WriteFile ''./deploy/results/testnet.json'' c, Inr Undef) # es \<and>
     '''' \<in> worker_address ` set (vault_workers (Vaults c ! 6))"
proof -
  obtain t r c es where run: "deploy_workers_recorded_first 6 workers_eth 0 refusing_hre nine_vaults_js =
      (Inl (Throw ''transaction failed''), t)"
    and es: "trace t = (worker_request True r, Inr (Str '''')) # (WriteFile ''./deploy/results/testnet.json'' c, Inr Undef) # es"
    using refused_run by blast
  have "trace nine_vaults_js = []" by (simp add: nine_vaults_js_def sample_js_def)
  with recorded_first_keeps_workers [OF run] es have "\<forall>pre b r a post. trace t = pre @ (worker_request b r, Inr (Str a)) # post \<longrightarrow>
      (\<forall>p c v. (WriteFile p c, v) \<in> set post \<longrightarrow> a \<in> worker_address ` set (vault_workers (Vaults c ! 6)))"
    by auto
  then have "\<forall>p c' v. (WriteFile p c', v) \<in> set ((WriteFile ''./deploy/results/testnet.json'' c, Inr Undef) # es) \<longrightarrow>
      '''' \<in> worker_address ` set (vault_workers (Vaults c' ! 6))"
    using es by (metis append_Nil)
  then have "'''' \<in> worker_address ` set (vault_workers (Vaults c ! 6))" by simp
  then show ?thesis using run es by blast
qed

text \<open>
  The HUSKI worker cannot be deployed: its row has the pool id \<open>-1\<close>, which is not a
  \<open>uint256\<close>.  When the deployment of a proxy rejects a negative number among its arguments (as the
  ABI encoder of ethers does), \<open>014-1\<close> stops with an error.
\<close>

theorem deploy_workers_huski_fails:
  assumes rejects: "\<And>name args b n w. n < 0 \<Longrightarrow> Num n \<in> set args \<Longrightarrow>
      \<exists>e. fst (perform H (DeployProxy name args b) w) = Inl e"
  shows "\<exists>e. fst (deploy_workers_huski H s) = Inl e"
proof (cases "fst (deploy_workers_huski H s)")
  case (Inr u)
  let ?rows = "workers_huski (config_of H s) (Vaults (config_of H s) ! 1)"
  from Inr have "deploy_workers Then_write 1 workers_huski 0 H s = (Inr u, snd (deploy_workers_huski H s))"
    by (simp add: deploy_workers_huski_def prod_eq_iff)
  from deploy_workers_Inr [OF this] obtain as es s' where
    "length as = length ?rows" "steps H s es s'"
    "\<forall>(r, a) \<in> set (zip ?rows as). (worker_request True r, Inr (Str a)) \<in> set es" by auto
  then obtain r a where r: "r = hd ?rows" "(worker_request True r, Inr (Str a)) \<in> set es"
    by (cases as) (auto simp: workers_huski_def Let_def)
  from \<open>steps H s es s'\<close> have "exchange H (world s) es (world s')" by (simp add: steps_def)
  from exchange_answer [OF this r(2)] obtain w where "fst (perform H (worker_request True r) w) = Inr (Str a)" ..
  moreover have "\<exists>e. fst (perform H (worker_request True r) w) = Inl e"
    unfolding worker_request_def by (rule rejects [of "-1"]) (simp_all add: r(1) workers_huski_def Let_def row_of_def)
  ultimately show ?thesis by (metis Inl_Inr_False)
qed simp

definition uint_hre :: "nat hre" where
  "uint_hre = sample_hre\<lparr>perform := (\<lambda>r n. case r of
     DeployProxy _ args _ \<Rightarrow> if list_ex (\<lambda>v. case v of Num k \<Rightarrow> k < 0 | _ \<Rightarrow> False) args
       then (Inl (Throw ''value out-of-bounds''), n) else sample_perform r n
   | _ \<Rightarrow> sample_perform r n)\<rparr>"

theorem deploy_workers_huski_fails_witness: "\<exists>e. fst (deploy_workers_huski uint_hre nine_vaults_js) = Inl e"
  by (rule deploy_workers_huski_fails) (force simp: uint_hre_def list_ex_iff)

end
