(* ===== verification/Worker_Config.thy ===== *)
theory Worker_Config
  imports Vault_Guards Worker_Scripts
begin

text \<open>
  \<open>contracts/6/protocol/configs/WorkerConfig.sol\<close>: the risk parameters of the workers, which the guards of
  \<open>Vault_Guards\<close> read.  The worker, pair, token and oracle
  contracts it reads are the parameter \<open>wc_ext\<close>; their reads may revert.  The properties tie the
  parameters of the worker scripts to these guards.
\<close>

section \<open>The contract\<close>

record risk_config =
  rc_acceptDebt :: bool
  rc_workFactor :: "64 word"
  rc_killFactor :: "64 word"
  rc_maxPriceDiff :: "64 word"

record wc_state =
  priceOracle :: address
  workers :: "address \<Rightarrow> risk_config"

record 'x wc_ext =
  wc_math :: safe_math
  wc_onlyOwner :: "address \<Rightarrow> 'x \<Rightarrow> bool"
  lpToken :: "address \<Rightarrow> 'x \<Rightarrow> address result"
  token0 :: "address \<Rightarrow> 'x \<Rightarrow> address result"
  token1 :: "address \<Rightarrow> 'x \<Rightarrow> address result"
  getReserves :: "address \<Rightarrow> 'x \<Rightarrow> (nat \<times> nat) result"
  wc_balanceOf :: "address \<Rightarrow> address \<Rightarrow> 'x \<Rightarrow> nat result"
  wc_getPrice :: "address \<Rightarrow> address \<Rightarrow> address \<Rightarrow> 'x \<Rightarrow> (nat \<times> nat) result"

definition no_config :: risk_config where
  "no_config = \<lparr>rc_acceptDebt = False, rc_workFactor = 0, rc_killFactor = 0, rc_maxPriceDiff = 0\<rparr>"

definition wc_initialize :: "address \<Rightarrow> wc_state" where
  "wc_initialize orac = \<lparr>priceOracle = orac, workers = (\<lambda>_. no_config)\<rparr>"

definition setOracle :: "'x wc_ext \<Rightarrow> msg \<Rightarrow> address \<Rightarrow> wc_state \<times> 'x \<Rightarrow> (wc_state \<times> 'x) result" where
  "setOracle X m orac = (\<lambda>(s, x).
     bindE (require (wc_onlyOwner X (sender m) x) ''Ownable: caller is not the owner'') (\<lambda>_.
     Inr (s\<lparr>priceOracle := orac\<rparr>, x)))"


text \<open>\<open>now - 7 days\<close> is a \<open>uint256\<close> subtraction without SafeMath: it wraps around.\<close>

definition seven_days_ago :: "msg \<Rightarrow> nat" where
  "seven_days_ago m = unat (word_of_nat (block_timestamp m) - 604800 :: 256 word)"

definition isStable :: "'x wc_ext \<Rightarrow> msg \<Rightarrow> address \<Rightarrow> wc_state \<times> 'x \<Rightarrow> bool result" where
  "isStable X m worker = (\<lambda>(s, x). let M = wc_math X in
     bindE (lpToken X worker x) (\<lambda>lp.
     bindE (token0 X lp x) (\<lambda>t0.
     bindE (token1 X lp x) (\<lambda>t1.
     bindE (getReserves X lp x) (\<lambda>(r0, r1).
     bindE (wc_balanceOf X t0 lp x) (\<lambda>t0bal.
     bindE (wc_balanceOf X t1 lp x) (\<lambda>t1bal.
     bindE (bindE (sm_mul M t0bal 100) (\<lambda>a. bindE (sm_mul M r0 101) (\<lambda>b.
       require (a \<le> b) ''WorkerConfig::isStable: bad t0 balance''))) (\<lambda>_.
     bindE (bindE (sm_mul M t1bal 100) (\<lambda>a. bindE (sm_mul M r1 101) (\<lambda>b.
       require (a \<le> b) ''WorkerConfig::isStable: bad t1 balance''))) (\<lambda>_.
     bindE (wc_getPrice X (priceOracle s) t0 t1 x) (\<lambda>(price, lastUpdate).
     bindE (require (lastUpdate \<ge> seven_days_ago m) ''WorkerConfig::isStable: price too stale'') (\<lambda>_.
     bindE (bindE (sm_mul M r1 (10 ^ 18)) (\<lambda>p. sm_div M p r0)) (\<lambda>lpPrice.
     let maxPriceDiff = unat (rc_maxPriceDiff (workers s worker)) in
     bindE (bindE (sm_mul M price maxPriceDiff) (\<lambda>p. bindE (sm_div M p 10000) (\<lambda>hi.
       require (lpPrice \<le> hi) ''WorkerConfig::isStable: price too high''))) (\<lambda>_.
     bindE (bindE (sm_mul M price 10000) (\<lambda>p. bindE (sm_div M p maxPriceDiff) (\<lambda>lo.
       require (lpPrice \<ge> lo) ''WorkerConfig::isStable: price too low''))) (\<lambda>_.
     Inr True))))))))))))))"

definition acceptDebt :: "'x wc_ext \<Rightarrow> msg \<Rightarrow> address \<Rightarrow> wc_state \<times> 'x \<Rightarrow> bool result" where
  "acceptDebt X m worker st = bindE (isStable X m worker st) (\<lambda>b.
     bindE (require b ''WorkerConfig::acceptDebt: !stable'') (\<lambda>_.
     Inr (rc_acceptDebt (workers (fst st) worker))))"



section \<open>The parameters of the scripts\<close>

lemma decimals:
  "decimal ''5500'' = Some 5500" "decimal ''7000'' = Some 7000" "decimal ''7800'' = Some 7800"
  "decimal ''8000'' = Some 8000" "decimal ''8600'' = Some 8600" "decimal ''8900'' = Some 8900"
  "decimal ''9100'' = Some 9100" "decimal ''11000'' = Some 11000"
  by (simp_all add: decimal_def is_digit_def)

lemmas table_defs = workers_huski_def workers_busd_def workers_busd_1_def workers_busd_2_def
  workers_bnb_def workers_bnb_1_def workers_bnb_2_def workers_bnb_3_def workers_usdt_def
  workers_cake_def workers_eth_def workers_btcb_def workers_usdc_def

definition factors_ok :: "worker_row \<Rightarrow> bool" where
  "factors_ok r \<longleftrightarrow> (\<exists>w k. decimal (WORK_FACTOR r) = Some w \<and> decimal (KILL_FACTOR r) = Some k \<and> 0 < w \<and> w < k \<and> k \<le> 9100)"

lemma row_factors:
  "decimal fw = Some w \<Longrightarrow> decimal fk = Some k \<Longrightarrow> 0 < w \<Longrightarrow> w < k \<Longrightarrow> k \<le> 9100 \<Longrightarrow>
   factors_ok (row_of c e b n p fw fk d)"
  by (simp add: factors_ok_def row_of_def)

lemma tables_factors:
  assumes "(v, i, table, start) \<in> set workers_plan" and "r \<in> set (table c e)"
  shows "factors_ok r \<and> MAX_PRICE_DIFF r = ''11000''"
proof -
  have "list_all (\<lambda>r. factors_ok r \<and> MAX_PRICE_DIFF r = ''11000'') (table c e)"
    if "table \<in> {workers_huski, workers_busd, workers_bnb, workers_usdt, workers_cake, workers_eth, workers_btcb, workers_usdc}"
    for table :: worker_table
    using that by (elim insertE emptyE) (simp_all add: table_defs Let_def row_factors decimals row_of_def [THEN arg_cong [where f = MAX_PRICE_DIFF]])
  moreover have "table \<in> {workers_huski, workers_busd, workers_bnb, workers_usdt, workers_cake, workers_eth, workers_btcb, workers_usdc}"
    using assms(1) by (auto simp: workers_plan_def)
  ultimately show ?thesis using assms(2) by (simp add: list_all_iff)
qed

text \<open>The contract receives the parameters of a row: the encoded numbers are those of its strings.\<close>

definition carries :: "worker_row \<Rightarrow> risk_config \<Rightarrow> bool" where
  "carries r rc \<longleftrightarrow> rc_acceptDebt rc \<and> decimal (WORK_FACTOR r) = Some (unat (rc_workFactor rc)) \<and>
     decimal (KILL_FACTOR r) = Some (unat (rc_killFactor rc)) \<and>
     decimal (MAX_PRICE_DIFF r) = Some (unat (rc_maxPriceDiff rc))"





text \<open>A stable pool for the witnesses: balanced reserves at the oracle's price.\<close>

definition sample_wc_ext :: "unit wc_ext" where
  "sample_wc_ext =
     \<lparr>wc_math = checked_math, wc_onlyOwner = (\<lambda>_ _. True), lpToken = (\<lambda>_ _. Inr ''LP''),
      token0 = (\<lambda>_ _. Inr ''A''), token1 = (\<lambda>_ _. Inr ''B''), getReserves = (\<lambda>_ _. Inr (1000, 1000)),
      wc_balanceOf = (\<lambda>_ _ _. Inr 1000), wc_getPrice = (\<lambda>_ _ _ _. Inr (10 ^ 18, 5000000))\<rparr>"

definition wc_msg :: msg where
  "wc_msg = \<lparr>sender = ''A'', block_number = 9, block_timestamp = 5000000, this = ''W''\<rparr>"

lemma sample_stable:
  "unat (rc_maxPriceDiff (workers s w)) = 11000 \<Longrightarrow> isStable sample_wc_ext wc_msg w (s, x) = Inr True"
  by (simp add: isStable_def sample_wc_ext_def checked_math_def uint_max_def seven_days_ago_def wc_msg_def)


lemma seven_days: "604800 \<le> block_timestamp m \<Longrightarrow> block_timestamp m \<le> uint_max \<Longrightarrow>
    seven_days_ago m = block_timestamp m - 604800"
proof -
  assume a: "604800 \<le> block_timestamp m" and b: "block_timestamp m \<le> uint_max"
  from b have n: "block_timestamp m < 2 ^ 256" by (simp add: uint_max_def)
  have "word_of_nat (block_timestamp m) - 604800 = (word_of_nat (block_timestamp m - 604800) :: 256 word)"
    using of_nat_diff [OF a, where 'a = "256 word"] by simp
  then have "seven_days_ago m = unat (word_of_nat (block_timestamp m - 604800) :: 256 word)"
    by (simp only: seven_days_ago_def)
  also have "\<dots> = block_timestamp m - 604800"
    using n by (simp add: unat_of_nat)
  finally show ?thesis .
qed

lemma band:
  fixes p q :: nat
  shows "p \<le> 11 * q div 10 \<Longrightarrow> 10 * p \<le> 11 * q"
    and "10 * q div 11 \<le> p \<Longrightarrow> 10 * q < 11 + 11 * p"
  by linarith+

text \<open>
  The price band of the scripts' workers: with the parameters of any row, \<open>isStable\<close> returns
  only when the pool is not empty, its spot price is within a factor 1.1 of the oracle's price (up to
  the rounding of the divisions), its reserves account for its balances up to 1%, and the oracle's
  price is at most seven days old.
\<close>

theorem stable_price_band:
  assumes row: "(v, i, table, start) \<in> set workers_plan" "r \<in> set (table c e)" "carries r (workers s w)"
    and M: "safe_math_ok (wc_math X)"
    and stable: "isStable X m w (s, x) = Inr b"
    and now: "604800 \<le> block_timestamp m" "block_timestamp m \<le> uint_max"
  shows "\<exists>lp t0 t1 r0 r1 b0 b1 price upd. lpToken X w x = Inr lp \<and> token0 X lp x = Inr t0 \<and>
    token1 X lp x = Inr t1 \<and> getReserves X lp x = Inr (r0, r1) \<and> wc_balanceOf X t0 lp x = Inr b0 \<and>
    wc_balanceOf X t1 lp x = Inr b1 \<and> wc_getPrice X (priceOracle s) t0 t1 x = Inr (price, upd) \<and>
    0 < r0 \<and> 100 * b0 \<le> 101 * r0 \<and> 100 * b1 \<le> 101 * r1 \<and> block_timestamp m \<le> upd + 604800 \<and>
    (let spot = r1 * 10 ^ 18 div r0 in 10 * spot \<le> 11 * price \<and> 10 * price < 11 * (spot + 1))"
proof -
  have d: "unat (rc_maxPriceDiff (workers s w)) = 11000"
    using tables_factors [OF row(1,2)] row(3) by (auto simp: carries_def decimals)
  show ?thesis
    using stable unfolding isStable_def Let_def
    apply (clarsimp simp: safe_math_iff [OF M] d seven_days [OF now])
    using band by fastforce
qed

theorem stable_price_band_witness:
  "let rc = \<lparr>rc_acceptDebt = True, rc_workFactor = 5500, rc_killFactor = 7000, rc_maxPriceDiff = 11000\<rparr>;
       s = (wc_initialize ''O'')\<lparr>workers := (\<lambda>_. rc)\<rparr> in
   isStable sample_wc_ext wc_msg ''W'' (s, ()) = Inr True \<and>
   (\<exists>r0. getReserves sample_wc_ext ''LP'' () = Inr (r0, 1000) \<and> 0 < r0)"
proof -
  let ?rc = "\<lparr>rc_acceptDebt = True, rc_workFactor = 5500, rc_killFactor = 7000, rc_maxPriceDiff = 11000\<rparr>"
  let ?s = "(wc_initialize ''O'')\<lparr>workers := (\<lambda>_. ?rc)\<rparr>"
  let ?row = "row_of sample_config (hd (Vaults sample_config)) ''BTCB'' ''BNB-BTCB Worker'' 262 ''5500'' ''7000'' ''11000''"
  have plan: "(Recorded_first, 7, workers_btcb, 0) \<in> set workers_plan" by (simp add: workers_plan_def)
  have row: "?row \<in> set (workers_btcb sample_config (hd (Vaults sample_config)))"
    by (simp add: workers_btcb_def Let_def)
  have carries: "carries ?row (workers ?s ''W'')" by (simp add: carries_def row_of_def decimals)
  have M: "safe_math_ok (wc_math sample_wc_ext)" by (simp add: sample_wc_ext_def)
  have stable: "isStable sample_wc_ext wc_msg ''W'' (?s, ()) = Inr True" by (rule sample_stable) simp
  show ?thesis
    using stable_price_band [OF plan row carries M stable] stable
    by (auto simp: Let_def wc_msg_def uint_max_def sample_wc_ext_def)
qed

end
