(* ===== verification/Timelock_Contract.thy ===== *)
theory Timelock_Contract
  imports Solidity
begin

text \<open>
  \<open>contracts/6/Timelock.sol\<close>: the contract through which the administrator changes the protocol.
  A transaction is queued with an estimated time of arrival at least \<open>delay\<close> ahead, and can be executed
  once in the fourteen days from then on.  The call it makes may call back into the timelock: the
  parameter \<open>tl_call\<close> returns, with the success flag and the data of the call, the calls back that
  took place.  Hashing and the ABI are parameters too; the decoder of the ABI can revert, and
  \<open>executeTransaction\<close> runs it on what the call returned even when the call succeeded.
  \<open>tl_history\<close> runs calls and keeps a log.
\<close>

section \<open>The contract\<close>

type_synonym bytes = "8 word list"

text \<open>\<open>target\<close>, \<open>value\<close>, \<open>signature\<close>, \<open>data\<close>, \<open>eta\<close>.\<close>

type_synonym tl_tx = "address \<times> nat \<times> string \<times> bytes \<times> nat"

definition GRACE_PERIOD :: nat where "GRACE_PERIOD = 14 * 24 * 60 * 60"
definition MINIMUM_DELAY :: nat where "MINIMUM_DELAY = 24 * 60 * 60"
definition MAXIMUM_DELAY :: nat where "MAXIMUM_DELAY = 30 * 24 * 60 * 60"

record timelock =
  admin :: address
  pendingAdmin :: address
  delay :: nat
  admin_initialized :: bool
  queuedTransactions :: "bytes \<Rightarrow> bool"

text \<open>The calls of the contract.\<close>

datatype tl_op = SetDelay nat | AcceptAdmin | SetPendingAdmin address
  | QueueTransaction tl_tx | CancelTransaction tl_tx | ExecuteTransaction tl_tx

record 'x tl_ext =
  tl_math :: safe_math
  tl_hash :: "tl_tx \<Rightarrow> bytes"
  tl_selector :: "string \<Rightarrow> bytes"
  tl_decode_string :: "nat \<Rightarrow> bytes \<Rightarrow> string result"
  tl_call :: "address \<Rightarrow> nat \<Rightarrow> bytes \<Rightarrow> 'x \<Rightarrow> (bool \<times> bytes) \<times> (address \<times> tl_op) list \<times> 'x"

definition tl_constructor :: "address \<Rightarrow> nat \<Rightarrow> timelock result" where
  "tl_constructor admin' delay' =
     bindE (require (delay' \<ge> MINIMUM_DELAY) ''Timelock::constructor: Delay must exceed minimum delay.'') (\<lambda>_.
     bindE (require (delay' \<le> MAXIMUM_DELAY) ''Timelock::constructor: Delay must not exceed maximum delay.'') (\<lambda>_.
     Inr \<lparr>admin = admin', pendingAdmin = zero_address, delay = delay', admin_initialized = False,
          queuedTransactions = (\<lambda>_. False)\<rparr>))"

definition setDelay :: "msg \<Rightarrow> nat \<Rightarrow> timelock \<Rightarrow> timelock result" where
  "setDelay m delay' s =
     bindE (require (sender m = this m) ''Timelock::setDelay: Call must come from Timelock.'') (\<lambda>_.
     bindE (require (delay' \<ge> MINIMUM_DELAY) ''Timelock::setDelay: Delay must exceed minimum delay.'') (\<lambda>_.
     bindE (require (delay' \<le> MAXIMUM_DELAY) ''Timelock::setDelay: Delay must not exceed maximum delay.'') (\<lambda>_.
     Inr (s\<lparr>delay := delay'\<rparr>))))"

definition acceptAdmin :: "msg \<Rightarrow> timelock \<Rightarrow> timelock result" where
  "acceptAdmin m s =
     bindE (require (sender m = pendingAdmin s) ''Timelock::acceptAdmin: Call must come from pendingAdmin.'')
       (\<lambda>_. Inr (s\<lparr>admin := sender m, pendingAdmin := zero_address\<rparr>))"

definition setPendingAdmin :: "msg \<Rightarrow> address \<Rightarrow> timelock \<Rightarrow> timelock result" where
  "setPendingAdmin m a s =
     bindE (if admin_initialized s
       then bindE (require (sender m = this m) ''Timelock::setPendingAdmin: Call must come from Timelock.'')
              (\<lambda>_. Inr s)
       else bindE (require (sender m = admin s) ''Timelock::setPendingAdmin: First call must come from admin.'')
              (\<lambda>_. Inr (s\<lparr>admin_initialized := True\<rparr>)))
     (\<lambda>s. Inr (s\<lparr>pendingAdmin := a\<rparr>))"

definition tx_eta :: "tl_tx \<Rightarrow> nat" where
  "tx_eta = (\<lambda>(target, value, signature, data, eta). eta)"

definition setQueued :: "'x tl_ext \<Rightarrow> tl_tx \<Rightarrow> bool \<Rightarrow> timelock \<Rightarrow> timelock" where
  "setQueued X tx b s = s\<lparr>queuedTransactions := (queuedTransactions s)(tl_hash X tx := b)\<rparr>"

definition queueTransaction :: "'x tl_ext \<Rightarrow> msg \<Rightarrow> tl_tx \<Rightarrow> timelock \<Rightarrow> timelock result" where
  "queueTransaction X m tx s =
     bindE (require (sender m = admin s) ''Timelock::queueTransaction: Call must come from admin.'') (\<lambda>_.
     bindE (sm_add (tl_math X) (block_timestamp m) (delay s)) (\<lambda>earliest.
     bindE (require (tx_eta tx \<ge> earliest)
       ''Timelock::queueTransaction: Estimated execution block must satisfy delay.'') (\<lambda>_.
     Inr (setQueued X tx True s))))"

definition cancelTransaction :: "'x tl_ext \<Rightarrow> msg \<Rightarrow> tl_tx \<Rightarrow> timelock \<Rightarrow> timelock result" where
  "cancelTransaction X m tx s =
     bindE (require (sender m = admin s) ''Timelock::cancelTransaction: Call must come from admin.'')
       (\<lambda>_. Inr (setQueued X tx False s))"

text \<open>
  The pointer to the data is moved four bytes on, over the selector of \<open>Error(string)\<close>.  The word found there,
  which the decoder takes for the length of its input, is the end of the length and those four bytes; the
  bytes after it are the rest of the data.  The decoder reverts on what does not encode a string.
\<close>

definition be_nat :: "bytes \<Rightarrow> nat" where
  "be_nat bs = foldl (\<lambda>n b. n * 256 + unat b) 0 bs"

definition getRevertMsg :: "'x tl_ext \<Rightarrow> bytes \<Rightarrow> string result" where
  "getRevertMsg X returnData =
     (if length returnData < 68 then Inr ''Transaction reverted silently''
      else tl_decode_string X ((length returnData mod 2 ^ 224) * 2 ^ 32 + be_nat (take 4 returnData))
             (drop 4 returnData))"

text \<open>
  The operations another contract can call while a transaction executes; \<open>executeTransaction\<close> is
  \<open>nonReentrant\<close> and reverts there.  A call back that reverts has no effect.
\<close>

datatype tl_event = Queued tl_tx nat nat | Cancelled tl_tx | Executed tl_tx nat

fun simple_op :: "'x tl_ext \<Rightarrow> msg \<Rightarrow> tl_op \<Rightarrow> timelock \<Rightarrow> timelock result" where
  "simple_op X m (SetDelay d) s = setDelay m d s"
| "simple_op X m AcceptAdmin s = acceptAdmin m s"
| "simple_op X m (SetPendingAdmin a) s = setPendingAdmin m a s"
| "simple_op X m (QueueTransaction tx) s = queueTransaction X m tx s"
| "simple_op X m (CancelTransaction tx) s = cancelTransaction X m tx s"
| "simple_op X m (ExecuteTransaction tx) s = Inl (Revert ''ReentrancyGuard: reentrant call'')"

text \<open>The entry of the log: a queued transaction with the time and the delay in force.\<close>

fun op_event :: "msg \<Rightarrow> timelock \<Rightarrow> tl_op \<Rightarrow> tl_event list" where
  "op_event m s (QueueTransaction tx) = [Queued tx (block_timestamp m) (delay s)]"
| "op_event m s (CancelTransaction tx) = [Cancelled tx]"
| "op_event m s _ = []"

fun call_backs :: "'x tl_ext \<Rightarrow> msg \<Rightarrow> (address \<times> tl_op) list \<Rightarrow> timelock \<Rightarrow> tl_event list \<times> timelock" where
  "call_backs X m [] s = ([], s)"
| "call_backs X m ((a, c) # cs) s = (case simple_op X (m\<lparr>sender := a\<rparr>) c s of
     Inl e \<Rightarrow> call_backs X m cs s
   | Inr s' \<Rightarrow> let (log, s'') = call_backs X m cs s' in (op_event m s c @ log, s''))"

definition executeTransaction ::
  "'x tl_ext \<Rightarrow> msg \<Rightarrow> tl_tx \<Rightarrow> timelock \<times> 'x \<Rightarrow> (bytes \<times> tl_event list \<times> timelock \<times> 'x) result" where
  "executeTransaction X m tx = (\<lambda>(s, x).
     let (target, value, signature, data, eta) = tx; txHash = tl_hash X tx in
     bindE (require (sender m = admin s) ''Timelock::executeTransaction: Call must come from admin.'') (\<lambda>_.
     bindE (require (queuedTransactions s txHash)
       ''Timelock::executeTransaction: Transaction hasn't been queued.'') (\<lambda>_.
     bindE (require (block_timestamp m \<ge> eta)
       ''Timelock::executeTransaction: Transaction hasn't surpassed time lock.'') (\<lambda>_.
     bindE (sm_add (tl_math X) eta GRACE_PERIOD) (\<lambda>latest.
     bindE (require (block_timestamp m \<le> latest) ''Timelock::executeTransaction: Transaction is stale.'') (\<lambda>_.
     let s1 = setQueued X tx False s;
         callData = (if signature = [] then data else tl_selector X signature @ data);
         ((success, returnData), backs, x') = tl_call X target value callData x;
         (log, s2) = call_backs X m backs s1 in
     bindE (getRevertMsg X returnData) (\<lambda>revertMsg.
     bindE (require success revertMsg) (\<lambda>_.
     Inr (returnData, log, s2, x')))))))))"

section \<open>Histories\<close>

text \<open>A call from outside; the log of an execution starts where its flag is cleared.\<close>

fun tl_exec ::
  "'x tl_ext \<Rightarrow> msg \<Rightarrow> tl_op \<Rightarrow> timelock \<times> 'x \<Rightarrow> (tl_event list \<times> timelock \<times> 'x) result" where
  "tl_exec X m (ExecuteTransaction tx) st = bindE (executeTransaction X m tx st)
     (\<lambda>(ret, log, st'). Inr (Executed tx (block_timestamp m) # log, st'))"
| "tl_exec X m c (s, x) = bindE (simple_op X m c s) (\<lambda>s'. Inr (op_event m s c, s', x))"

fun tl_history ::
  "'x tl_ext \<Rightarrow> (msg \<times> tl_op) list \<Rightarrow> timelock \<times> 'x \<Rightarrow> tl_event list \<times> timelock \<times> 'x" where
  "tl_history X [] st = ([], st)"
| "tl_history X ((m, c) # cs) st = (case tl_exec X m c st of
     Inl e \<Rightarrow> tl_history X cs st
   | Inr (log, st') \<Rightarrow> let (log', st'') = tl_history X cs st' in (log @ log', st''))"

section \<open>The abstract timelock\<close>

text \<open>
  What the contract promises, over logs alone: \<open>q\<close> says which hashes stand queued.  A log is allowed
  when every event is, in the state the events before it leave.
\<close>

definition ev_tx :: "tl_event \<Rightarrow> tl_tx" where
  "ev_tx e = (case e of Queued tx _ _ \<Rightarrow> tx | Cancelled tx \<Rightarrow> tx | Executed tx _ \<Rightarrow> tx)"

definition is_queued :: "tl_event \<Rightarrow> bool" where
  "is_queued e = (case e of Queued _ _ _ \<Rightarrow> True | _ \<Rightarrow> False)"

definition effect :: "(tl_tx \<Rightarrow> bytes) \<Rightarrow> (bytes \<Rightarrow> bool) \<Rightarrow> tl_event \<Rightarrow> bytes \<Rightarrow> bool" where
  "effect hash q e = q(hash (ev_tx e) := is_queued e)"

fun allowed :: "(tl_tx \<Rightarrow> bytes) \<Rightarrow> (bytes \<Rightarrow> bool) \<Rightarrow> tl_event \<Rightarrow> bool" where
  "allowed hash q (Queued tx t d) \<longleftrightarrow> t + d \<le> tx_eta tx \<and> MINIMUM_DELAY \<le> d \<and> d \<le> MAXIMUM_DELAY"
| "allowed hash q (Cancelled tx) \<longleftrightarrow> True"
| "allowed hash q (Executed tx t) \<longleftrightarrow> q (hash tx) \<and> tx_eta tx \<le> t \<and> t \<le> tx_eta tx + GRACE_PERIOD"

fun log_ok :: "(tl_tx \<Rightarrow> bytes) \<Rightarrow> (bytes \<Rightarrow> bool) \<Rightarrow> tl_event list \<Rightarrow> bool" where
  "log_ok hash q [] \<longleftrightarrow> True"
| "log_ok hash q (e # es) \<longleftrightarrow> allowed hash q e \<and> log_ok hash (effect hash q e) es"

lemma log_ok_append: "log_ok hash q (es @ fs) \<longleftrightarrow> log_ok hash q es \<and> log_ok hash (foldl (effect hash) q es) fs"
  by (induction es arbitrary: q) auto

lemma stands:
  "foldl (effect hash) q es h \<longleftrightarrow>
   (\<exists>a e b. es = a @ e # b \<and> is_queued e \<and> hash (ev_tx e) = h \<and> (\<forall>f \<in> set b. hash (ev_tx f) = h \<longrightarrow> is_queued f)) \<or>
   q h \<and> (\<forall>f \<in> set es. hash (ev_tx f) = h \<longrightarrow> is_queued f)"
proof (induction es rule: rev_induct)
  case (snoc e es)
  show ?case (is "?l \<longleftrightarrow> ?r")
  proof (cases "hash (ev_tx e) = h")
    case True
    show ?thesis
    proof (cases "is_queued e")
      case q: True
      have "foldl (effect hash) q (es @ [e]) h" using True q by (simp add: effect_def)
      moreover have ?r using True q by (intro disjI1 exI [of _ es] exI [of _ e] exI [of _ "[]"]) simp
      ultimately show ?thesis by simp
    next
      case q: False
      then have "\<not> foldl (effect hash) q (es @ [e]) h" using True by (simp add: effect_def)
      moreover have "\<not> ?r"
      proof
        assume ?r
        then obtain a f b where "es @ [e] = a @ f # b" "is_queued f" "\<forall>g \<in> set b. hash (ev_tx g) = h \<longrightarrow> is_queued g"
          using True q by auto
        then show False using True q by (cases b rule: rev_cases) auto
      qed
      ultimately show ?thesis by simp
    qed
  next
    case False
    have "(\<exists>a f b. es @ [e] = a @ f # b \<and> is_queued f \<and> hash (ev_tx f) = h \<and> (\<forall>g \<in> set b. hash (ev_tx g) = h \<longrightarrow> is_queued g)) \<longleftrightarrow>
        (\<exists>a f b. es = a @ f # b \<and> is_queued f \<and> hash (ev_tx f) = h \<and> (\<forall>g \<in> set b. hash (ev_tx g) = h \<longrightarrow> is_queued g))"
      (is "?L \<longleftrightarrow> ?R")
    proof
      assume ?L
      then obtain a f b where f: "es @ [e] = a @ f # b" "is_queued f" "hash (ev_tx f) = h"
        "\<forall>g \<in> set b. hash (ev_tx g) = h \<longrightarrow> is_queued g" by blast
      with False obtain b' where "b = b' @ [e]" "es = a @ f # b'" by (cases b rule: rev_cases) auto
      with f show ?R by auto
    next
      assume ?R
      then obtain a f b where "es = a @ f # b" "is_queued f" "hash (ev_tx f) = h"
        "\<forall>g \<in> set b. hash (ev_tx g) = h \<longrightarrow> is_queued g" by blast
      with False show ?L by (intro exI [of _ a] exI [of _ f] exI [of _ "b @ [e]"]) auto
    qed
    then show ?thesis using snoc False by (simp add: effect_def)
  qed
qed auto

text \<open>From an empty queue, what is executed was queued before and not touched since.\<close>

lemma executed_was_queued:
  assumes "log_ok hash (\<lambda>_. False) (pre @ Executed tx t # post)"
  obtains a tx0 t0 d b where "pre = a @ Queued tx0 t0 d # b" "hash tx0 = hash tx"
    "\<forall>f \<in> set b. hash (ev_tx f) = hash tx \<longrightarrow> is_queued f"
    "t0 + d \<le> tx_eta tx0" "MINIMUM_DELAY \<le> d" "d \<le> MAXIMUM_DELAY"
    "tx_eta tx \<le> t" "t \<le> tx_eta tx + GRACE_PERIOD"
proof -
  from assms have ex: "foldl (effect hash) (\<lambda>_. False) pre (hash tx)" "tx_eta tx \<le> t" "t \<le> tx_eta tx + GRACE_PERIOD"
    and pre: "log_ok hash (\<lambda>_. False) pre" by (auto simp: log_ok_append)
  from ex(1) obtain a e b where e: "pre = a @ e # b" "is_queued e" "hash (ev_tx e) = hash tx"
    "\<forall>f \<in> set b. hash (ev_tx f) = hash tx \<longrightarrow> is_queued f"
    by (auto simp: stands)
  from e(2) obtain tx0 t0 d where q: "e = Queued tx0 t0 d" by (cases e) (auto simp: is_queued_def)
  have "allowed hash (foldl (effect hash) (\<lambda>_. False) a) e" using pre by (simp add: e(1) log_ok_append)
  with e ex show ?thesis by (intro that [of a tx0 t0 d b]) (auto simp: q ev_tx_def)
qed

section \<open>The contract refines it\<close>

definition delay_ok :: "timelock \<Rightarrow> bool" where
  "delay_ok s \<longleftrightarrow> MINIMUM_DELAY \<le> delay s \<and> delay s \<le> MAXIMUM_DELAY"

lemma setQueued_simps [simp]:
  "delay (setQueued X tx b s) = delay s" "admin (setQueued X tx b s) = admin s"
  "pendingAdmin (setQueued X tx b s) = pendingAdmin s"
  "admin_initialized (setQueued X tx b s) = admin_initialized s"
  "queuedTransactions (setQueued X tx b s) = (queuedTransactions s)(tl_hash X tx := b)"
  by (simp_all add: setQueued_def)

text \<open>One step: the delay stays in its bounds, the log is allowed, and the queue follows the log.\<close>

definition refines :: "'x tl_ext \<Rightarrow> timelock \<Rightarrow> tl_event list \<Rightarrow> timelock \<Rightarrow> bool" where
  "refines X s log s' \<longleftrightarrow> (delay_ok s \<longrightarrow> delay_ok s' \<and> log_ok (tl_hash X) (queuedTransactions s) log) \<and>
     queuedTransactions s' = foldl (effect (tl_hash X)) (queuedTransactions s) log"

lemma refines_refl [simp]: "refines X s [] s"
  by (simp add: refines_def)

lemma refines_trans: "refines X s a t \<Longrightarrow> refines X t b u \<Longrightarrow> refines X s (a @ b) u"
  by (auto simp: refines_def log_ok_append)

lemma simple_op_refines:
  assumes "safe_math_ok (tl_math X)" and "simple_op X m c s = Inr s'"
  shows "refines X s (op_event m s c) s'"
  using assms(2)
  by (cases c) (auto simp: refines_def setDelay_def acceptAdmin_def setPendingAdmin_def queueTransaction_def
      cancelTransaction_def delay_ok_def safe_math_iff [OF assms(1)] effect_def ev_tx_def is_queued_def
      split: if_splits)

lemma op_event_sender [simp]: "op_event (m\<lparr>sender := a\<rparr>) s c = op_event m s c"
  by (cases c) simp_all

lemma call_backs_refine:
  assumes "safe_math_ok (tl_math X)"
  shows "call_backs X m cs s = (log, s') \<Longrightarrow> refines X s log s'"
proof (induction cs arbitrary: s log)
  case (Cons ac cs)
  obtain a c where ac: "ac = (a, c)" by (cases ac)
  show ?case
  proof (cases "simple_op X (m\<lparr>sender := a\<rparr>) c s")
    case (Inl e)
    with Cons show ?thesis by (simp add: ac)
  next
    case (Inr s1)
    obtain rest where rest: "call_backs X m cs s1 = (rest, s')" "log = op_event m s c @ rest"
      using Cons.prems Inr by (auto simp: ac Let_def split: prod.splits)
    from simple_op_refines [OF assms Inr] Cons.IH [OF rest(1)] show ?thesis
      by (auto simp: rest(2) intro: refines_trans)
  qed
qed simp

lemma executeTransaction_Inr:
  assumes "safe_math_ok (tl_math X)" and "executeTransaction X m tx (s, x) = Inr (ret, log, s', x')"
  obtains backs cd where "sender m = admin s" "queuedTransactions s (tl_hash X tx)"
    "tx_eta tx \<le> block_timestamp m" "block_timestamp m \<le> tx_eta tx + GRACE_PERIOD"
    "tl_call X (fst tx) (fst (snd tx)) cd x = ((True, ret), backs, x')"
    "call_backs X m backs (setQueued X tx False s) = (log, s')" "\<not> isl (getRevertMsg X ret)"
  using assms(2)
  by (cases tx) (auto simp: executeTransaction_def Let_def tx_eta_def safe_math_iff [OF assms(1)] split: prod.splits)

lemma tl_exec_refines:
  assumes M: "safe_math_ok (tl_math X)" and "tl_exec X m c (s, x) = Inr (log, s', x')"
  shows "refines X s log s'"
proof (cases "\<exists>tx. c = ExecuteTransaction tx")
  case True
  then obtain tx where c: "c = ExecuteTransaction tx" ..
  with assms(2) obtain ret log' where ex: "executeTransaction X m tx (s, x) = Inr (ret, log', s', x')"
    "log = Executed tx (block_timestamp m) # log'" by auto
  from executeTransaction_Inr [OF M ex(1)] obtain backs where
    g: "queuedTransactions s (tl_hash X tx)" "tx_eta tx \<le> block_timestamp m" "block_timestamp m \<le> tx_eta tx + GRACE_PERIOD"
    and cb: "call_backs X m backs (setQueued X tx False s) = (log', s')" by metis
  have "refines X s [Executed tx (block_timestamp m)] (setQueued X tx False s)"
    using g by (auto simp: refines_def delay_ok_def effect_def ev_tx_def is_queued_def)
  from refines_trans [OF this call_backs_refine [OF M cb]] show ?thesis by (simp add: ex(2))
next
  case False
  with assms(2) have "simple_op X m c s = Inr s' \<and> log = op_event m s c" by (cases c) auto
  then show ?thesis using simple_op_refines [OF M] by auto
qed

lemma tl_history_refines:
  assumes "safe_math_ok (tl_math X)"
  shows "tl_history X cs (s, x) = (log, s', x') \<Longrightarrow> refines X s log s'"
proof (induction cs arbitrary: s x log)
  case (Cons mc cs)
  obtain m c where mc: "mc = (m, c)" by (cases mc)
  show ?case
  proof (cases "tl_exec X m c (s, x)")
    case (Inl e)
    with Cons show ?thesis by (auto simp: mc)
  next
    case (Inr r)
    then obtain l1 s1 x1 where one: "tl_exec X m c (s, x) = Inr (l1, s1, x1)" by (cases r) auto
    obtain rest where rest: "tl_history X cs (s1, x1) = (rest, s', x')" "log = l1 @ rest"
      using Cons.prems one by (auto simp: mc Let_def split: prod.splits)
    from tl_exec_refines [OF assms one] Cons.IH [OF rest(1)] show ?thesis
      by (auto simp: rest(2) intro: refines_trans)
  qed
qed simp

lemma constructed:
  "tl_constructor a d = Inr s \<Longrightarrow> delay_ok s \<and> queuedTransactions s = (\<lambda>_. False) \<and> delay s = d \<and> admin s = a"
  by (auto simp: tl_constructor_def delay_ok_def)

text \<open>
  C7: The timelock keeps its promise: in every history of a constructed timelock, with calls back
  from executed transactions at any point, the delay stays between one and thirty days, and whatever is
  executed was queued at least the delay then in force before its \<open>eta\<close>, by that very transaction, is
  executed between \<open>eta\<close> and fourteen days later, and since it was queued was neither cancelled nor
  executed: each queueing admits one execution.  The hypothesis says that no two transactions of the
  log have the same hash.
\<close>

theorem executed_transactions_waited:
  assumes M: "safe_math_ok (tl_math X)" and new: "tl_constructor a d0 = Inr s"
    and history: "tl_history X cs (s, x) = (log, s', x')"
    and no_collision: "inj_on (tl_hash X) (ev_tx ` set log)"
  shows "MINIMUM_DELAY \<le> delay s' \<and> delay s' \<le> MAXIMUM_DELAY \<and>
    (\<forall>pre tx t post. log = pre @ Executed tx t # post \<longrightarrow>
      (\<exists>before t0 d between. pre = before @ Queued tx t0 d # between \<and>
        Cancelled tx \<notin> set between \<and> (\<forall>t'. Executed tx t' \<notin> set between) \<and>
        MINIMUM_DELAY \<le> d \<and> d \<le> MAXIMUM_DELAY \<and> t0 + d \<le> tx_eta tx \<and>
        tx_eta tx \<le> t \<and> t \<le> tx_eta tx + GRACE_PERIOD))"
proof -
  have r: "delay_ok s'" "log_ok (tl_hash X) (\<lambda>_. False) log"
    using tl_history_refines [OF M history] constructed [OF new] by (auto simp: refines_def)
  have "\<exists>before t0 d between. pre = before @ Queued tx t0 d # between \<and>
        Cancelled tx \<notin> set between \<and> (\<forall>t'. Executed tx t' \<notin> set between) \<and>
        MINIMUM_DELAY \<le> d \<and> d \<le> MAXIMUM_DELAY \<and> t0 + d \<le> tx_eta tx \<and>
        tx_eta tx \<le> t \<and> t \<le> tx_eta tx + GRACE_PERIOD"
    if log: "log = pre @ Executed tx t # post" for pre tx t post
  proof -
    from executed_was_queued [OF r(2) [unfolded log]] obtain before tx0 t0 d between where
      q: "pre = before @ Queued tx0 t0 d # between" "tl_hash X tx0 = tl_hash X tx"
        "\<forall>f \<in> set between. tl_hash X (ev_tx f) = tl_hash X tx \<longrightarrow> is_queued f"
      and b: "t0 + d \<le> tx_eta tx0" "MINIMUM_DELAY \<le> d" "d \<le> MAXIMUM_DELAY" "tx_eta tx \<le> t"
        "t \<le> tx_eta tx + GRACE_PERIOD" by metis
    have "tx0 = tx"
      by (rule inj_onD [OF no_collision q(2)]) (auto simp: log q(1) ev_tx_def image_iff intro: bexI)
    then show ?thesis
      using q b by (intro exI [of _ before] exI [of _ t0] exI [of _ d] exI [of _ between])
        (auto simp: ev_tx_def is_queued_def)
  qed
  then show ?thesis using r(1) by (auto simp: delay_ok_def)
qed

text \<open>A concrete timelock: calls succeed, and a call of the timelock itself sets the delay to two days.\<close>

definition sample_tl_ext :: "unit tl_ext" where
  "sample_tl_ext =
     \<lparr>tl_math = checked_math, tl_hash = (\<lambda>(target, value, signature, data, eta). data),
      tl_selector = (\<lambda>_. [1, 2, 3, 4]), tl_decode_string = (\<lambda>_ _. Inl (Revert '''')),
      tl_call = (\<lambda>target value cd x. ((True, []), if target = ''T'' then [(''T'', SetDelay 172800)] else [], x))\<rparr>"

definition at_time :: "nat \<Rightarrow> msg" where
  "at_time t = \<lparr>sender = ''admin'', block_number = 1, block_timestamp = t, this = ''T''\<rparr>"

definition sample_tx :: tl_tx where
  "sample_tx = (''T'', 0, ''setDelay(uint256)'', [7], 100000)"

definition sample_timelock :: timelock where
  "sample_timelock = \<lparr>admin = ''admin'', pendingAdmin = zero_address, delay = 86400, admin_initialized = False,
     queuedTransactions = (\<lambda>_. False)\<rparr>"

lemma sample_constructed: "tl_constructor ''admin'' 86400 = Inr sample_timelock"
  by (simp add: tl_constructor_def sample_timelock_def MINIMUM_DELAY_def MAXIMUM_DELAY_def)

lemma sample_tl_math: "safe_math_ok (tl_math sample_tl_ext)"
  by (simp add: sample_tl_ext_def)

lemmas tl_defs = sample_tl_ext_def at_time_def sample_tx_def sample_timelock_def queueTransaction_def
  executeTransaction_def cancelTransaction_def setDelay_def setQueued_def tx_eta_def checked_math_def uint_max_def
  GRACE_PERIOD_def MINIMUM_DELAY_def MAXIMUM_DELAY_def Let_def

lemma sample_history:
  "tl_history sample_tl_ext
     [(at_time 1000, QueueTransaction sample_tx), (at_time 50000, ExecuteTransaction sample_tx),
      (at_time 100000, ExecuteTransaction sample_tx), (at_time 100001, ExecuteTransaction sample_tx)]
     (sample_timelock, ()) =
   ([Queued sample_tx 1000 86400, Executed sample_tx 100000],
    sample_timelock\<lparr>delay := 172800, queuedTransactions := (\<lambda>_. False)\<rparr>, ())"
  by (simp add: tl_defs getRevertMsg_def fun_upd_def)

theorem executed_transactions_waited_witness:
  "\<exists>log s' x. tl_history sample_tl_ext
     [(at_time 1000, QueueTransaction sample_tx), (at_time 50000, ExecuteTransaction sample_tx),
      (at_time 100000, ExecuteTransaction sample_tx), (at_time 100001, ExecuteTransaction sample_tx)]
     (sample_timelock, ()) = (log, s', x) \<and> Executed sample_tx 100000 \<in> set log \<and> delay s' \<le> MAXIMUM_DELAY"
proof -
  have "inj_on (tl_hash sample_tl_ext) (ev_tx ` set [Queued sample_tx 1000 86400, Executed sample_tx 100000])"
    by (simp add: ev_tx_def)
  from executed_transactions_waited [OF sample_tl_math sample_constructed sample_history this] sample_history
  show ?thesis by auto
qed

section \<open>The timelock governs itself\<close>

text \<open>
  A call back whose sender is the timelock comes from a call of the timelock to itself; this is how
  the EVM sets \<open>msg.sender\<close>.
\<close>

definition genuine_senders :: "'x tl_ext \<Rightarrow> address \<Rightarrow> bool" where
  "genuine_senders X self \<longleftrightarrow> (\<forall>target value cd x. target \<noteq> self \<longrightarrow>
     (\<forall>(a, c) \<in> set (fst (snd (tl_call X target value cd x))). a \<noteq> self))"

definition same_rules :: "timelock \<Rightarrow> timelock \<Rightarrow> bool" where
  "same_rules s s' \<longleftrightarrow> delay s' = delay s \<and> (admin_initialized s \<longrightarrow> admin_initialized s') \<and>
     (pendingAdmin s' \<in> {pendingAdmin s, zero_address} \<or> \<not> admin_initialized s \<and> admin_initialized s')"

lemma same_rules_trans: "same_rules s t \<Longrightarrow> same_rules t u \<Longrightarrow> same_rules s u"
  by (auto simp: same_rules_def)

lemma outside_op: "simple_op X m c s = Inr s' \<Longrightarrow> sender m \<noteq> this m \<Longrightarrow> same_rules s s'"
  by (cases c) (auto simp: same_rules_def setDelay_def acceptAdmin_def setPendingAdmin_def queueTransaction_def
      cancelTransaction_def split: if_splits)

text \<open>Outside an execution, only the first \<open>setPendingAdmin\<close> names a pending administrator.\<close>

lemma outside_pending:
  "simple_op X m c s = Inr s' \<Longrightarrow> sender m \<noteq> this m \<Longrightarrow> pendingAdmin s' \<notin> {pendingAdmin s, zero_address} \<Longrightarrow>
   \<not> admin_initialized s \<and> sender m = admin s \<and> c = SetPendingAdmin (pendingAdmin s')"
  by (cases c) (auto simp: setDelay_def acceptAdmin_def setPendingAdmin_def queueTransaction_def
      cancelTransaction_def setQueued_def split: if_splits)

lemma outside_call_backs:
  "call_backs X m cs s = (log, s') \<Longrightarrow> \<forall>(a, c) \<in> set cs. a \<noteq> this m \<Longrightarrow> same_rules s s'"
proof (induction cs arbitrary: s log)
  case (Cons ac cs)
  obtain a c where ac: "ac = (a, c)" by (cases ac)
  show ?case
  proof (cases "simple_op X (m\<lparr>sender := a\<rparr>) c s")
    case (Inl e)
    with Cons show ?thesis by (simp add: ac)
  next
    case (Inr s1)
    obtain rest where "call_backs X m cs s1 = (rest, s')"
      using Cons.prems Inr by (auto simp: ac Let_def split: prod.splits)
    moreover have "same_rules s s1" by (rule outside_op [OF Inr]) (use Cons.prems in \<open>simp add: ac\<close>)
    ultimately show ?thesis using Cons.IH Cons.prems(2) same_rules_trans by (auto simp: ac)
  qed
qed (simp add: same_rules_def)

text \<open>
  The call of a transaction passes when it succeeds and its data is short or decodes as a string: what
  \<open>require(success, _getRevertMsg(returnData))\<close> asks for.
\<close>

definition call_passes :: "'x tl_ext \<Rightarrow> tl_tx \<Rightarrow> 'x \<Rightarrow> bool" where
  "call_passes X tx x = (case tx of (target, value, signature, data, eta) \<Rightarrow>
     case fst (tl_call X target value (if signature = [] then data else tl_selector X signature @ data) x) of
       (success, returnData) \<Rightarrow> success \<and> \<not> isl (getRevertMsg X returnData))"

lemma executes_queued:
  assumes M: "safe_math_ok (tl_math X)" and q: "queuedTransactions s (tl_hash X tx)"
    and window: "tx_eta tx \<le> block_timestamp m" "block_timestamp m \<le> tx_eta tx + GRACE_PERIOD"
      "tx_eta tx + GRACE_PERIOD \<le> uint_max"
    and admin: "sender m = admin s"
  shows "(\<exists>ret log st. executeTransaction X m tx (s, x) = Inr (ret, log, st)) \<longleftrightarrow> call_passes X tx x"
proof -
  obtain target val sg data eta where tx: "tx = (target, val, sg, data, eta)" by (cases tx) auto
  have add: "sm_add (tl_math X) eta GRACE_PERIOD = Inr (eta + GRACE_PERIOD)"
    using window(3) by (simp add: safe_math_iff [OF M] tx tx_eta_def)
  obtain success ret backs x' where call: "tl_call X target val (if sg = [] then data else tl_selector X sg @ data) x =
      ((success, ret), backs, x')" by (metis prod.exhaust)
  obtain log s2 where cb: "call_backs X m backs (setQueued X tx False s) = (log, s2)" by (cases "call_backs X m backs (setQueued X tx False s)")
  have "executeTransaction X m tx (s, x) = bindE (getRevertMsg X ret) (\<lambda>msg. bindE (require success msg)
      (\<lambda>_. Inr (ret, log, s2, x')))"
    using q add window(1,2) admin call cb by (simp add: executeTransaction_def Let_def tx tx_eta_def require_def)
  moreover have "call_passes X tx x \<longleftrightarrow> success \<and> \<not> isl (getRevertMsg X ret)"
    using call by (simp add: call_passes_def tx)
  ultimately show ?thesis by (cases "getRevertMsg X ret") (simp_all add: require_def)
qed

text \<open>A call that succeeded is undone by its own data: 68 bytes or more that do not decode as a string.\<close>

lemma succeeded_call_reverts:
  assumes "tl_call X target val (if sg = [] then data else tl_selector X sg @ data) x = ((True, ret), backs, x')"
    and "68 \<le> length ret" and "\<And>n. isl (tl_decode_string X n (drop 4 ret))"
  shows "isl (executeTransaction X m (target, val, sg, data, eta) (s, x))"
proof (rule ccontr)
  assume "\<not> isl (executeTransaction X m (target, val, sg, data, eta) (s, x))"
  then have "\<not> isl (getRevertMsg X ret)"
    using assms(1) by (auto simp: executeTransaction_def Let_def bindE_def split: sum.splits prod.splits)
  with assms(2,3) show False by (auto simp: getRevertMsg_def)
qed

text \<open>
  C17: Only queued transactions of the timelock to itself change its rules, but for the documented first use:
  when a call from outside changes the delay, names a new pending administrator or takes back that
  \<open>setPendingAdmin\<close> was used, then it executes a queued transaction whose target is the timelock and whose
  \<open>eta\<close> has passed; or it leaves the delay, \<open>setPendingAdmin\<close> was never used before and is now, and the call is
  that \<open>setPendingAdmin\<close>, by the administrator, or the execution of a queued transaction in which it happened.
  Senders are genuine: a call back comes from the timelock's address only when the timelock calls itself.
\<close>

theorem rules_change_through_the_queue:
  assumes M: "safe_math_ok (tl_math X)" and genuine: "genuine_senders X (this m)"
    and outside: "sender m \<noteq> this m" and step: "tl_exec X m c (s, x) = Inr (log, s', x')"
    and change: "delay s' \<noteq> delay s \<or> pendingAdmin s' \<notin> {pendingAdmin s, zero_address} \<or>
      admin_initialized s \<and> \<not> admin_initialized s'"
  shows "(\<exists>tx. c = ExecuteTransaction tx \<and> fst tx = this m \<and> queuedTransactions s (tl_hash X tx) \<and>
      tx_eta tx \<le> block_timestamp m) \<or>
    (delay s' = delay s \<and> \<not> admin_initialized s \<and> admin_initialized s' \<and>
      (c = SetPendingAdmin (pendingAdmin s') \<and> sender m = admin s \<or>
       (\<exists>tx. c = ExecuteTransaction tx \<and> queuedTransactions s (tl_hash X tx) \<and> tx_eta tx \<le> block_timestamp m)))"
proof (cases "\<exists>tx. c = ExecuteTransaction tx")
  case True
  then obtain tx where c: "c = ExecuteTransaction tx" ..
  with step obtain ret log' where "executeTransaction X m tx (s, x) = Inr (ret, log', s', x')" by auto
  from executeTransaction_Inr [OF M this] obtain backs cd where
    g: "queuedTransactions s (tl_hash X tx)" "tx_eta tx \<le> block_timestamp m"
    and call: "tl_call X (fst tx) (fst (snd tx)) cd x = ((True, ret), backs, x')"
    and cb: "call_backs X m backs (setQueued X tx False s) = (log', s')" by metis
  show ?thesis
  proof (cases "fst tx = this m")
    case False
    with genuine have "\<forall>(a, c) \<in> set (fst (snd (tl_call X (fst tx) (fst (snd tx)) cd x))). a \<noteq> this m"
      unfolding genuine_senders_def by blast
    then have "\<forall>(a, c) \<in> set backs. a \<noteq> this m" by (simp add: call)
    from outside_call_backs [OF cb this] change have "delay s' = delay s \<and> \<not> admin_initialized s \<and> admin_initialized s'"
      by (auto simp: same_rules_def)
    with c g show ?thesis by blast
  qed (use c g in blast)
next
  case False
  then have op: "simple_op X m c s = Inr s'" using step by (cases c) auto
  have same: "same_rules s s'" by (rule outside_op [OF op outside])
  then have new: "pendingAdmin s' \<notin> {pendingAdmin s, zero_address}" using change unfolding same_rules_def by blast
  from outside_pending [OF op outside new] same new show ?thesis by (auto simp: same_rules_def)
qed

theorem rules_change_through_the_queue_witness:
  "\<exists>s log s'. tl_exec sample_tl_ext (at_time 100000) (ExecuteTransaction sample_tx) (s, ()) = Inr (log, s', ()) \<and>
     delay s = 86400 \<and> delay s' = 172800 \<and> fst sample_tx = this (at_time 100000) \<and>
     queuedTransactions s (tl_hash sample_tl_ext sample_tx) \<and> tx_eta sample_tx \<le> block_timestamp (at_time 100000)"
proof -
  let ?s = "sample_timelock\<lparr>queuedTransactions := (\<lambda>_. True)\<rparr>"
  let ?s' = "?s\<lparr>delay := 172800, queuedTransactions := (\<lambda>h. h \<noteq> [7])\<rparr>"
  have step: "tl_exec sample_tl_ext (at_time 100000) (ExecuteTransaction sample_tx) (?s, ()) =
      Inr ([Executed sample_tx 100000], ?s', ())"
    by (simp add: tl_defs getRevertMsg_def fun_upd_def)
  have "genuine_senders sample_tl_ext (this (at_time 100000))"
    by (auto simp: genuine_senders_def sample_tl_ext_def at_time_def)
  from rules_change_through_the_queue [OF sample_tl_math this _ step]
  have "fst sample_tx = this (at_time 100000) \<and> queuedTransactions ?s (tl_hash sample_tl_ext sample_tx) \<and>
      tx_eta sample_tx \<le> block_timestamp (at_time 100000)"
    by (simp add: at_time_def sample_timelock_def)
  then show ?thesis using step
    by (intro exI [of _ ?s] exI [of _ "[Executed sample_tx 100000]"] exI [of _ ?s']) (simp add: sample_timelock_def)
qed

section \<open>What is queued can be executed\<close>

text \<open>
  C38: A queued transaction is not lost: at any time in the fourteen days after \<open>eta\<close> the administrator's
  execution of a transaction that was queued in the history and not cancelled or executed since, with any other
  calls in between, succeeds if and only if the call it makes succeeds and returns either less than 68 bytes or
  bytes that \<open>_getRevertMsg\<close> can decode as a string; nothing else of the timelock stands in its way.
\<close>

theorem queued_transaction_executes:
  assumes M: "safe_math_ok (tl_math X)" and new: "tl_constructor a d0 = Inr s"
    and history: "tl_history X cs (s, x) = (before @ Queued tx t0 d # between, s', x')"
    and untouched: "\<forall>e \<in> set between. tl_hash X (ev_tx e) = tl_hash X tx \<longrightarrow> is_queued e"
    and window: "tx_eta tx \<le> block_timestamp m" "block_timestamp m \<le> tx_eta tx + GRACE_PERIOD"
      "tx_eta tx + GRACE_PERIOD \<le> uint_max"
    and admin: "sender m = admin s'"
  shows "(\<exists>ret log st. executeTransaction X m tx (s', x') = Inr (ret, log, st)) \<longleftrightarrow>
    (case tx of (target, value, signature, data, eta) \<Rightarrow>
      case fst (tl_call X target value (if signature = [] then data else tl_selector X signature @ data) x') of
        (success, returnData) \<Rightarrow> success \<and> \<not> isl (getRevertMsg X returnData))"
proof -
  have "queuedTransactions s' = foldl (effect (tl_hash X)) (\<lambda>_. False) (before @ Queued tx t0 d # between)"
    using tl_history_refines [OF M history] constructed [OF new] by (simp add: refines_def)
  moreover have "foldl (effect (tl_hash X)) (\<lambda>_. False) (before @ Queued tx t0 d # between) (tl_hash X tx)"
    unfolding stands using untouched
    by (intro disjI1 exI [of _ before] exI [of _ "Queued tx t0 d"] exI [of _ between]) (simp add: is_queued_def ev_tx_def)
  ultimately have q: "queuedTransactions s' (tl_hash X tx)" by simp
  show ?thesis by (rule executes_queued [OF M q window admin, unfolded call_passes_def])
qed

theorem queued_transaction_executes_witness:
  "\<exists>s' ret log st. tl_history sample_tl_ext [(at_time 1000, QueueTransaction sample_tx)] (sample_timelock, ()) =
       ([Queued sample_tx 1000 86400], s', ()) \<and>
     executeTransaction sample_tl_ext (at_time 100000) sample_tx (s', ()) = Inr (ret, log, st)"
proof -
  let ?s' = "sample_timelock\<lparr>queuedTransactions := (\<lambda>h. h = [7])\<rparr>"
  have h: "tl_history sample_tl_ext [(at_time 1000, QueueTransaction sample_tx)] (sample_timelock, ()) =
      ([] @ Queued sample_tx 1000 86400 # [], ?s', ())"
    by (simp add: tl_defs fun_upd_def)
  have "\<exists>ret log st. executeTransaction sample_tl_ext (at_time 100000) sample_tx (?s', ()) = Inr (ret, log, st)"
    by (subst queued_transaction_executes [OF sample_tl_math sample_constructed h])
      (simp_all add: sample_tx_def tx_eta_def at_time_def GRACE_PERIOD_def uint_max_def sample_timelock_def
        sample_tl_ext_def getRevertMsg_def)
  then show ?thesis using h by auto
qed

end
