(* ===== verification/Timelock_Scripts.thy ===== *)
theory Timelock_Scripts
  imports Runtime
begin

text \<open>
  The scripts of \<open>deploy/setup\<close> (and \<open>deploy/scripts/021\<close>) that change the protocol through the timelock:
  each queues transactions at the timelock and prints, for each, the command that executes it later.
  A printed line is modelled by the call it denotes when it is run as JavaScript: a text in quotes
  is a string, digits are a number, \<open>[\<dots>]\<close> an array, \<open>{\<dots>}\<close> an object.
\<close>

section \<open>Queueing and printing\<close>

definition queue_signature :: string where
  "queue_signature = ''queueTransaction(address,uint256,string,bytes,uint256)''"

text \<open>
  \<open>timelock.queueTransaction(target, '0', signature, defaultAbiCoder.encode(types, args), eta, overrides)\<close>.
\<close>

definition queue ::
  "string \<Rightarrow> string \<Rightarrow> string \<Rightarrow> string list \<Rightarrow> val list \<Rightarrow> string \<Rightarrow> (string \<times> val) list \<Rightarrow> ('w, unit) script"
  where
  "queue TIMELOCK target signature types args eta overrides =
     bindS (resultS (\<lambda>H. abi_encode H types args)) (\<lambda>data.
     askUnit (Send TIMELOCK queue_signature [Str target, Str ''0'', Str signature, data, Str eta] overrides))"

text \<open>Digits printed without quotes.\<close>

definition number :: "string \<Rightarrow> val" where
  "number t = (case decimal t of Some n \<Rightarrow> Num (int n) | None \<Rightarrow> Undef)"

definition command :: "string \<Rightarrow> string \<Rightarrow> string list \<Rightarrow> val list \<Rightarrow> string \<Rightarrow> exec_command" where
  "command target signature types args eta =
     \<lparr>exec_target = target, exec_value = Str ''0'', exec_signature = signature, exec_types = types,
      exec_args = args, exec_eta = number eta\<rparr>"

text \<open>A \<open>BigNumber\<close> printed by a template is its decimal text.\<close>

fun nat_text :: "nat \<Rightarrow> string" where
  "nat_text n = (if n < 10 then [char_of (48 + n)] else nat_text (n div 10) @ [char_of (48 + n mod 10)])"

declare nat_text.simps [simp del]

definition text_of :: "val \<Rightarrow> val" where
  "text_of v = (case v of
     Big n \<Rightarrow> Str (if n < 0 then ''-'' @ nat_text (nat (- n)) else nat_text (nat n)) | _ \<Rightarrow> v)"

section \<open>The scripts\<close>

text \<open>\<open>s001\<close>.\<close>

definition timelock_add_worker_strategy :: "('w, unit) script" where
  "timelock_add_worker_strategy =
     (let WORKER_ADDR = ''0xF3ECC0e5c238C7082fC59e682104DEA2f49A3787'';
          STRATEGY_ADDR = ''0xA4047bdA5288BC718E4a3De68781dA4D7e801e82'';
          IS_ENABLE = True;
          TIMELOCK = ''0x771F70042ebb6d2Cfc29b7BF9f3caf9F959385B8'';
          EXACT_ETA = ''1615447380'' in
      thenS (queue TIMELOCK WORKER_ADDR ''setStrategyOk(address[],bool)'' [''address[]'', ''bool'']
        [Arr [Str STRATEGY_ADDR], Bool IS_ENABLE] EXACT_ETA [])
      (printExec (command WORKER_ADDR ''setStrategyOk(address[],bool)'' [''address[]'', ''bool'']
        [Arr [Str STRATEGY_ADDR], Bool IS_ENABLE] EXACT_ETA)))"

text \<open>\<open>s007\<close>: an upgrade, preparing the implementation when none is given, and the new debt token.\<close>

definition newImplOf :: "string \<Rightarrow> string \<Rightarrow> string \<Rightarrow> ('w, string) script" where
  "newImplOf NEW_IMPL contractName proxy =
     (if NEW_IMPL = '''' then thenS (askUnit (GetFactory contractName)) (askAddress (PrepareUpgrade proxy contractName))
      else retS NEW_IMPL)"

definition queue_upgrade ::
  "string \<Rightarrow> string \<Rightarrow> string \<Rightarrow> string \<Rightarrow> string \<Rightarrow> (string \<times> val) list \<Rightarrow> ('w, unit) script" where
  "queue_upgrade TIMELOCK PROXY_ADMIN proxy newImpl EXACT_ETA overrides =
     thenS (queue TIMELOCK PROXY_ADMIN ''upgrade(address,address)'' [''address'', ''address'']
       [Str proxy, Str newImpl] EXACT_ETA overrides)
     (printExec (command PROXY_ADMIN ''upgrade(address,address)'' [''address'', ''address'']
       [Str proxy, Str newImpl] EXACT_ETA))"

definition upgrade_vault_through ::
  "string \<Rightarrow> string \<Rightarrow> string \<Rightarrow> string \<Rightarrow> string \<Rightarrow> string \<Rightarrow> string \<Rightarrow> ('w, unit) script" where
  "upgrade_vault_through PROXY_ADMIN NEW_IMPL TO_BE_UPGRADE_VAULT TIMELOCK EXACT_ETA NEW_DEBT_TOKEN DEBT_PID =
     bindS (newImplOf NEW_IMPL ''Vault'' TO_BE_UPGRADE_VAULT) (\<lambda>newImpl.
     thenS (queue_upgrade TIMELOCK PROXY_ADMIN TO_BE_UPGRADE_VAULT newImpl EXACT_ETA [])
     (if NEW_DEBT_TOKEN \<noteq> '''' then
        thenS (queue TIMELOCK TO_BE_UPGRADE_VAULT ''updateDebtToken(address,uint256)'' [''address'', ''uint256'']
          [Str NEW_DEBT_TOKEN, Str DEBT_PID] EXACT_ETA [])
        (printExec (command TO_BE_UPGRADE_VAULT ''updateDebtToken(address,uint256)'' [''address'', ''uint256'']
          [Str NEW_DEBT_TOKEN, number DEBT_PID] EXACT_ETA))
      else retS ()))"

definition upgrade_vault :: "('w, unit) script" where
  "upgrade_vault = upgrade_vault_through ''0x5379F32C8D5F663EACb61eeF63F722950294f452''
     ''0x7EEAA96bf1aBaA206615046c0991E678a2b12Da1'' ''0x7C9e73d4C71dae564d41F78d56439bB4ba87592f''
     ''0x2D5408f2287BF9F9B05404794459a846651D0a59'' ''1616574600''
     ''0x02dA7035beD00ae645516bDb0c282A7fD4AA7442'' ''7''"

text \<open>\<open>s009\<close>.\<close>

definition PROXY_ADDRESSES :: "string list" where
  "PROXY_ADDRESSES =
     [''0x166f56F2EDa9817cAB77118AE4FCAA0002A17eC7'', ''0xADaBC5FC5da42c85A84e66096460C769a151A8F8'',
      ''0x53dbb71303ad0F9AFa184B8f7147F9f12Bb5Dc01'', ''0xd7D069493685A581d27824Fc46EdA46B7EfC0063'',
      ''0xd7b805E88c5F52EDE71a9b93F7048c8d632DBEd4'', ''0x7C9e73d4C71dae564d41F78d56439bB4ba87592f'']"

definition timelock_change_admin_proxy :: "('w, unit) script" where
  "timelock_change_admin_proxy =
     (let PROXY_ADMIN = ''0x5379F32C8D5F663EACb61eeF63F722950294f452'';
          TIMELOCK = ''0x2D5408f2287BF9F9B05404794459a846651D0a59'';
          EXACT_ETA = ''1615789200'' in
      forS (\<lambda>proxy.
        thenS (queue TIMELOCK proxy ''changeAdmin(address)'' [''address''] [Str PROXY_ADMIN] EXACT_ETA [])
        (printExec (command proxy ''changeAdmin(address)'' [''address''] [Str PROXY_ADMIN] EXACT_ETA)))
      PROXY_ADDRESSES)"

text \<open>\<open>s010\<close>: the amounts of the table are computed before the loop.\<close>

record vault_params =
  VAULT_CONFIG :: string
  MIN_DEBT_SIZE :: val
  RESERVE_POOL_BPS :: string
  KILL_PRIZE_BPS :: string
  INTEREST_MODEL :: string
  WBNB :: string
  WNATIVE_RELAYER :: string
  FAIRLAUNCH :: string
  PARAM_TIMELOCK :: string
  PARAM_EXACT_ETA :: string

definition vault_params_of :: "string \<Rightarrow> val \<Rightarrow> vault_params" where
  "vault_params_of vaultConfig minDebtSize =
     \<lparr>VAULT_CONFIG = vaultConfig, MIN_DEBT_SIZE = minDebtSize, RESERVE_POOL_BPS = ''1000'', KILL_PRIZE_BPS = ''500'',
      INTEREST_MODEL = ''0x375D32FadA30d7e6Fea242FCa221a22CC6d52B30'',
      WBNB = ''0xbb4CdB9CBd36B01bD1cBaEBF2De08d9173bc095c'',
      WNATIVE_RELAYER = ''0xE1D2CA01bc88F325fF7266DD2165944f3CAf0D3D'',
      FAIRLAUNCH = ''0xA625AB01B08ce023B2a342Dbb12a16f2C8489A8F'',
      PARAM_TIMELOCK = ''0x2D5408f2287BF9F9B05404794459a846651D0a59'', PARAM_EXACT_ETA = ''1617926400''\<rparr>"

definition set_params_signature :: string where
  "set_params_signature = ''setParams(uint256,uint256,uint256,address,address,address,address)''"

definition set_params_types :: "string list" where
  "set_params_types = [''uint256'', ''uint256'', ''uint256'', ''address'', ''address'', ''address'', ''address'']"

definition queue_set_params :: "vault_params \<Rightarrow> ('w, unit) script" where
  "queue_set_params p =
     thenS (queue (PARAM_TIMELOCK p) (VAULT_CONFIG p) set_params_signature set_params_types
       [MIN_DEBT_SIZE p, Str (RESERVE_POOL_BPS p), Str (KILL_PRIZE_BPS p), Str (INTEREST_MODEL p), Str (WBNB p),
        Str (WNATIVE_RELAYER p), Str (FAIRLAUNCH p)] (PARAM_EXACT_ETA p) [])
     (printExec (command (VAULT_CONFIG p) set_params_signature set_params_types
       [text_of (MIN_DEBT_SIZE p), Str (RESERVE_POOL_BPS p), Str (KILL_PRIZE_BPS p), Str (INTEREST_MODEL p),
        Str (WBNB p), Str (WNATIVE_RELAYER p), Str (FAIRLAUNCH p)] (PARAM_EXACT_ETA p)))"

definition timelock_set_param_vault_config :: "('w, unit) script" where
  "timelock_set_param_vault_config =
     bindS (ether ''2'') (\<lambda>bnb. bindS (ether ''400'') (\<lambda>busd.
     forS queue_set_params
       [vault_params_of ''0x53dbb71303ad0F9AFa184B8f7147F9f12Bb5Dc01'' bnb,
        vault_params_of ''0xd7b805E88c5F52EDE71a9b93F7048c8d632DBEd4'' busd]))"

text \<open>\<open>s011\<close>: the factors are printed as numbers, the flag as a boolean.\<close>

record worker_update =
  WORKER_ADDRESS :: string
  ACCEPT_DEBT :: bool
  WORK_FACTOR :: string
  KILL_FACTOR :: string
  MAX_PRICE_DIFF :: string

definition worker_config_obj :: "(string \<Rightarrow> val) \<Rightarrow> worker_update \<Rightarrow> val" where
  "worker_config_obj factor u =
     Obj [(''acceptDebt'', Bool (ACCEPT_DEBT u)), (''workFactor'', factor (WORK_FACTOR u)),
       (''killFactor'', factor (KILL_FACTOR u)), (''maxPriceDiff'', factor (MAX_PRICE_DIFF u))]"

definition timelock_update_worker_params :: "('w, unit) script" where
  "timelock_update_worker_params =
     (let WORKER_CONFIG_ADDR = ''0xADaBC5FC5da42c85A84e66096460C769a151A8F8'';
          UPDATES = [\<lparr>WORKER_ADDRESS = ''0xC5954CA8988988362f60498d5aDEc67BA466492B'', ACCEPT_DEBT = True,
            WORK_FACTOR = ''8600'', KILL_FACTOR = ''9200'', MAX_PRICE_DIFF = ''11000''\<rparr>];
          TIMELOCK = ''0x2D5408f2287BF9F9B05404794459a846651D0a59'';
          EXACT_ETA = ''1622300700'';
          signature = ''setConfigs(address[],(bool,uint64,uint64,uint64)[])'';
          types = [''address[]'', ''(bool acceptDebt,uint64 workFactor,uint64 killFactor,uint64 maxPriceDiff)[]''] in
      forS (\<lambda>u.
        thenS (queue TIMELOCK WORKER_CONFIG_ADDR signature types
          [Arr [Str (WORKER_ADDRESS u)], Arr [worker_config_obj Str u]] EXACT_ETA
          [(''gasPrice'', Num 300000000000)])
        (printExec (command WORKER_CONFIG_ADDR signature types
          [Arr [Str (WORKER_ADDRESS u)], Arr [worker_config_obj number u]] EXACT_ETA)))
      UPDATES)"

text \<open>\<open>s012\<close>: the critical strategies are set only where both are given.\<close>

definition change_strategies ::
  "string \<Rightarrow> string \<Rightarrow> string \<Rightarrow> string \<Rightarrow> string list \<Rightarrow> string \<Rightarrow> ('w, unit) script" where
  "change_strategies TIMELOCK EXACT_ETA ADD_STRAT LIQ_STRAT STRATEGY worker =
     thenS
     (if ADD_STRAT \<noteq> '''' \<and> LIQ_STRAT \<noteq> '''' then
        thenS (queue TIMELOCK worker ''setCriticalStrategies(address,address)'' [''address'', ''address'']
          [Str ADD_STRAT, Str LIQ_STRAT] EXACT_ETA [])
        (printExec (command worker ''setCriticalStrategies(address,address)'' [''address'', ''address'']
          [Str ADD_STRAT, Str LIQ_STRAT] EXACT_ETA))
      else retS ())
     (thenS (queue TIMELOCK worker ''setStrategyOk(address[],bool)'' [''address[]'', ''bool'']
        [Arr (map Str STRATEGY), Bool False] EXACT_ETA [])
      (printExec (command worker ''setStrategyOk(address[],bool)'' [''address[]'', ''bool'']
        [Arr (map Str STRATEGY), Bool False] EXACT_ETA)))"

definition timelock_change_strategies :: "('w, unit) script" where
  "timelock_change_strategies =
     (let STRATEGY = [''0xd80783De91fbEd9F7995A97D4C02917295F86F68'', ''0xE38EBFE8F314dcaD61d5aDCB29c1A26F41BEd0Be'',
            ''0xE574dc08aa579720Dfacd70D3DAE883d29874599'', ''0x95Ff1336985723aa46078995454d7A7Fd9F5401e''];
          ADD_STRAT = ''''; LIQ_STRAT = '''';
          WORKERS = [''0xeF1C5D2c20b22Ae50437a2F3bd258Ab1117D1BaD''];
          TIMELOCK = ''0x2D5408f2287BF9F9B05404794459a846651D0a59'';
          EXACT_ETA = ''1620561000'' in
      forS (change_strategies TIMELOCK EXACT_ETA ADD_STRAT LIQ_STRAT STRATEGY) WORKERS)"

text \<open>\<open>s014\<close>: one implementation for all workers, prepared from the first of them if none is given.\<close>

definition TO_BE_UPGRADE_WORKERS :: "string list" where
  "TO_BE_UPGRADE_WORKERS =
     [''0x7Af938f0EFDD98Dc513109F6A7E85106D26E16c4'',
      ''0x0aD12Bc160B523E7aBfBe3ABaDceE8F1b6116089'',
      ''0x831332f94C4A0092040b28ECe9377AfEfF34B25a'',
      ''0x05bDF33f03017eaFdEEccD68406E1281a1deF62d'',
      ''0xA1644132Ca692ba0657637A31CE0F6B99f052C5E'',
      ''0xDcd9f075B1Ff638e757226626a3b3606D7795f80'',
      ''0xBB77F1625c4C3374ea0BAF42FAC74F7b7Ae9E4c6'',
      ''0x2E7f32e38EA5a5fcb4494d9B626d2d393B176B1E'',
      ''0x4193D35D0cB598d92703ED69701f5d568aCa015c'',
      ''0xa726E9E5c007253fe7589879136FDf24dA6DA393'',
      ''0x9B13982d094b4fCca4aFF741A96834ff66E4d8bd'',
      ''0x730bce145a55A07C2D7363db7110466c5c26E472'',
      ''0xC5954CA8988988362f60498d5aDEc67BA466492B'',
      ''0x51782E39A0aF33f542443419c223434Bb4A5a695'',
      ''0x693430Fe5F1b0a61b232132d0567295c288eA482'',
      ''0xB82B93FcF1818513889c0E1F3628484Ce5017A14'',
      ''0xe632ac75f2d0A97F7b1ef3a8a16d653C4c82b1fb'',
      ''0xeBdECF3a21D95453A89440A4E32B9559E47073E7'',
      ''0x2C4a246e532542DFaE3d575003C7f5c6583BFD8c'',
      ''0xd6260DB3A84C7BfdAFcD82325397B8E70B39627f'',
      ''0xaA5c95181c02DfB8173813149e52c8C9E4E14124'',
      ''0xeF1C5D2c20b22Ae50437a2F3bd258Ab1117D1BaD'']"

definition upgrade_workers_through :: "string \<Rightarrow> ('w, unit) script" where
  "upgrade_workers_through NEW_IMPL =
     (let PROXY_ADMIN = ''0x5379F32C8D5F663EACb61eeF63F722950294f452'';
          TIMELOCK = ''0x2D5408f2287BF9F9B05404794459a846651D0a59'';
          EXACT_ETA = ''1620575100'' in
      bindS (newImplOf NEW_IMPL ''PancakeswapV2Worker'' (TO_BE_UPGRADE_WORKERS ! 0)) (\<lambda>newImpl.
      forS (\<lambda>worker. queue_upgrade TIMELOCK PROXY_ADMIN worker newImpl EXACT_ETA
        [(''gasPrice'', Num 100000000000)])
      TO_BE_UPGRADE_WORKERS))"

definition upgrade_workers :: "('w, unit) script" where
  "upgrade_workers = upgrade_workers_through ''0xcac73A0f24968e201c2cc326edbC92A87666b430''"

text \<open>\<open>s015\<close>.\<close>

record migrate_lp_params =
  MIGRATE_WORKER_NAME :: string
  MIGRATE_WORKER_ADDR :: string
  ROUTER_V2 :: string
  NEW_POOL_ID :: string
  TWOSIDE_OPTIMAL_MIGRATION_STRAT_ADDR :: string
  MIGRATE_ADD_STRAT :: string
  MIGRATE_LIQ_STRAT :: string
  OK_STRATS :: "string list"
  DISABLE_STRATS :: "string list"

definition MIGRATIONS :: "migrate_lp_params list" where
  "MIGRATIONS =
     [\<lparr>MIGRATE_WORKER_NAME = ''COMP-ETH Worker'',
       MIGRATE_WORKER_ADDR = ''0xd6260DB3A84C7BfdAFcD82325397B8E70B39627f'',
       ROUTER_V2 = ''0x10ED43C718714eb63d5aA57B78B54704E256024E'', NEW_POOL_ID = ''300'',
       TWOSIDE_OPTIMAL_MIGRATION_STRAT_ADDR = ''0xb222b4Ebebcb9F264e8FF5C7661a52850e54E1eE'',
       MIGRATE_ADD_STRAT = ''0xE38EBFE8F314dcaD61d5aDCB29c1A26F41BEd0Be'',
       MIGRATE_LIQ_STRAT = ''0xE574dc08aa579720Dfacd70D3DAE883d29874599'',
       OK_STRATS = [''0x95Ff1336985723aa46078995454d7A7Fd9F5401e'', ''0x74EEC507b01AAcc192B295B7b7EB6F5DaEE68b1B''],
       DISABLE_STRATS = [''0x1DBa79e73a7Ea9749fc28B921bc9431D09BEf2B5'', ''0xc7c025aA69F4b525E3F9f5186b524492ee1C86bB'',
         ''0xEb6e0B9839b297322a6FaEc0cEBC6d3e207b7480'', ''0x5e2911d70d7a659Da0dA26989F445aeCAC58f2E6'']\<rparr>,
      \<lparr>MIGRATE_WORKER_NAME = ''SUSHI-ETH Worker'',
       MIGRATE_WORKER_ADDR = ''0xaA5c95181c02DfB8173813149e52c8C9E4E14124'',
       ROUTER_V2 = ''0x10ED43C718714eb63d5aA57B78B54704E256024E'', NEW_POOL_ID = ''306'',
       TWOSIDE_OPTIMAL_MIGRATION_STRAT_ADDR = ''0xb222b4Ebebcb9F264e8FF5C7661a52850e54E1eE'',
       MIGRATE_ADD_STRAT = ''0xE38EBFE8F314dcaD61d5aDCB29c1A26F41BEd0Be'',
       MIGRATE_LIQ_STRAT = ''0xE574dc08aa579720Dfacd70D3DAE883d29874599'',
       OK_STRATS = [''0x95Ff1336985723aa46078995454d7A7Fd9F5401e'', ''0x74EEC507b01AAcc192B295B7b7EB6F5DaEE68b1B''],
       DISABLE_STRATS = [''0x1DBa79e73a7Ea9749fc28B921bc9431D09BEf2B5'', ''0xc7c025aA69F4b525E3F9f5186b524492ee1C86bB'',
         ''0xEb6e0B9839b297322a6FaEc0cEBC6d3e207b7480'', ''0x5e2911d70d7a659Da0dA26989F445aeCAC58f2E6'']\<rparr>]"

definition migrate_lp_args :: "migrate_lp_params \<Rightarrow> val list" where
  "migrate_lp_args m =
     [Str (ROUTER_V2 m), Str (NEW_POOL_ID m), Str (TWOSIDE_OPTIMAL_MIGRATION_STRAT_ADDR m),
      Str (MIGRATE_ADD_STRAT m), Str (MIGRATE_LIQ_STRAT m), Arr (map Str (OK_STRATS m)),
      Arr (map Str (DISABLE_STRATS m))]"

definition timelock_migrate_lp :: "('w, unit) script" where
  "timelock_migrate_lp =
     (let TIMELOCK = ''0x2D5408f2287BF9F9B05404794459a846651D0a59'';
          EXACT_ETA = ''1619265600'';
          signature = ''migrateLP(address,uint256,address,address,address,address[],address[])'';
          types = [''address'', ''uint256'', ''address'', ''address'', ''address'', ''address[]'', ''address[]''] in
      forS (\<lambda>m.
        thenS (queue TIMELOCK (MIGRATE_WORKER_ADDR m) signature types (migrate_lp_args m) EXACT_ETA [])
        (printExec (command (MIGRATE_WORKER_ADDR m) signature types (migrate_lp_args m) EXACT_ETA)))
      MIGRATIONS)"

text \<open>\<open>s016\<close>: for every worker, three approvals to reset.\<close>

record reset_approval_params =
  RESET_WORKER_NAME :: string
  RESET_WORKER_ADDR :: string
  RESET_APPROVED :: "(string \<times> string) list"

definition reset_params :: "string \<Rightarrow> string \<Rightarrow> (string \<times> string) list \<Rightarrow> reset_approval_params" where
  "reset_params name addr approved =
     \<lparr>RESET_WORKER_NAME = name, RESET_WORKER_ADDR = addr, RESET_APPROVED = approved\<rparr>"

definition reset_approved_1 :: "reset_approval_params list" where
  "reset_approved_1 = [
     reset_params ''CAKE-WBNB Worker'' ''0x7Af938f0EFDD98Dc513109F6A7E85106D26E16c4''
       [(''0x0e09fabb73bd3ade0a17ecc321fd13a19e81ce82'', ''0x7F8BE608D72d5Eb51E231B1F9a3e25823fDe0900''),
        (''0xa527a61703d82139f8a06bc30097cc9caa2df5a6'', ''0x2AD2C5314028897AEcfCF37FD923c079BeEb2C56''),
        (''0xa527a61703d82139f8a06bc30097cc9caa2df5a6'', ''0x73feaa1eE314F8c655E354234017bE2193C9E24E'')],
     reset_params ''BTCB-WBNB Worker'' ''0x0aD12Bc160B523E7aBfBe3ABaDceE8F1b6116089''
       [(''0x7130d2a12b9bcbfae4f2634d864a1ee1ce3ead9c'', ''0x7F8BE608D72d5Eb51E231B1F9a3e25823fDe0900''),
        (''0x7561eee90e24f3b348e1087a005f78b4c8453524'', ''0x2AD2C5314028897AEcfCF37FD923c079BeEb2C56''),
        (''0x7561eee90e24f3b348e1087a005f78b4c8453524'', ''0x73feaa1eE314F8c655E354234017bE2193C9E24E'')],
     reset_params ''ETH-WBNB Worker'' ''0x831332f94C4A0092040b28ECe9377AfEfF34B25a''
       [(''0x2170ed0880ac9a755fd29b2688956bd959f933f8'', ''0x7F8BE608D72d5Eb51E231B1F9a3e25823fDe0900''),
        (''0x70d8929d04b60af4fb9b58713ebcf18765ade422'', ''0x2AD2C5314028897AEcfCF37FD923c079BeEb2C56''),
        (''0x70d8929d04b60af4fb9b58713ebcf18765ade422'', ''0x73feaa1eE314F8c655E354234017bE2193C9E24E'')],
     reset_params ''DOT-WBNB Worker'' ''0x05bDF33f03017eaFdEEccD68406E1281a1deF62d''
       [(''0x7083609fce4d1d8dc0c979aab8c869ea2c873402'', ''0x7F8BE608D72d5Eb51E231B1F9a3e25823fDe0900''),
        (''0xbCD62661A6b1DEd703585d3aF7d7649Ef4dcDB5c'', ''0x2AD2C5314028897AEcfCF37FD923c079BeEb2C56''),
        (''0xbCD62661A6b1DEd703585d3aF7d7649Ef4dcDB5c'', ''0x73feaa1eE314F8c655E354234017bE2193C9E24E'')],
     reset_params ''UNI-WBNB Worker'' ''0xA1644132Ca692ba0657637A31CE0F6B99f052C5E''
       [(''0xbf5140a22578168fd562dccf235e5d43a02ce9b1'', ''0x7F8BE608D72d5Eb51E231B1F9a3e25823fDe0900''),
        (''0x4269e7F43A63CEA1aD7707Be565a94a9189967E9'', ''0x2AD2C5314028897AEcfCF37FD923c079BeEb2C56''),
        (''0x4269e7F43A63CEA1aD7707Be565a94a9189967E9'', ''0x73feaa1eE314F8c655E354234017bE2193C9E24E'')],
     reset_params ''LINK-WBNB Worker'' ''0xDcd9f075B1Ff638e757226626a3b3606D7795f80''
       [(''0xf8a0bf9cf54bb92f17374d9e9a321e6a111a51bd'', ''0x7F8BE608D72d5Eb51E231B1F9a3e25823fDe0900''),
        (''0xaeBE45E3a03B734c68e5557AE04BFC76917B4686'', ''0x2AD2C5314028897AEcfCF37FD923c079BeEb2C56''),
        (''0xaeBE45E3a03B734c68e5557AE04BFC76917B4686'', ''0x73feaa1eE314F8c655E354234017bE2193C9E24E'')],
     reset_params ''XVS-WBNB Worker'' ''0xBB77F1625c4C3374ea0BAF42FAC74F7b7Ae9E4c6''
       [(''0xcf6bb5389c92bdda8a3747ddb454cb7a64626c63'', ''0x7F8BE608D72d5Eb51E231B1F9a3e25823fDe0900''),
        (''0x41182c32F854dd97bA0e0B1816022e0aCB2fc0bb'', ''0x2AD2C5314028897AEcfCF37FD923c079BeEb2C56''),
        (''0x41182c32F854dd97bA0e0B1816022e0aCB2fc0bb'', ''0x73feaa1eE314F8c655E354234017bE2193C9E24E'')],
     reset_params ''YFI-WBNB Worker'' ''0x2E7f32e38EA5a5fcb4494d9B626d2d393B176B1E''
       [(''0x88f1a5ae2a3bf98aeaf342d26b30a79438c9142e'', ''0x7F8BE608D72d5Eb51E231B1F9a3e25823fDe0900''),
        (''0x68Ff2ca47D27db5Ac0b5c46587645835dD51D3C1'', ''0x2AD2C5314028897AEcfCF37FD923c079BeEb2C56''),
        (''0x68Ff2ca47D27db5Ac0b5c46587645835dD51D3C1'', ''0x73feaa1eE314F8c655E354234017bE2193C9E24E'')],
     reset_params ''ITAM-WBNB Worker'' ''0x4193D35D0cB598d92703ED69701f5d568aCa015c''
       [(''0x04c747b40be4d535fc83d09939fb0f626f32800b'', ''0x7F8BE608D72d5Eb51E231B1F9a3e25823fDe0900''),
        (''0xCdC53345192D0e31eEAD03D7E9e008Ee659FAEbE'', ''0x2AD2C5314028897AEcfCF37FD923c079BeEb2C56''),
        (''0xCdC53345192D0e31eEAD03D7E9e008Ee659FAEbE'', ''0x73feaa1eE314F8c655E354234017bE2193C9E24E'')]]"

definition reset_approved_2 :: "reset_approval_params list" where
  "reset_approved_2 = [
     reset_params ''USDT-BUSD Worker'' ''0xC5954CA8988988362f60498d5aDEc67BA466492B''
       [(''0x55d398326f99059ff775485246999027b3197955'', ''0x7F8BE608D72d5Eb51E231B1F9a3e25823fDe0900''),
        (''0xc15fa3e22c912a276550f3e5fe3b0deb87b55acd'', ''0x2AD2C5314028897AEcfCF37FD923c079BeEb2C56''),
        (''0xc15fa3e22c912a276550f3e5fe3b0deb87b55acd'', ''0x73feaa1eE314F8c655E354234017bE2193C9E24E'')],
     reset_params ''WBNB-BUSD Worker'' ''0x51782E39A0aF33f542443419c223434Bb4A5a695''
       [(''0xbb4CdB9CBd36B01bD1cBaEBF2De08d9173bc095c'', ''0x7F8BE608D72d5Eb51E231B1F9a3e25823fDe0900''),
        (''0x1b96b92314c44b159149f7e0303511fb2fc4774f'', ''0x2AD2C5314028897AEcfCF37FD923c079BeEb2C56''),
        (''0x1b96b92314c44b159149f7e0303511fb2fc4774f'', ''0x73feaa1eE314F8c655E354234017bE2193C9E24E'')],
     reset_params ''VAI-BUSD Worker'' ''0x693430Fe5F1b0a61b232132d0567295c288eA482''
       [(''0x4bd17003473389a42daf6a0a729f6fdb328bbbd7'', ''0x7F8BE608D72d5Eb51E231B1F9a3e25823fDe0900''),
        (''0xfF17ff314925Dff772b71AbdFF2782bC913B3575'', ''0x2AD2C5314028897AEcfCF37FD923c079BeEb2C56''),
        (''0xfF17ff314925Dff772b71AbdFF2782bC913B3575'', ''0x73feaa1eE314F8c655E354234017bE2193C9E24E'')],
     reset_params ''USDC-BUSD Worker'' ''0xB82B93FcF1818513889c0E1F3628484Ce5017A14''
       [(''0x8ac76a51cc950d9822d68b83fe1ad97b32cd580d'', ''0x7F8BE608D72d5Eb51E231B1F9a3e25823fDe0900''),
        (''0x680Dd100E4b394Bda26A59dD5c119A391e747d18'', ''0x2AD2C5314028897AEcfCF37FD923c079BeEb2C56''),
        (''0x680Dd100E4b394Bda26A59dD5c119A391e747d18'', ''0x73feaa1eE314F8c655E354234017bE2193C9E24E'')],
     reset_params ''DAI-BUSD Worker'' ''0xe632ac75f2d0A97F7b1ef3a8a16d653C4c82b1fb''
       [(''0x1af3f329e8be154074d8769d1ffa4ee058b1dbc3'', ''0x7F8BE608D72d5Eb51E231B1F9a3e25823fDe0900''),
        (''0x3aB77e40340AB084c3e23Be8e5A6f7afed9D41DC'', ''0x2AD2C5314028897AEcfCF37FD923c079BeEb2C56''),
        (''0x3aB77e40340AB084c3e23Be8e5A6f7afed9D41DC'', ''0x73feaa1eE314F8c655E354234017bE2193C9E24E'')],
     reset_params ''UST-BUSD Worker'' ''0xeBdECF3a21D95453A89440A4E32B9559E47073E7''
       [(''0x23396cf899ca06c4472205fc903bdb4de249d6fc'', ''0x7F8BE608D72d5Eb51E231B1F9a3e25823fDe0900''),
        (''0xD1F12370b2ba1C79838337648F820a87eDF5e1e6'', ''0x2AD2C5314028897AEcfCF37FD923c079BeEb2C56''),
        (''0xD1F12370b2ba1C79838337648F820a87eDF5e1e6'', ''0x73feaa1eE314F8c655E354234017bE2193C9E24E'')],
     reset_params ''COMP-ETH Worker'' ''0xd6260DB3A84C7BfdAFcD82325397B8E70B39627f''
       [(''0x52ce071bd9b1c4b00a0b92d298c512478cad67e8'', ''0x7F8BE608D72d5Eb51E231B1F9a3e25823fDe0900''),
        (''0x0392957571F28037607C14832D16f8B653eDd472'', ''0x2AD2C5314028897AEcfCF37FD923c079BeEb2C56''),
        (''0x0392957571F28037607C14832D16f8B653eDd472'', ''0x73feaa1eE314F8c655E354234017bE2193C9E24E'')],
     reset_params ''SUSHI-ETH Worker'' ''0xaA5c95181c02DfB8173813149e52c8C9E4E14124''
       [(''0x947950bcc74888a40ffa2593c5798f11fc9124c4'', ''0x7F8BE608D72d5Eb51E231B1F9a3e25823fDe0900''),
        (''0x17580340F3dAEDAE871a8C21D15911742ec79e0F'', ''0x2AD2C5314028897AEcfCF37FD923c079BeEb2C56''),
        (''0x17580340F3dAEDAE871a8C21D15911742ec79e0F'', ''0x73feaa1eE314F8c655E354234017bE2193C9E24E'')]]"

definition reset_approvals :: "('w, unit) script" where
  "reset_approvals =
     (let TIMELOCK = ''0x2D5408f2287BF9F9B05404794459a846651D0a59'';
          EXACT_ETA = ''1619231400'';
          signature = ''resetApproval(address,address)'' in
      forS (\<lambda>r. forS (\<lambda>(token, spender).
        thenS (queue TIMELOCK (RESET_WORKER_ADDR r) signature [''address'', ''address'']
          [Str token, Str spender] EXACT_ETA [])
        (printExec (command (RESET_WORKER_ADDR r) signature [''address'', ''address'']
          [Str token, Str spender] EXACT_ETA)))
        (RESET_APPROVED r))
      (reset_approved_1 @ reset_approved_2))"

text \<open>\<open>s020\<close>: the table is empty in the repository.\<close>

record whitelisted_strat_workers =
  STRAT_NAME :: string
  STRAT_ADDR :: string
  STRAT_WORKERS :: "string list"

definition queue_whitelist :: "string \<Rightarrow> string \<Rightarrow> whitelisted_strat_workers \<Rightarrow> ('w, unit) script" where
  "queue_whitelist TIMELOCK EXACT_ETA params =
     thenS (queue TIMELOCK (STRAT_ADDR params) ''setWorkersOk(address[],bool)'' [''address[]'', ''bool'']
       [Arr (map Str (STRAT_WORKERS params)), Bool True] EXACT_ETA [])
     (printExec (command (STRAT_ADDR params) ''setWorkersOk(address[],bool)'' [''address[]'', ''bool'']
       [Arr (map Str (STRAT_WORKERS params)), Bool True] EXACT_ETA))"

definition whitelist_workers :: "whitelisted_strat_workers list \<Rightarrow> ('w, unit) script" where
  "whitelist_workers table =
     forS (queue_whitelist ''0x2D5408f2287BF9F9B05404794459a846651D0a59'' ''1619676000'') table"

definition timelock_whitelist_workers :: "('w, unit) script" where
  "timelock_whitelist_workers = whitelist_workers []"

text \<open>\<open>deploy/scripts/021\<close>: the Shield takes over the FairLaunch.\<close>

definition deploy_shield :: "('w, unit) script" where
  "deploy_shield =
     (let TIMELOCK = ''0x2D5408f2287BF9F9B05404794459a846651D0a59'';
          FAIRLAUNCHV1 = ''0xA625AB01B08ce023B2a342Dbb12a16f2C8489A8F'';
          TIMELOCK_TRANSFEROWNERSHIP_ETA = ''1617102000'' in
      bindS (askAddress (DeployContract ''Shield'' [Str TIMELOCK, Str FAIRLAUNCHV1])) (\<lambda>shield.
      thenS (queue TIMELOCK FAIRLAUNCHV1 ''transferOwnership(address)'' [''address''] [Str shield]
        TIMELOCK_TRANSFEROWNERSHIP_ETA [])
      (printExec (command FAIRLAUNCHV1 ''transferOwnership(address)'' [''address''] [Str shield]
        TIMELOCK_TRANSFEROWNERSHIP_ETA))))"

section \<open>Decimal texts\<close>

lemma digit_char: "n < 10 \<Longrightarrow> is_digit (char_of (48 + n :: nat)) \<and> of_char (char_of (48 + n :: nat) :: char) = 48 + n"
  by (simp add: is_digit_def)

lemma nat_text_digits: "list_all is_digit (nat_text n) \<and> nat_text n \<noteq> []"
proof (induction n rule: nat_text.induct)
  case (1 n)
  then show ?case
    by (cases "n < 10") (simp_all add: nat_text.simps [of n] digit_char)
qed

lemma nat_text_value: "foldl (\<lambda>n ch. 10 * n + (of_char ch - 48)) 0 (nat_text n) = n"
proof (induction n rule: nat_text.induct)
  case (1 n)
  have "(of_char (char_of (48 + n mod 10 :: nat) :: char) :: nat) = 48 + n mod 10"
    by (simp add: digit_char)
  with 1 show ?case
    by (cases "n < 10") (simp_all add: nat_text.simps [of n] digit_char)
qed

lemma decimal_nat_text: "decimal (nat_text n) = Some n"
  by (simp add: decimal_def nat_text_digits nat_text_value)

lemma canon_text_of: "0 \<le> n \<Longrightarrow> canon (text_of (Big n)) = canon (Big n)"
  by (simp add: text_of_def decimal_nat_text)

lemma canon_number: "decimal t = Some n \<Longrightarrow> canon (number t) = canon (Str t)"
  by (simp add: number_def)

section \<open>Queued and printed\<close>

text \<open>
  \<open>matches H r c\<close>: the request \<open>r\<close> queues what the printed command \<open>c\<close> executes.  \<open>paired\<close>: every
  transaction a script sends queues something, and the commands it has printed are, one for one and in
  order, those of the transactions that were accepted; whether it returns or throws.
\<close>

definition matches :: "'w hre \<Rightarrow> request \<Rightarrow> exec_command \<Rightarrow> bool" where
  "matches H r c \<longleftrightarrow> (\<exists>TIMELOCK data overrides args eta n.
     r = Send TIMELOCK queue_signature
       [Str (exec_target c), exec_value c, Str (exec_signature c), data, Str eta] overrides \<and>
     abi_encode H (exec_types c) args = Inr data \<and> map canon args = map canon (exec_args c) \<and>
     decimal eta = Some n \<and> canon (exec_eta c) = Num (int n))"

fun queues :: "request \<Rightarrow> bool" where
  "queues (Send _ f _ _) \<longleftrightarrow> f = queue_signature"
| "queues _ \<longleftrightarrow> False"

fun only_queues :: "request \<Rightarrow> bool" where
  "only_queues (Send _ f _ _) \<longleftrightarrow> f = queue_signature"
| "only_queues (UpgradeProxy _ _) \<longleftrightarrow> False"
| "only_queues (WriteFile _ _) \<longleftrightarrow> False"
| "only_queues _ \<longleftrightarrow> True"

definition accepted_queues :: "(request \<times> val result) list \<Rightarrow> request list" where
  "accepted_queues es = [r. (r, Inr v) \<leftarrow> es, queues r]"

definition paired :: "'w hre \<Rightarrow> ('w, 'a) script \<Rightarrow> bool" where
  "paired H m \<longleftrightarrow> (\<forall>s r t. m H s = (r, t) \<longrightarrow> (\<exists>es cs. steps H s es t \<and> printed t = printed s @ cs \<and>
     list_all2 (matches H) (accepted_queues es) cs \<and> (\<forall>(q, v) \<in> set es. only_queues q)))"

lemma accepted_queues_append: "accepted_queues (es @ fs) = accepted_queues es @ accepted_queues fs"
  by (simp add: accepted_queues_def)

named_theorems paired_intros \<open>scripts that print what they queue\<close>

lemma paired_bind [paired_intros]:
  assumes "paired H m" and "\<And>x. paired H (f x)"
  shows "paired H (bindS m f)"
  unfolding paired_def
proof (intro allI impI)
  fix s r t
  assume run: "bindS m f H s = (r, t)"
  obtain r1 u where m: "m H s = (r1, u)" by (cases "m H s")
  from assms(1) m obtain es cs where 1: "steps H s es u" "printed u = printed s @ cs"
    "list_all2 (matches H) (accepted_queues es) cs" "\<forall>(q, v) \<in> set es. only_queues q"
    unfolding paired_def by blast
  show "\<exists>es cs. steps H s es t \<and> printed t = printed s @ cs \<and>
      list_all2 (matches H) (accepted_queues es) cs \<and> (\<forall>(q, v) \<in> set es. only_queues q)"
  proof (cases r1)
    case (Inl e)
    then have "t = u" using run m by (simp add: bindS_def)
    with 1 show ?thesis by blast
  next
    case (Inr x)
    then have "f x H u = (r, t)" using run m by (simp add: bindS_def)
    with assms(2) obtain fs ds where 2: "steps H u fs t" "printed t = printed u @ ds"
      "list_all2 (matches H) (accepted_queues fs) ds" "\<forall>(q, v) \<in> set fs. only_queues q"
      unfolding paired_def by blast
    with 1 show ?thesis
      by (intro exI [of _ "es @ fs"] exI [of _ "cs @ ds"]) (auto simp: accepted_queues_append list_all2_appendI intro: steps_trans)
  qed
qed

lemma paired_then: "paired H m \<Longrightarrow> paired H k \<Longrightarrow> paired H (thenS m k)"
  by (simp add: thenS_def paired_bind)

lemma accepted_queues_Nil [simp]: "accepted_queues [] = []"
  by (simp add: accepted_queues_def)

lemma paired_silent: "(\<And>s. snd (m H s) = s) \<Longrightarrow> paired H m"
  unfolding paired_def by (intro allI impI exI [of _ "[]"]) (metis accepted_queues_Nil append_Nil2 empty_iff
      list.rel_inject(1) list.set(1) snd_conv steps_refl)

lemma paired_ret [paired_intros]: "paired H (retS x)"
  by (rule paired_silent) (simp add: retS_def)

lemma paired_forS [paired_intros]: "(\<And>x. paired H (f x)) \<Longrightarrow> paired H (forS f xs)"
  by (induction xs) (simp_all add: paired_ret paired_then)

lemma paired_result: "paired H (resultS f)"
  by (rule paired_silent) (simp add: resultS_def)

lemma paired_throw: "paired H (throwS e)"
  by (rule paired_silent) (simp add: throwS_def)

lemma paired_ask: "only_queues q \<Longrightarrow> \<not> queues q \<Longrightarrow> paired H (ask q)"
  unfolding paired_def
proof (intro allI impI)
  fix s r t
  assume "only_queues q" "\<not> queues q" "ask q H s = (r, t)"
  with ask_steps [OF this(3)] show "\<exists>es cs. steps H s es t \<and> printed t = printed s @ cs \<and>
      list_all2 (matches H) (accepted_queues es) cs \<and> (\<forall>(q, v) \<in> set es. only_queues q)"
    by (intro exI [of _ "[(q, r)]"] exI [of _ "[]"]) (simp add: accepted_queues_def split: sum.split)
qed

lemma paired_askUnit [paired_intros]: "only_queues q \<Longrightarrow> \<not> queues q \<Longrightarrow> paired H (askUnit q)"
  unfolding askUnit_def by (intro paired_bind paired_ret paired_ask)

lemma paired_askAddress [paired_intros]: "only_queues q \<Longrightarrow> \<not> queues q \<Longrightarrow> paired H (askAddress q)"
  unfolding askAddress_def by (intro paired_bind paired_ask) (auto intro: paired_ret paired_throw split: val.splits)

text \<open>A transaction queued and then printed.\<close>

lemma paired_queue [paired_intros]:
  assumes "map canon args' = map canon args" and "decimal eta = Some n"
  shows "paired H (thenS (queue TL target signature types args eta overrides)
    (printExec (command target signature types args' eta)))"
  unfolding paired_def
proof (intro allI impI)
  fix s r t
  assume run: "thenS (queue TL target signature types args eta overrides)
    (printExec (command target signature types args' eta)) H s = (r, t)"
  let ?goal = "\<exists>es cs. steps H s es t \<and> printed t = printed s @ cs \<and>
    list_all2 (matches H) (accepted_queues es) cs \<and> (\<forall>(q, v) \<in> set es. only_queues q)"
  show ?goal
  proof (cases "abi_encode H types args")
    case (Inl e)
    then have "t = s" using run by (simp add: thenS_def queue_def bindS_def resultS_def)
    then show ?goal by (intro exI [of _ "[]"]) simp
  next
    case (Inr data)
    let ?q = "Send TL queue_signature [Str target, Str ''0'', Str signature, data, Str eta] overrides"
    obtain v w where ans: "perform H ?q (world s) = (v, w)" by (cases "perform H ?q (world s)")
    show ?goal
    proof (cases v)
      case (Inl e)
      then have "t = s\<lparr>world := w, trace := trace s @ [(?q, v)]\<rparr>" using run Inr ans
        by (simp add: thenS_def queue_def bindS_def resultS_def askUnit_def ask_def)
      moreover have "steps H s [(?q, v)] t" using ans by (simp add: steps_def calculation)
      ultimately show ?goal using Inl by (intro exI [of _ "[(?q, v)]"]) (simp add: accepted_queues_def)
    next
      case v: (Inr x)
      then have "t = s\<lparr>world := w, trace := trace s @ [(?q, v)],
          printed := printed s @ [command target signature types args' eta]\<rparr>" using run Inr ans
        by (simp add: thenS_def queue_def bindS_def resultS_def askUnit_def ask_def retS_def printExec_def)
      moreover have "matches H ?q (command target signature types args' eta)"
        using assms Inr by (auto simp: matches_def command_def number_def)
      moreover have "steps H s [(?q, v)] t" using ans by (simp add: steps_def calculation(1))
      ultimately show ?goal using v by (intro exI [of _ "[(?q, v)]"]) (simp add: accepted_queues_def)
    qed
  qed
qed

lemma paired_newImplOf [paired_intros]: "paired H (newImplOf impl name proxy)"
  unfolding newImplOf_def by (auto intro!: paired_then paired_intros)

lemma paired_queue_upgrade [paired_intros]:
  "decimal eta = Some n \<Longrightarrow> paired H (queue_upgrade TL admin proxy impl eta overrides)"
  unfolding queue_upgrade_def by (rule paired_queue) simp_all

lemma paired_upgrade_vault_through:
  assumes "decimal eta = Some n" and "decimal pid = Some k"
  shows "paired H (upgrade_vault_through admin impl vault TL eta debtToken pid)"
  unfolding upgrade_vault_through_def using assms
  by (intro paired_bind paired_newImplOf paired_then [OF paired_queue_upgrade])
    (auto intro!: paired_queue paired_ret simp: canon_number)

lemma paired_queue_set_params:
  assumes "MIN_DEBT_SIZE p = Big n" and "0 \<le> n" and "decimal (PARAM_EXACT_ETA p) = Some k"
  shows "paired H (queue_set_params p)"
  unfolding queue_set_params_def using assms by (intro paired_queue) (simp_all add: canon_text_of)

lemma paired_ether:
  "(\<And>v. parseEther H e = Inr v \<Longrightarrow> paired H (f v)) \<Longrightarrow> paired H (bindS (ether e) f)"
proof (cases "parseEther H e")
  case (Inl x)
  show ?thesis by (rule paired_silent) (simp add: Inl ether_def resultS_def bindS_def)
next
  case (Inr v)
  have "bindS (ether e) f H = f v H" by (simp add: Inr ether_def resultS_def bindS_def fun_eq_iff)
  moreover assume "\<And>v. parseEther H e = Inr v \<Longrightarrow> paired H (f v)"
  ultimately show ?thesis using Inr by (simp add: paired_def)
qed

lemma etas:
  "decimal ''1615447380'' = Some 1615447380" "decimal ''1616574600'' = Some 1616574600"
  "decimal ''1615789200'' = Some 1615789200" "decimal ''1617926400'' = Some 1617926400"
  "decimal ''1622300700'' = Some 1622300700" "decimal ''1620561000'' = Some 1620561000"
  "decimal ''1620575100'' = Some 1620575100" "decimal ''1619265600'' = Some 1619265600"
  "decimal ''1619231400'' = Some 1619231400" "decimal ''1619676000'' = Some 1619676000"
  "decimal ''1617102000'' = Some 1617102000" "decimal ''7'' = Some 7"
  "decimal ''8600'' = Some 8600" "decimal ''9200'' = Some 9200" "decimal ''11000'' = Some 11000"
  by (simp_all add: decimal_def is_digit_def)

lemma paired_scripts:
  "paired H timelock_add_worker_strategy" "paired H upgrade_vault" "paired H timelock_change_admin_proxy"
  "paired H timelock_update_worker_params" "paired H timelock_change_strategies" "paired H upgrade_workers"
  "paired H timelock_migrate_lp" "paired H reset_approvals" "paired H (whitelist_workers table)"
  "paired H deploy_shield"
  subgoal unfolding timelock_add_worker_strategy_def Let_def by (rule paired_queue [OF refl etas(1)])
  subgoal unfolding upgrade_vault_def by (rule paired_upgrade_vault_through [OF etas(2) etas(12)])
  subgoal unfolding timelock_change_admin_proxy_def Let_def by (rule paired_forS, rule paired_queue [OF refl etas(3)])
  subgoal unfolding timelock_update_worker_params_def Let_def forS.simps
    by (intro paired_then paired_ret paired_queue [OF _ etas(5)]) (simp add: worker_config_obj_def number_def etas)
  subgoal unfolding timelock_change_strategies_def Let_def change_strategies_def
    by (intro paired_forS paired_then paired_queue [OF refl etas(6)]) (simp add: paired_ret)
  subgoal unfolding upgrade_workers_def upgrade_workers_through_def Let_def
    by (intro paired_bind paired_newImplOf paired_forS paired_queue_upgrade [OF etas(7)])
  subgoal unfolding timelock_migrate_lp_def Let_def by (rule paired_forS, rule paired_queue [OF refl etas(8)])
  subgoal unfolding reset_approvals_def Let_def case_prod_beta
    by (rule paired_forS, rule paired_forS, rule paired_queue [OF refl etas(9)])
  subgoal unfolding whitelist_workers_def queue_whitelist_def by (rule paired_forS, rule paired_queue [OF refl etas(10)])
  subgoal unfolding deploy_shield_def Let_def
    by (intro paired_bind paired_askAddress paired_queue [OF refl etas(11)]) simp_all
  done

lemma paired_vault_params:
  assumes "0 \<le> n"
  shows "paired H (queue_set_params (vault_params_of c (Big n)))"
  using assms
  by (intro paired_queue_set_params [where n = n and k = 1617926400]) (simp_all add: vault_params_of_def etas)

text \<open>\<open>parseEther\<close> of the two amounts of \<open>s010\<close>, where it returns.\<close>

definition amounts_ok :: "'w hre \<Rightarrow> bool" where
  "amounts_ok H \<longleftrightarrow> (\<forall>e v. e \<in> {''2'', ''400''} \<longrightarrow> parseEther H e = Inr v \<longrightarrow> (\<exists>n. v = Big n \<and> 0 \<le> n))"

lemma paired_set_params:
  assumes "amounts_ok H"
  shows "paired H timelock_set_param_vault_config"
  unfolding timelock_set_param_vault_config_def
proof (rule paired_ether, rule paired_ether)
  fix bnb busd
  assume "parseEther H ''2'' = Inr bnb" "parseEther H ''400'' = Inr busd"
  then obtain n k where
    "bnb = Big n" "0 \<le> n" "busd = Big k" "0 \<le> k"
    using assms unfolding amounts_ok_def by (metis insertCI)
  then have "paired H (queue_set_params (vault_params_of c bnb))" "paired H (queue_set_params (vault_params_of c busd))" for c
    by (auto intro: paired_vault_params)
  then show "paired H (forS queue_set_params
      [vault_params_of ''0x53dbb71303ad0F9AFa184B8f7147F9f12Bb5Dc01'' bnb,
       vault_params_of ''0xd7b805E88c5F52EDE71a9b93F7048c8d632DBEd4'' busd])"
    unfolding forS.simps by (intro paired_then paired_ret)
qed

text \<open>The scripts of the repository that go through the timelock; the table of \<open>s020\<close> may be any.\<close>

definition timelock_scripts :: "whitelisted_strat_workers list \<Rightarrow> ('w, unit) script list" where
  "timelock_scripts table =
     [timelock_add_worker_strategy, upgrade_vault, timelock_change_admin_proxy, timelock_set_param_vault_config,
      timelock_update_worker_params, timelock_change_strategies, upgrade_workers, timelock_migrate_lp,
      reset_approvals, whitelist_workers table, deploy_shield]"

lemma paired_timelock_scripts:
  assumes "amounts_ok H"
    and "m \<in> set (timelock_scripts table)"
  shows "paired H m"
  using assms(2) unfolding timelock_scripts_def by (auto intro!: paired_scripts paired_set_params assms(1))

text \<open>
  C36: The operator executes what was queued: in every run of a timelock script, also one that a failing
  call stops, the commands printed are, one for one and in order, the transactions the timelock
  accepted: same target, value, signature and types, arguments and \<open>eta\<close> with the same value.  The scripts
  send nothing but \<open>queueTransaction\<close>, write no file and upgrade no proxy.  The hypothesis is what \<open>parseEther\<close>
  returns for the two amounts of \<open>s010\<close>.
\<close>

theorem printed_commands_match:
  assumes "amounts_ok H"
    and "m \<in> set (timelock_scripts table)" and "m H s = (r, t)"
  shows "\<exists>es cs. steps H s es t \<and> printed t = printed s @ cs \<and>
    list_all2 (matches H) (accepted_queues es) cs \<and> (\<forall>(q, v) \<in> set es. only_queues q)"
  using paired_timelock_scripts [OF assms(1,2)] assms(3) unfolding paired_def by blast

lemma sample_amounts: "amounts_ok sample_hre"
  by (auto simp: amounts_ok_def sample_hre_def)

theorem printed_commands_match_witness:
  "\<exists>es cs. steps sample_hre sample_js es (snd (upgrade_vault sample_hre sample_js)) \<and>
    printed (snd (upgrade_vault sample_hre sample_js)) = printed sample_js @ cs \<and>
    list_all2 (matches sample_hre) (accepted_queues es) cs \<and> (\<forall>(q, v) \<in> set es. only_queues q)"
  by (rule printed_commands_match [where table = "[]" and m = upgrade_vault and r = "fst (upgrade_vault sample_hre sample_js)"])
    (auto intro: sample_amounts simp: timelock_scripts_def)

end
