(* ===== verification/Timelock_Links.thy ===== *)
theory Timelock_Links
  imports Timelock_Contract Timelock_Scripts
begin

text \<open>
  The timelock scripts against the timelock: what a script submits and prints, and the contract of
  \<open>Timelock_Contract\<close> when the submissions are mined.  Nothing is assumed of when that is: ethers returns
  once a transaction is submitted, so the theorem speaks of the state of the timelock then, whatever it is.
\<close>

section \<open>The transaction of a printed command\<close>

definition command_tx :: "'w hre \<Rightarrow> (val \<Rightarrow> bytes) \<Rightarrow> exec_command \<Rightarrow> tl_tx" where
  "command_tx H bytes c =
     (exec_target c, numeric (exec_value c), exec_signature c,
      (case abi_encode H (exec_types c) (exec_args c) of Inr d \<Rightarrow> bytes d | Inl _ \<Rightarrow> []), numeric (exec_eta c))"

text \<open>The encoder takes numbers and decimal texts alike.\<close>

definition encodes_values :: "'w hre \<Rightarrow> bool" where
  "encodes_values H \<longleftrightarrow> (\<forall>types vs us. map canon vs = map canon us \<longrightarrow> abi_encode H types vs = abi_encode H types us)"

definition stands_queued :: "'x tl_ext \<Rightarrow> timelock \<Rightarrow> tl_tx \<Rightarrow> bool" where
  "stands_queued X s tx \<longleftrightarrow> queuedTransactions s (tl_hash X tx)"

lemma queueTransaction_stands:
  "queueTransaction X m tx s = Inr s' \<Longrightarrow> stands_queued X s' tx \<and> (\<forall>u. stands_queued X s u \<longrightarrow> stands_queued X s' u)"
  by (auto simp: queueTransaction_def stands_queued_def setQueued_def)

lemma numeric_canon: "canon v = canon u \<Longrightarrow> numeric v = numeric u"
  by (simp add: numeric_def)

lemma matches_tx:
  assumes "encodes_values H" and "matches H q c"
  obtains TL target amt sg data eta overrides where
    "q = Send TL queue_signature [Str target, amt, Str sg, data, eta] overrides"
    "command_tx H bytes c = (target, numeric amt, sg, bytes data, numeric eta)"
proof -
  from assms(2) obtain TL data overrides args eta n where
    q: "q = Send TL queue_signature [Str (exec_target c), exec_value c, Str (exec_signature c), data, Str eta] overrides"
    and enc: "abi_encode H (exec_types c) args = Inr data" "map canon args = map canon (exec_args c)"
    and eta: "decimal eta = Some n" "canon (exec_eta c) = Num (int n)"
    unfolding matches_def by blast
  have "abi_encode H (exec_types c) (exec_args c) = Inr data"
    using assms(1) enc unfolding encodes_values_def by metis
  moreover have "numeric (exec_eta c) = numeric (Str eta)" using eta by (intro numeric_canon) simp
  ultimately have "command_tx H bytes c = (exec_target c, numeric (exec_value c), exec_signature c, bytes data, numeric (Str eta))"
    by (simp add: command_tx_def)
  then show ?thesis using q that by blast
qed

text \<open>A submitted request, as the contract reads it.\<close>

definition submits :: "(val \<Rightarrow> bytes) \<Rightarrow> request \<Rightarrow> tl_tx \<Rightarrow> bool" where
  "submits bytes q tx \<longleftrightarrow> (\<exists>TL target amt sg data eta overrides.
     q = Send TL queue_signature [Str target, amt, Str sg, data, eta] overrides \<and>
     tx = (target, numeric amt, sg, bytes data, numeric eta))"

section \<open>The printed commands execute\<close>

text \<open>
  \<open>executes_later X s tx\<close>: whatever calls the timelock \<open>s\<close> serves, as long as they do not cancel or execute a
  transaction with the hash of \<open>tx\<close>, the administrator's execution of \<open>tx\<close> from \<open>eta\<close> to the end of the grace
  period succeeds exactly when the call it makes passes.
\<close>

definition executes_later :: "'x tl_ext \<Rightarrow> timelock \<Rightarrow> tl_tx \<Rightarrow> bool" where
  "executes_later X s tx \<longleftrightarrow> (\<forall>calls x log s' x' msg. tl_history X calls (s, x) = (log, s', x') \<longrightarrow>
     (\<forall>e \<in> set log. tl_hash X (ev_tx e) = tl_hash X tx \<longrightarrow> is_queued e) \<longrightarrow>
     sender msg = admin s' \<longrightarrow> tx_eta tx \<le> block_timestamp msg \<longrightarrow>
     block_timestamp msg \<le> tx_eta tx + GRACE_PERIOD \<longrightarrow>
     ((\<exists>ret log' st. executeTransaction X msg tx (s', x') = Inr (ret, log', st)) \<longleftrightarrow> call_passes X tx x'))"

lemma queued_executes_later:
  assumes M: "safe_math_ok (tl_math X)" and "stands_queued X s tx" and bound: "tx_eta tx + GRACE_PERIOD \<le> uint_max"
  shows "executes_later X s tx"
  unfolding executes_later_def
proof (intro allI impI)
  fix calls x log s' x' and msg :: msg
  assume h: "tl_history X calls (s, x) = (log, s', x')"
    and u: "\<forall>e \<in> set log. tl_hash X (ev_tx e) = tl_hash X tx \<longrightarrow> is_queued e"
    and rest: "sender msg = admin s'" "tx_eta tx \<le> block_timestamp msg"
      "block_timestamp msg \<le> tx_eta tx + GRACE_PERIOD"
  have "queuedTransactions s' (tl_hash X tx)"
    using tl_history_refines [OF M h] assms(2) u by (simp add: refines_def stands stands_queued_def)
  from executes_queued [OF M this rest(2,3) bound rest(1)]
  show "(\<exists>ret log' st. executeTransaction X msg tx (s', x') = Inr (ret, log', st)) \<longleftrightarrow> call_passes X tx x'" .
qed

text \<open>A submission that is mined is accepted from the administrator, the delay ahead of \<open>eta\<close>, and only then.\<close>

lemma mined_queue:
  assumes M: "safe_math_ok (tl_math X)" and bound: "tx_eta tx + GRACE_PERIOD \<le> uint_max"
  shows "(\<exists>r. tl_exec X msg (QueueTransaction tx) (T, x) = Inr r) \<longleftrightarrow>
      sender msg = admin T \<and> block_timestamp msg + delay T \<le> tx_eta tx"
    and "tl_exec X msg (QueueTransaction tx) (T, x) = Inr (log, T', x') \<Longrightarrow> executes_later X T' tx"
proof -
  show "(\<exists>r. tl_exec X msg (QueueTransaction tx) (T, x) = Inr r) \<longleftrightarrow>
      sender msg = admin T \<and> block_timestamp msg + delay T \<le> tx_eta tx"
    using bound by (auto simp: queueTransaction_def bindE_eq_Inr safe_math_iff [OF M])
  assume "tl_exec X msg (QueueTransaction tx) (T, x) = Inr (log, T', x')"
  then have "queueTransaction X msg tx T = Inr T'" by auto
  then show "executes_later X T' tx" using queueTransaction_stands queued_executes_later [OF M _ bound] by blast
qed

text \<open>
  C6: What a script prints can be executed once what it submitted is mined.  In every run of a timelock
  script, failing ones included, the accepted submissions are, one for one and in order, the transactions of
  the commands it printed.  When such a submission is mined, in whatever state the timelock then is, the
  contract takes it exactly if the sender is the administrator and \<open>eta\<close> is at least the delay ahead; and
  after that, with any calls of the timelock in between that do not cancel or execute a transaction of
  the same hash, the administrator's execution of the printed command, at any time from \<open>eta\<close> to fourteen
  days later, succeeds exactly when the call it makes passes: it succeeds, and what it returns does not
  make the timelock revert.  The hypotheses on the runtime are that the encoder takes numbers and decimal texts
  alike, and what \<open>parseEther\<close> returns for the two amounts of \<open>s010\<close>.
\<close>

theorem printed_commands_execute:
  assumes E: "encodes_values H" and M: "safe_math_ok (tl_math X)" and amounts: "amounts_ok H"
    and script: "m \<in> set (timelock_scripts table)" and run: "m H s = (r, t)" and printed: "printed t = printed s @ cs"
  shows "\<exists>es. steps H s es t \<and>
    list_all2 (\<lambda>q c. submits bytes q (command_tx H bytes c) \<and>
      (tx_eta (command_tx H bytes c) + GRACE_PERIOD \<le> uint_max \<longrightarrow>
       (\<forall>T x msg.
         ((\<exists>mined. tl_exec X msg (QueueTransaction (command_tx H bytes c)) (T, x) = Inr mined) \<longleftrightarrow>
            sender msg = admin T \<and> block_timestamp msg + delay T \<le> tx_eta (command_tx H bytes c)) \<and>
         (\<forall>log T' x'. tl_exec X msg (QueueTransaction (command_tx H bytes c)) (T, x) = Inr (log, T', x') \<longrightarrow>
            executes_later X T' (command_tx H bytes c)))))
      (accepted_queues es) cs"
proof -
  obtain es ds where es: "steps H s es t" "printed t = printed s @ ds" "list_all2 (matches H) (accepted_queues es) ds"
    using paired_timelock_scripts [OF amounts script] run unfolding paired_def by blast
  have "submits bytes q (command_tx H bytes c)" if "matches H q c" for q c
    by (rule matches_tx [OF E that, where bytes = bytes]) (auto simp: submits_def)
  moreover have "ds = cs" using es(2) printed by simp
  ultimately show ?thesis
    using es(1,3) mined_queue [OF M] by (intro exI [of _ es] conjI) (auto elim!: list_all2_mono)
qed

section \<open>A concrete run\<close>

text \<open>The world of \<open>Runtime\<close> with an encoder that looks at values; the data of a transaction is not looked at.\<close>

definition linked_hre :: "nat hre" where
  "linked_hre = sample_hre\<lparr>abi_encode := (\<lambda>_ vs. Inr (Arr (map canon vs)))\<rparr>"

lemma linked_encodes: "encodes_values linked_hre"
  by (simp add: encodes_values_def linked_hre_def)

lemma linked_amounts: "amounts_ok linked_hre"
  by (auto simp: amounts_ok_def linked_hre_def sample_hre_def)

definition linked_command :: exec_command where
  "linked_command = command ''0xF3ECC0e5c238C7082fC59e682104DEA2f49A3787'' ''setStrategyOk(address[],bool)''
     [''address[]'', ''bool''] [Arr [Str ''0xA4047bdA5288BC718E4a3De68781dA4D7e801e82''], Bool True] ''1615447380''"

lemma linked_run: "printed (snd (timelock_add_worker_strategy linked_hre sample_js)) = printed sample_js @ [linked_command]"
  by (simp add: timelock_add_worker_strategy_def sample_js_def linked_hre_def sample_hre_def sample_perform_def Let_def
      thenS_def queue_def bindS_def resultS_def askUnit_def ask_def retS_def printExec_def linked_command_def numeric_def etas)

text \<open>Mined at time 1000, the command of \<open>s001\<close> is executed at its \<open>eta\<close>.\<close>

theorem printed_commands_execute_witness:
  "\<exists>es q. steps linked_hre sample_js es (snd (timelock_add_worker_strategy linked_hre sample_js)) \<and>
     accepted_queues es = [q] \<and> submits (\<lambda>_. [7]) q (command_tx linked_hre (\<lambda>_. [7]) linked_command) \<and>
     (\<exists>log T' ret log' st.
        tl_exec sample_tl_ext (at_time 1000) (QueueTransaction (command_tx linked_hre (\<lambda>_. [7]) linked_command))
          (sample_timelock, ()) = Inr (log, T', ()) \<and>
        executeTransaction sample_tl_ext (at_time 1615447380) (command_tx linked_hre (\<lambda>_. [7]) linked_command)
          (T', ()) = Inr (ret, log', st))"
proof -
  let ?t = "snd (timelock_add_worker_strategy linked_hre sample_js)"
  let ?tx = "command_tx linked_hre (\<lambda>_. [7]) linked_command"
  have eta: "tx_eta ?tx = 1615447380"
    by (simp add: command_tx_def linked_command_def command_def numeric_def number_def etas tx_eta_def)
  have bound: "tx_eta ?tx + GRACE_PERIOD \<le> uint_max" by (simp add: eta GRACE_PERIOD_def uint_max_def)
  have passes: "call_passes sample_tl_ext ?tx ()"
    by (simp add: command_tx_def call_passes_def sample_tl_ext_def getRevertMsg_def)
  obtain es q where es: "steps linked_hre sample_js es ?t" "accepted_queues es = [q]"
      "submits (\<lambda>_. [7]) q ?tx"
    and mined: "\<And>T msg. ((\<exists>mined. tl_exec sample_tl_ext msg (QueueTransaction ?tx) (T, ()) = Inr mined) \<longleftrightarrow>
        sender msg = admin T \<and> block_timestamp msg + delay T \<le> tx_eta ?tx)"
    and later: "\<And>T msg log T'. tl_exec sample_tl_ext msg (QueueTransaction ?tx) (T, ()) = Inr (log, T', ()) \<Longrightarrow>
        executes_later sample_tl_ext T' ?tx"
    using printed_commands_execute [OF linked_encodes sample_tl_math linked_amounts, where
        m = timelock_add_worker_strategy and table = "[]" and s = sample_js and t = ?t
        and cs = "[linked_command]" and r = "fst (timelock_add_worker_strategy linked_hre sample_js)" and bytes = "\<lambda>_. [7]"]
      bound
    by (auto simp: timelock_scripts_def linked_run list_all2_Cons2)
  obtain log T' where T': "tl_exec sample_tl_ext (at_time 1000) (QueueTransaction ?tx) (sample_timelock, ()) = Inr (log, T', ())"
    using mined [of "at_time 1000" sample_timelock] by (auto simp: eta at_time_def sample_timelock_def)
  have "admin T' = ''admin''" using T' by (auto simp: queueTransaction_def sample_timelock_def bindE_eq_Inr)
  then have "\<exists>ret log' st. executeTransaction sample_tl_ext (at_time 1615447380) ?tx (T', ()) = Inr (ret, log', st)"
    using later [OF T', unfolded executes_later_def, rule_format, of "[]" "()" "[]" T' "()" "at_time 1615447380"] passes
    by (simp add: eta at_time_def)
  then show ?thesis using es T' by blast
qed

end
