(* ===== verification/Timelock_Types.thy ===== *)
theory Timelock_Types
  imports Timelock_Scripts
begin

text \<open>
  The calls the timelock scripts queue are well typed: the list of types handed to the encoder is the
  parameter list of the signature, up to the names of tuple members, and every argument fits its type.
  The types are read from the texts of the code.
\<close>

section \<open>Types\<close>

text \<open>
  \<open>parts depth cur s\<close>: the pieces of \<open>s\<close> between its commas outside parentheses.
\<close>

fun parts :: "nat \<Rightarrow> string \<Rightarrow> string \<Rightarrow> string list" where
  "parts d cur [] = (if cur = [] then [] else [cur])"
| "parts d cur (ch # s) =
     (if ch = CHR '','' \<and> d = 0 then cur # parts d [] s
      else if ch = CHR ''('' then parts (Suc d) (cur @ [ch]) s
      else if ch = CHR '')'' then parts (d - 1) (cur @ [ch]) s
      else parts d (cur @ [ch]) s)"

text \<open>\<open>f(t1,\<dots>,tn)\<close>: the parameter types of a signature, and of a tuple type.\<close>

definition parameters :: "string \<Rightarrow> string list" where
  "parameters sg = parts 0 [] (butlast (tl (dropWhile (\<lambda>ch. ch \<noteq> CHR ''('') sg)))"

text \<open>A type of the encoder without the names of tuple members: blanks up to the next delimiter go.\<close>

fun unnamed :: "bool \<Rightarrow> string \<Rightarrow> string" where
  "unnamed skip [] = []"
| "unnamed skip (ch # s) =
     (if ch \<in> {CHR '','', CHR '')''} then ch # unnamed False s
      else if skip \<or> ch = CHR '' '' then unnamed True s else ch # unnamed False s)"

definition is_hex :: "char \<Rightarrow> bool" where
  "is_hex ch \<longleftrightarrow> ch \<in> set ''0123456789abcdefABCDEF''"

definition is_address :: "string \<Rightarrow> bool" where
  "is_address a \<longleftrightarrow> length a = 42 \<and> take 2 a = ''0x'' \<and> list_all is_hex (drop 2 a)"

definition in_width :: "nat \<Rightarrow> val \<Rightarrow> bool" where
  "in_width n v = (case canon v of Num k \<Rightarrow> 0 \<le> k \<and> k < 2 ^ n | _ \<Rightarrow> False)"

text \<open>\<open>fits n ty v\<close>: the value has the type, tuples and arrays nested at most \<open>n\<close> deep.\<close>

fun fits :: "nat \<Rightarrow> string \<Rightarrow> val \<Rightarrow> bool" where
  "fits 0 ty v \<longleftrightarrow> False"
| "fits (Suc n) ty v \<longleftrightarrow>
     (if drop (length ty - 2) ty = ''[]'' then
        (case v of Arr vs \<Rightarrow> list_all (fits n (take (length ty - 2) ty)) vs | _ \<Rightarrow> False)
      else if ty \<noteq> [] \<and> hd ty = CHR ''('' then
        (case v of Obj fs \<Rightarrow> list_all2 (\<lambda>t (k, x). fits n t x) (parameters ty) fs | _ \<Rightarrow> False)
      else if ty = ''address'' then (case v of Str a \<Rightarrow> is_address a | _ \<Rightarrow> False)
      else if ty = ''bool'' then (case v of Bool b \<Rightarrow> True | _ \<Rightarrow> False)
      else if ty = ''uint256'' then in_width 256 v
      else if ty = ''uint64'' then in_width 64 v
      else False)"

definition nesting :: nat where "nesting = Suc (Suc (Suc (Suc 0)))"

definition well_typed :: "exec_command \<Rightarrow> bool" where
  "well_typed c \<longleftrightarrow> is_address (exec_target c) \<and> in_width 256 (exec_value c) \<and> in_width 256 (exec_eta c) \<and>
     map (unnamed False) (exec_types c) = parameters (exec_signature c) \<and>
     list_all2 (fits nesting) (parameters (exec_signature c)) (exec_args c)"


lemma fits_type:
  "fits (Suc n) ''address'' v = (case v of Str a \<Rightarrow> is_address a | _ \<Rightarrow> False)"
  "fits (Suc n) ''bool'' v = (case v of Bool b \<Rightarrow> True | _ \<Rightarrow> False)"
  "fits (Suc n) ''uint256'' v = in_width 256 v"
  "fits (Suc n) ''uint64'' v = in_width 64 v"
  "fits (Suc n) ''address[]'' v = (case v of Arr vs \<Rightarrow> list_all (fits n ''address'') vs | _ \<Rightarrow> False)"
  "fits (Suc n) ''(bool,uint64,uint64,uint64)[]'' v =
     (case v of Arr vs \<Rightarrow> list_all (fits n ''(bool,uint64,uint64,uint64)'') vs | _ \<Rightarrow> False)"
  "fits (Suc n) ''(bool,uint64,uint64,uint64)'' v =
     (case v of Obj fs \<Rightarrow> list_all2 (\<lambda>t (k, x). fits n t x) [''bool'', ''uint64'', ''uint64'', ''uint64''] fs | _ \<Rightarrow> False)"
  by (cases v; simp add: parameters_def)+

lemma signatures:
  "parameters ''setStrategyOk(address[],bool)'' = [''address[]'', ''bool'']"
  "parameters ''setWorkersOk(address[],bool)'' = [''address[]'', ''bool'']"
  "parameters ''setCriticalStrategies(address,address)'' = [''address'', ''address'']"
  "parameters ''upgrade(address,address)'' = [''address'', ''address'']"
  "parameters ''updateDebtToken(address,uint256)'' = [''address'', ''uint256'']"
  "parameters ''changeAdmin(address)'' = [''address'']"
  "parameters ''setParams(uint256,uint256,uint256,address,address,address,address)'' =
     [''uint256'', ''uint256'', ''uint256'', ''address'', ''address'', ''address'', ''address'']"
  "parameters ''setConfigs(address[],(bool,uint64,uint64,uint64)[])'' = [''address[]'', ''(bool,uint64,uint64,uint64)[]'']"
  "parameters ''migrateLP(address,uint256,address,address,address,address[],address[])'' =
     [''address'', ''uint256'', ''address'', ''address'', ''address'', ''address[]'', ''address[]'']"
  "parameters ''resetApproval(address,address)'' = [''address'', ''address'']"
  "parameters ''transferOwnership(address)'' = [''address'']"
  by (simp_all add: parameters_def)

lemma unnamed_types:
  "unnamed False ''address'' = ''address''" "unnamed False ''bool'' = ''bool''" "unnamed False ''uint256'' = ''uint256''"
  "unnamed False ''address[]'' = ''address[]''"
  "unnamed False ''(bool acceptDebt,uint64 workFactor,uint64 killFactor,uint64 maxPriceDiff)[]'' =
     ''(bool,uint64,uint64,uint64)[]''"
  by simp_all

lemma in_width_number: "decimal t = Some k \<Longrightarrow> k < 2 ^ n \<Longrightarrow> in_width n (number t)" "decimal t = Some k \<Longrightarrow> k < 2 ^ n \<Longrightarrow> in_width n (Str t)"
proof -
  assume "decimal t = Some k" "k < 2 ^ n"
  moreover from this(2) have "int k < 2 ^ n" by (metis of_nat_less_iff of_nat_numeral of_nat_power)
  ultimately show "in_width n (number t)" "in_width n (Str t)" by (simp_all add: in_width_def number_def)
qed

lemmas typing = well_typed_def command_def signatures unnamed_types nesting_def fits_type

declare fits.simps [simp del] unnamed.simps [simp del]

lemma widths:
  "in_width 256 (Str ''0'')" "in_width 256 (number ''1615447380'')" "in_width 256 (number ''1616574600'')"
  "in_width 256 (number ''1615789200'')" "in_width 256 (number ''1617926400'')" "in_width 256 (number ''1622300700'')"
  "in_width 256 (number ''1620561000'')" "in_width 256 (number ''1620575100'')" "in_width 256 (number ''1619265600'')"
  "in_width 256 (number ''1619231400'')" "in_width 256 (number ''1619676000'')" "in_width 256 (number ''1617102000'')"
  "in_width 256 (number ''7'')" "in_width 64 (number ''8600'')" "in_width 64 (number ''9200'')"
  "in_width 64 (number ''11000'')" "in_width 256 (Str ''1000'')" "in_width 256 (Str ''500'')"
  "in_width 256 (Str ''300'')" "in_width 256 (Str ''306'')"
  by (simp_all add: in_width_def etas number_def decimal_def is_digit_def)

text \<open>The tables of the scripts hold addresses.\<close>

lemma reset_table:
  "list_all (\<lambda>r. is_address (RESET_WORKER_ADDR r) \<and>
     list_all (\<lambda>p. is_address (fst p) \<and> is_address (snd p)) (RESET_APPROVED r)) (reset_approved_1 @ reset_approved_2)"
  by code_simp

lemma upgrade_table: "list_all is_address TO_BE_UPGRADE_WORKERS"
  by code_simp

lemma proxy_table: "list_all is_address PROXY_ADDRESSES"
  by code_simp

lemma migration_table:
  "list_all (\<lambda>m. list_all is_address (MIGRATE_WORKER_ADDR m # ROUTER_V2 m # TWOSIDE_OPTIMAL_MIGRATION_STRAT_ADDR m #
     MIGRATE_ADD_STRAT m # MIGRATE_LIQ_STRAT m # OK_STRATS m @ DISABLE_STRATS m) \<and>
     (NEW_POOL_ID m = ''300'' \<or> NEW_POOL_ID m = ''306'')) MIGRATIONS"
  by code_simp

section \<open>Scripts that print well-typed commands\<close>

definition prints :: "'w hre \<Rightarrow> (exec_command \<Rightarrow> bool) \<Rightarrow> ('w, 'a) script \<Rightarrow> bool" where
  "prints H P m \<longleftrightarrow> (\<forall>s r t. m H s = (r, t) \<longrightarrow> (\<exists>cs. printed t = printed s @ cs \<and> list_all P cs))"

lemma prints_bind:
  assumes "prints H P m" and "\<And>s x t. m H s = (Inr x, t) \<Longrightarrow> prints H P (f x)"
  shows "prints H P (bindS m f)"
  unfolding prints_def
proof (intro allI impI)
  fix s r t
  assume run: "bindS m f H s = (r, t)"
  obtain r1 u where m: "m H s = (r1, u)" by (cases "m H s")
  from assms(1) m obtain cs where cs: "printed u = printed s @ cs" "list_all P cs" unfolding prints_def by blast
  show "\<exists>cs. printed t = printed s @ cs \<and> list_all P cs"
  proof (cases r1)
    case (Inl e)
    then show ?thesis using run m cs by (auto simp: bindS_def)
  next
    case (Inr x)
    then have "f x H u = (r, t)" using run m by (simp add: bindS_def)
    with assms(2) m Inr obtain ds where "printed t = printed u @ ds" "list_all P ds" unfolding prints_def by blast
    with cs show ?thesis by (intro exI [of _ "cs @ ds"]) simp
  qed
qed

lemma prints_then: "prints H P m \<Longrightarrow> prints H P k \<Longrightarrow> prints H P (thenS m k)"
  by (simp add: thenS_def prints_bind)

lemma prints_silent: "(\<And>s. printed (snd (m H s)) = printed s) \<Longrightarrow> prints H P m"
  unfolding prints_def by (intro allI impI exI [of _ "[]"]) (metis append_Nil2 list.pred_inject(1) snd_conv)

lemma prints_ret: "prints H P (retS x)"
  by (rule prints_silent) (simp add: retS_def)

lemma prints_forS: "(\<And>x. x \<in> set xs \<Longrightarrow> prints H P (f x)) \<Longrightarrow> prints H P (forS f xs)"
  by (induction xs) (simp_all add: prints_ret prints_then)

lemma prints_ask: "prints H P (ask q)"
  by (rule prints_silent) (simp add: ask_def split: prod.split)

lemma prints_askUnit: "prints H P (askUnit q)"
  unfolding askUnit_def by (intro prints_bind prints_ask prints_ret)

lemma prints_askAddress: "prints H P (askAddress q)"
  by (rule prints_silent) (auto simp: askAddress_def bindS_def ask_def retS_def throwS_def split: prod.splits sum.splits val.splits)

lemma prints_result: "prints H P (resultS f)"
  by (rule prints_silent) (simp add: resultS_def)

lemma prints_queue: "P c \<Longrightarrow> prints H P (thenS (queue TL target sg types args eta os) (printExec c))"
  unfolding queue_def by (intro prints_then prints_bind prints_result prints_askUnit) (simp add: prints_def printExec_def)

text \<open>What deployed contracts and amounts have to be: an address, and an integer of 256 bits.\<close>

definition deploys_addresses :: "'w hre \<Rightarrow> bool" where
  "deploys_addresses H \<longleftrightarrow> (\<forall>n vs w a. fst (perform H (DeployContract n vs) w) = Inr (Str a) \<longrightarrow> is_address a)"

definition amounts_fit :: "'w hre \<Rightarrow> bool" where
  "amounts_fit H \<longleftrightarrow> (\<forall>e v. e \<in> {''2'', ''400''} \<longrightarrow> parseEther H e = Inr v \<longrightarrow> (\<exists>n. v = Big n \<and> 0 \<le> n \<and> n < 2 ^ 256))"

lemma address_literals:
  "is_address ''0xF3ECC0e5c238C7082fC59e682104DEA2f49A3787''"
  "is_address ''0xA4047bdA5288BC718E4a3De68781dA4D7e801e82''"
  "is_address ''0x771F70042ebb6d2Cfc29b7BF9f3caf9F959385B8''"
  "is_address ''0x5379F32C8D5F663EACb61eeF63F722950294f452''"
  "is_address ''0x7EEAA96bf1aBaA206615046c0991E678a2b12Da1''"
  "is_address ''0x7C9e73d4C71dae564d41F78d56439bB4ba87592f''"
  "is_address ''0x2D5408f2287BF9F9B05404794459a846651D0a59''"
  "is_address ''0x02dA7035beD00ae645516bDb0c282A7fD4AA7442''"
  "is_address ''0x375D32FadA30d7e6Fea242FCa221a22CC6d52B30''"
  "is_address ''0xbb4CdB9CBd36B01bD1cBaEBF2De08d9173bc095c''"
  "is_address ''0xE1D2CA01bc88F325fF7266DD2165944f3CAf0D3D''"
  "is_address ''0xA625AB01B08ce023B2a342Dbb12a16f2C8489A8F''"
  "is_address ''0x53dbb71303ad0F9AFa184B8f7147F9f12Bb5Dc01''"
  "is_address ''0xd7b805E88c5F52EDE71a9b93F7048c8d632DBEd4''"
  "is_address ''0xADaBC5FC5da42c85A84e66096460C769a151A8F8''"
  "is_address ''0xC5954CA8988988362f60498d5aDEc67BA466492B''"
  "is_address ''0xd80783De91fbEd9F7995A97D4C02917295F86F68''"
  "is_address ''0xE38EBFE8F314dcaD61d5aDCB29c1A26F41BEd0Be''"
  "is_address ''0xE574dc08aa579720Dfacd70D3DAE883d29874599''"
  "is_address ''0x95Ff1336985723aa46078995454d7A7Fd9F5401e''"
  "is_address ''0xeF1C5D2c20b22Ae50437a2F3bd258Ab1117D1BaD''"
  "is_address ''0xcac73A0f24968e201c2cc326edbC92A87666b430''"
  by code_simp+

lemmas typed_simps = typing widths address_literals

lemma typed_timelock_scripts:
  "prints H well_typed timelock_add_worker_strategy" "prints H well_typed timelock_change_admin_proxy"
  "prints H well_typed timelock_update_worker_params" "prints H well_typed timelock_change_strategies"
  "prints H well_typed upgrade_workers" "prints H well_typed timelock_migrate_lp" "prints H well_typed reset_approvals"
  "prints H well_typed timelock_whitelist_workers" "prints H well_typed upgrade_vault"
  subgoal unfolding timelock_add_worker_strategy_def Let_def
    by (rule prints_queue) (simp add: typed_simps)
  subgoal unfolding timelock_change_admin_proxy_def Let_def
    by (intro prints_forS prints_queue) (use proxy_table in \<open>simp add: typed_simps list_all_iff\<close>)
  subgoal unfolding timelock_update_worker_params_def Let_def
    by (intro prints_forS prints_queue) (simp add: typed_simps worker_config_obj_def)
  subgoal unfolding timelock_change_strategies_def Let_def change_strategies_def
    by (intro prints_forS prints_then [OF _ prints_queue]) (simp_all add: prints_ret typed_simps)
  subgoal unfolding upgrade_workers_def upgrade_workers_through_def Let_def newImplOf_def queue_upgrade_def
    by (intro prints_bind prints_forS prints_queue)
      (use upgrade_table in \<open>auto simp: typed_simps list_all_iff prints_ret retS_Inr\<close>)
  subgoal unfolding timelock_migrate_lp_def Let_def
    by (intro prints_forS prints_queue) (use migration_table in \<open>auto simp: typed_simps list_all_iff migrate_lp_args_def\<close>)
  subgoal unfolding reset_approvals_def Let_def case_prod_beta
    by (intro prints_forS prints_queue) (use reset_table in \<open>auto simp: typed_simps list_all_iff\<close>)
  subgoal unfolding timelock_whitelist_workers_def whitelist_workers_def forS.simps by (rule prints_ret)
  subgoal unfolding upgrade_vault_def upgrade_vault_through_def newImplOf_def queue_upgrade_def
    by (intro prints_bind prints_then [OF prints_queue]) (auto simp: prints_ret typed_simps retS_Inr intro!: prints_queue)
  done

lemma typed_set_params:
  assumes "amounts_fit H"
  shows "prints H well_typed timelock_set_param_vault_config"
proof -
  have amount: "in_width 256 (text_of v)" if "e \<in> {''2'', ''400''}" "parseEther H e = Inr v" for e v
  proof -
    from assms that obtain n where "v = Big n" "0 \<le> n" "n < 2 ^ 256" unfolding amounts_fit_def by blast
    then show ?thesis using canon_text_of [of n] by (simp add: in_width_def)
  qed
  have params: "prints H well_typed (queue_set_params (vault_params_of c v))"
    if "is_address c" "e \<in> {''2'', ''400''}" "parseEther H e = Inr v" for c e v
    unfolding queue_set_params_def
    by (rule prints_queue) (use that amount [OF that(2,3)] in
      \<open>simp add: typed_simps set_params_signature_def set_params_types_def vault_params_of_def\<close>)
  show ?thesis
    unfolding timelock_set_param_vault_config_def ether_def forS.simps
    by (intro prints_bind prints_result prints_then prints_ret)
      (simp_all add: resultS_def address_literals params [where e = "''2''"] params [where e = "''400''"])
qed

lemma typed_shield:
  assumes "deploys_addresses H"
  shows "prints H well_typed deploy_shield"
  unfolding deploy_shield_def Let_def
proof (intro prints_bind prints_askAddress prints_queue)
  fix s :: "'a js" and shield t
  assume "askAddress (DeployContract ''Shield'' [Str ''0x2D5408f2287BF9F9B05404794459a846651D0a59'',
    Str ''0xA625AB01B08ce023B2a342Dbb12a16f2C8489A8F'']) H s = (Inr shield, t)"
  then have "is_address shield" using assms unfolding askAddress_Inr ask_Inr deploys_addresses_def by (metis fst_conv)
  then show "well_typed (command ''0xA625AB01B08ce023B2a342Dbb12a16f2C8489A8F'' ''transferOwnership(address)''
    [''address''] [Str shield] ''1617102000'')" by (simp add: typed_simps)
qed

text \<open>
  C37: Every command the timelock scripts of the repository print is well typed: the types given to the
  encoder are the parameter types of the signature, the arguments fit them, the target is an address, and
  value and \<open>eta\<close> are 256-bit integers.  The hypotheses are on the deployed Shield and on the amounts
  \<open>parseEther\<close> computes.
\<close>

theorem printed_commands_well_typed:
  assumes "deploys_addresses H" and "amounts_fit H" and "m \<in> set (timelock_scripts [])" and "m H s = (r, t)"
  shows "\<exists>cs. printed t = printed s @ cs \<and> list_all well_typed cs"
proof -
  have "prints H well_typed m"
    using assms(3) typed_timelock_scripts [of H] typed_set_params [OF assms(2)] typed_shield [OF assms(1)]
    by (auto simp: timelock_scripts_def timelock_whitelist_workers_def)
  then show ?thesis using assms(4) unfolding prints_def by blast
qed

definition address_hre :: "nat hre" where
  "address_hre = sample_hre\<lparr>perform := (\<lambda>q n. (Inr (Str ''0x7F8BE608D72d5Eb51E231B1F9a3e25823fDe0900''), n))\<rparr>"

lemma address_hre_ok: "deploys_addresses address_hre" "amounts_fit address_hre"
proof -
  have "is_address ''0x7F8BE608D72d5Eb51E231B1F9a3e25823fDe0900''" by code_simp
  then show "deploys_addresses address_hre" by (simp add: deploys_addresses_def address_hre_def)
  show "amounts_fit address_hre" by (auto simp: amounts_fit_def address_hre_def sample_hre_def)
qed

theorem printed_commands_well_typed_witness:
  "\<exists>cs. printed (snd (deploy_shield address_hre sample_js)) = printed sample_js @ cs \<and> list_all well_typed cs \<and>
    length cs = 1"
proof -
  have "printed (snd (deploy_shield address_hre sample_js)) = printed sample_js @
      [command ''0xA625AB01B08ce023B2a342Dbb12a16f2C8489A8F'' ''transferOwnership(address)'' [''address'']
        [Str ''0x7F8BE608D72d5Eb51E231B1F9a3e25823fDe0900''] ''1617102000'']"
    by (simp add: deploy_shield_def address_hre_def sample_hre_def Let_def askAddress_def queue_def thenS_def bindS_def
        ask_def askUnit_def retS_def resultS_def printExec_def sample_js_def)
  moreover have "\<exists>cs. printed (snd (deploy_shield address_hre sample_js)) = printed sample_js @ cs \<and> list_all well_typed cs"
    by (rule printed_commands_well_typed [OF address_hre_ok, where m = deploy_shield and r = "fst (deploy_shield address_hre sample_js)"])
      (simp_all add: timelock_scripts_def)
  ultimately show ?thesis by auto
qed

end
