(* ===== verification/Core_Scripts.thy ===== *)
theory Core_Scripts
  imports Vault_Scripts
begin

text \<open>
  The scripts of \<open>deploy/scripts\<close> around the vaults: the test exchange (\<open>000_testnet01\<close> to \<open>05\<close>), the
  shared contracts (\<open>001\<close>, \<open>002\<close>, \<open>004\<close> to \<open>007\<close>), the strategies (\<open>012\<close>, \<open>013\<close>), the stronk token, the
  public offering and the distributor (\<open>020\<close>, \<open>022\<close>, \<open>023\<close>).
\<close>

section \<open>Commands\<close>

text \<open>\<open>await deploy(name, {args})\<close> and \<open>(await deployments.get(name)).address\<close>.\<close>

definition deployed_address :: "string \<Rightarrow> ('w, string) script" where
  "deployed_address name = askAddress (GetDeployment name)"

definition deploy_named :: "string \<Rightarrow> val list \<Rightarrow> ('w, unit) script" where
  "deploy_named name args = askUnit (Deploy name args)"

text \<open>\<open>factory.connect(config.Tokens.NAME, signer)\<close> throws on \<open>undefined\<close>.\<close>

definition connect_token :: "config \<Rightarrow> string \<Rightarrow> ('w, string) script" where
  "connect_token config name = (case Tokens config name of
     Some a \<Rightarrow> retS a | None \<Rightarrow> throwS ''invalid contract address or ENS name'')"

text \<open>A transaction that is sent and not awaited: a failure of it does not reach the script.\<close>

definition send_only :: "request \<Rightarrow> ('w, unit) script" where
  "send_only r = (\<lambda>H s. (Inr (), snd (ask r H s)))"

section \<open>001 to 007\<close>

definition deploy_timelock :: "('w, unit) script" where
  "deploy_timelock =
     (let DELAY_IN_DAYS = 1 in
      bindS getConfig (\<lambda>config.
      thenS (deploy_named ''Timelock'' [Str (AdminAddress config), Num (DELAY_IN_DAYS * 24 * 60 * 60)])
      (bindS (deployed_address ''Timelock'') (\<lambda>timelock.
      thenS (modifyConfig (\<lambda>c. c\<lparr>Timelock := timelock\<rparr>)) FileService_write))))"

definition set_fair_launch :: "string \<Rightarrow> string \<Rightarrow> config \<Rightarrow> config" where
  "set_fair_launch husky fairLaunch c =
     c\<lparr>Tokens := (Tokens c)(''HUSKY'' \<mapsto> husky), FairLaunch_address := fairLaunch\<rparr>"

definition deploy_husky_and_fair_launch :: "('w, unit) script" where
  "deploy_husky_and_fair_launch =
     (let BONUS_MULTIPLIER = 1; BONUS_END_BLOCK = ''2''; BONUS_LOCK_BPS = ''0''; START_BLOCK = ''1'';
          HUSKY_START_RELEASE = ''1''; HUSKY_END_RELEASE = ''2'' in
      bindS (ether ''10.9'') (\<lambda>HUSKY_REWARD_PER_BLOCK.
      bindS (hreS deployer) (\<lambda>dep.
      thenS (deploy_named ''HuskyToken'' [Str HUSKY_START_RELEASE, Str HUSKY_END_RELEASE])
      (bindS (deployed_address ''HuskyToken'') (\<lambda>husky.
      thenS (deploy_named ''FairLaunch'' [Str husky, Str dep, HUSKY_REWARD_PER_BLOCK, Str START_BLOCK,
        Str BONUS_LOCK_BPS, Str BONUS_END_BLOCK])
      (bindS (deployed_address ''FairLaunch'') (\<lambda>fairLaunch.
      thenS (askUnit (Send husky ''transferOwnership(address)'' [Str fairLaunch] [(''gasLimit'', Str ''500000'')]))
      (thenS (askUnit (Send fairLaunch ''setBonus(uint256,uint256,uint256)''
        [Num BONUS_MULTIPLIER, Str BONUS_END_BLOCK, Str BONUS_LOCK_BPS] [(''gasLimit'', Str ''500000'')]))
      (thenS (modifyConfig (set_fair_launch husky fairLaunch)) FileService_write)))))))))"

definition set_models :: "string \<Rightarrow> string \<Rightarrow> string \<Rightarrow> config \<Rightarrow> config" where
  "set_models m lo hi c =
     c\<lparr>TripleSlopeModel := m, LowInterestTripleSlopeModel := lo, HighInterestTripleSlopeModel := hi\<rparr>"

text \<open>\<open>config.SharedConfig.X = (await deployments.get('X')).address\<close>, three times.\<close>

definition deploy_slope_models :: "('w, unit) script" where
  "deploy_slope_models =
     thenS (deploy_named ''TripleSlopeModel'' [])
     (thenS (deploy_named ''LowInterestTripleSlopeModel'' [])
     (thenS (deploy_named ''HighInterestTripleSlopeModel'' [])
     (bindS (deployed_address ''TripleSlopeModel'') (\<lambda>m.
     thenS (modifyConfig (\<lambda>c. c\<lparr>TripleSlopeModel := m\<rparr>))
     (bindS (deployed_address ''LowInterestTripleSlopeModel'') (\<lambda>lo.
     thenS (modifyConfig (\<lambda>c. c\<lparr>LowInterestTripleSlopeModel := lo\<rparr>))
     (bindS (deployed_address ''HighInterestTripleSlopeModel'') (\<lambda>hi.
     thenS (modifyConfig (\<lambda>c. c\<lparr>HighInterestTripleSlopeModel := hi\<rparr>)) FileService_write))))))))"

definition deploy_wnative_relayer :: "('w, unit) script" where
  "deploy_wnative_relayer =
     bindS getConfig (\<lambda>config.
     thenS (deploy_named ''WNativeRelayer'' [Str (NativeAddress config)])
     (bindS (deployed_address ''WNativeRelayer'') (\<lambda>relayer.
     thenS (modifyConfig (\<lambda>c. c\<lparr>WNativeRelayer := relayer\<rparr>)) FileService_write)))"

definition deploy_simple_oracle :: "('w, unit) script" where
  "deploy_simple_oracle =
     bindS getConfig (\<lambda>config.
     bindS (askAddress (DeployProxy ''SimplePriceOracle'' [Str (FeederAddress config)] True)) (\<lambda>oracle.
     thenS (modifyConfig (\<lambda>c. c\<lparr>SimpleOracle := oracle\<rparr>)) FileService_write))"

definition deploy_worker_config :: "('w, unit) script" where
  "deploy_worker_config =
     bindS getConfig (\<lambda>config.
     bindS (askAddress (DeployProxy ''WorkerConfig'' [Str (SimpleOracle config)] True)) (\<lambda>wc.
     thenS (modifyConfig (\<lambda>c. c\<lparr>WorkerConfig := wc\<rparr>)) FileService_write))"

section \<open>012 and 013: the strategies\<close>

definition whitelist_caller :: "string \<Rightarrow> string \<Rightarrow> ('w, unit) script" where
  "whitelist_caller relayer caller =
     askUnit (Send relayer ''setCallerOk(address[],bool)'' [Arr [Str caller], Bool True] [])"

definition set_strategies :: "string \<Rightarrow> string \<Rightarrow> string \<Rightarrow> string \<Rightarrow> string \<Rightarrow> config \<Rightarrow> config" where
  "set_strategies add liq withdraw partialLiq partialMin c =
     c\<lparr>StrategyAddBaseTokenOnly := add, StrategyLiquidate := liq, StrategyWithdrawMinimizeTrading := withdraw,
       StrategyPartialCloseLiquidate := partialLiq, StrategyPartialCloseMinimizeTrading := partialMin\<rparr>"

definition deploy_shared_strategies :: "('w, unit) script" where
  "deploy_shared_strategies =
     bindS getConfig (\<lambda>config.
     let ROUTER_V2 = Str (RouterV2 config); WBNB = token config ''WBNB''; WNATIVE_RELAYER = WNativeRelayer config in
     bindS (askAddress (DeployProxy ''PancakeswapV2AddBaseTokenOnly'' [ROUTER_V2] True)) (\<lambda>add.
     bindS (askAddress (DeployProxy ''PancakeswapV2Liquidate'' [ROUTER_V2] True)) (\<lambda>liq.
     bindS (askAddress (DeployProxy ''PancakeswapV2WithdrawMinimizeTrading''
       [ROUTER_V2, WBNB, Str WNATIVE_RELAYER] True)) (\<lambda>withdraw.
     thenS (whitelist_caller WNATIVE_RELAYER withdraw)
     (bindS (askAddress (DeployProxy ''PancakeswapV2PartialCloseLiquidate'' [ROUTER_V2] False)) (\<lambda>partialLiq.
     bindS (askAddress (DeployProxy ''PancakeswapV2PartialCloseMinimizeTrading''
       [ROUTER_V2, WBNB, Str WNATIVE_RELAYER] False)) (\<lambda>partialMin.
     thenS (whitelist_caller WNATIVE_RELAYER partialMin)
     (thenS (modifyConfig (set_strategies add liq withdraw partialLiq partialMin)) FileService_write))))))))"

text \<open>
  \<open>013\<close> reads \<open>config.Vaults[0].address\<close> for a table it does not use; its loop starts at the fourth vault.
\<close>

definition deploy_vault_strategy :: "nat \<Rightarrow> ('w, unit) script" where
  "deploy_vault_strategy i =
     bindS getConfig (\<lambda>config.
     bindS (vaultAt i) (\<lambda>v.
     bindS (askAddress (DeployProxy ''PancakeswapV2AddTwoSidesOptimal''
       [Str (RouterV2 config), Str (vault_address v)] True)) (\<lambda>strategy.
     thenS (setVault i (\<lambda>e. e\<lparr>vault_StrategyAddTwoSidesOptimal := strategy\<rparr>)) FileService_write)))"

definition deploy_vault_strategies :: "('w, unit) script" where
  "deploy_vault_strategies =
     bindS (vaultAt 0) (\<lambda>_.
     bindS getConfig (\<lambda>config.
     forS deploy_vault_strategy [3 ..< length (Vaults config)]))"

section \<open>020, 022 and 023\<close>

definition deploy_stronk_husky :: "('w, unit) script" where
  "deploy_stronk_husky = askUnit (GetFactory ''StronkHusky'')"

definition public_offering :: "string \<Rightarrow> string \<Rightarrow> string \<Rightarrow> ('w, unit) script" where
  "public_offering config currency feed =
     bindS (askAddress (DeployContract ''PublicOffering'' [Str config, Str currency, Str feed])) (\<lambda>offering.
     send_only (Send config ''setPublicOffering(address,bool)'' [Str offering, Bool True] []))"

definition deploy_dao :: "('w, unit) script" where
  "deploy_dao =
     (let ETH = ''0x0000000000000000000000000000000000000000'';
          USDT = ''0x1484a6020a0f08400f6f56715016d2c80e26cdc1'';
          USDC = ''0x7079f3762805cff9c979a5bdc6f5648bcfee76c8'';
          ETH_FEED = ''0x9326BFA02ADD2366b30bacB125260Af641031331'';
          USDT_FEED = ''0x2ca5A90D34cA333661083F89D831f757A9A50148'';
          USDC_FEED = ''0x9211c6b3BF41A10F78539810Cf5c64e1BB78Ec60'' in
      bindS (askAddress (DeployContract ''PublicOfferingConfig'' [])) (\<lambda>config.
      thenS (public_offering config ETH ETH_FEED)
      (thenS (public_offering config USDT USDT_FEED)
      (public_offering config USDC USDC_FEED))))"

definition deploy_merkle_distributor :: "('w, unit) script" where
  "deploy_merkle_distributor =
     (let MERKLE_ROOT = ''0x6448eaef682da62f86be2b8c5dbb098b1d2f40cc9b1615b2302c0ef1e619ffda'';
          FEATURE_TOKEN_ADDRESS = ''0x04c747b40be4d535fc83d09939fb0f626f32800b'' in
      askUnit (DeployContract ''MerkleDistributor'' [Str FEATURE_TOKEN_ADDRESS, Str MERKLE_ROOT]))"

section \<open>The test exchange\<close>

text \<open>\<open>if (network.name !== 'testnet') return\<close>.\<close>

definition testnet_only :: "('w, unit) script \<Rightarrow> ('w, unit) script" where
  "testnet_only m = bindS (hreS network_name) (\<lambda>name. if name \<noteq> ''testnet'' then retS () else m)"

definition testnet_deploy_pancakeswap :: "('w, unit) script" where
  "testnet_deploy_pancakeswap = testnet_only
     (bindS getConfig (\<lambda>config. bindS (hreS deployer) (\<lambda>dep.
      thenS (deploy_named ''PancakeFactory'' [Str dep])
      (bindS (deployed_address ''PancakeFactory'') (\<lambda>factory.
      deploy_named ''PancakeRouter'' [Str factory, token config ''WBNB'']))))) "

definition testnet_deploy_cake_syrup :: "('w, unit) script" where
  "testnet_deploy_cake_syrup = testnet_only
     (thenS (deploy_named ''CakeToken'' [])
      (bindS (deployed_address ''CakeToken'') (\<lambda>cake.
      deploy_named ''SyrupBar'' [Str cake])))"

definition FOREVER :: int where "FOREVER = 20000000000"

definition create_pair :: "string \<Rightarrow> val \<Rightarrow> val \<Rightarrow> ('w, unit) script" where
  "create_pair factory a b =
     askUnit (Send factory ''createPair(address,address)'' [a, b] [(''gasLimit'', Str ''10000000'')])"

definition approve :: "string \<Rightarrow> string \<Rightarrow> string \<Rightarrow> ('w, unit) script" where
  "approve router tok amount =
     bindS (ether amount) (\<lambda>v. askUnit (Send tok ''approve(address,uint256)'' [Str router, v] []))"

definition add_liquidity_eth :: "string \<Rightarrow> val \<Rightarrow> string \<Rightarrow> ('w, unit) script" where
  "add_liquidity_eth router tok amount =
     bindS (ether amount) (\<lambda>v. bindS (hreS signer0) (\<lambda>signer. bindS (ether ''0.1'') (\<lambda>eth.
     askUnit (Send router ''addLiquidityETH(address,uint256,uint256,uint256,address,uint256)''
       [tok, v, Str ''0'', Str ''0'', Str signer, Num FOREVER] [(''value'', eth), (''gasLimit'', Num 5000000)]))))"

definition add_liquidity :: "string \<Rightarrow> val \<Rightarrow> val \<Rightarrow> string \<Rightarrow> ('w, unit) script" where
  "add_liquidity router a b amount =
     bindS (ether amount) (\<lambda>v. bindS (ether amount) (\<lambda>u. bindS (hreS signer0) (\<lambda>signer.
     askUnit (Send router ''addLiquidity(address,address,uint256,uint256,uint256,uint256,address,uint256)''
       [a, b, v, u, Str ''0'', Str ''0'', Str signer, Num FOREVER] [(''gasLimit'', Num 5000000)]))))"

definition create_trading_pairs :: "config \<Rightarrow> ('w, unit) script" where
  "create_trading_pairs config =
     (let WBNB = token config ''WBNB''; BUSD = token config ''BUSD''; USDT = token config ''USDT'' in
      bindS (deployed_address ''PancakeFactory'') (\<lambda>factory.
      bindS (deployed_address ''PancakeRouter'') (\<lambda>router.
      bindS (deployed_address ''CakeToken'') (\<lambda>cake.
      bindS (connect_token config ''BTCB'') (\<lambda>btcb.
      bindS (connect_token config ''ETH'') (\<lambda>eth.
      bindS (connect_token config ''USDT'') (\<lambda>usdt.
      bindS (connect_token config ''BUSD'') (\<lambda>busd.
      bindS (deployed_address ''CakeToken'') (\<lambda>cakeToken.
      thenS (create_pair factory WBNB (Str cakeToken))
      (thenS (approve router cake ''22.8682'')
      (bindS (deployed_address ''CakeToken'') (\<lambda>cakeToken.
      thenS (add_liquidity_eth router (Str cakeToken) ''22.8682'')
      (thenS (create_pair factory (token config ''BTCB'') WBNB)
      (thenS (approve router btcb ''0.00467384'')
      (thenS (add_liquidity_eth router (Str btcb) ''0.00467384'')
      (thenS (create_pair factory (token config ''ETH'') WBNB)
      (thenS (approve router eth ''0.149565'')
      (thenS (add_liquidity_eth router (Str eth) ''0.149565'')
      (thenS (create_pair factory USDT BUSD)
      (thenS (approve router usdt ''100000000'')
      (thenS (approve router busd ''100000000'')
      (thenS (add_liquidity router USDT BUSD ''100000000'')
      (thenS (create_pair factory WBNB BUSD)
      (thenS (approve router busd ''266.194'')
      (add_liquidity_eth router BUSD ''266.194'')))))))))))))))))))))))))"

definition testnet_create_trading_pair :: "('w, unit) script" where
  "testnet_create_trading_pair = testnet_only (bindS getConfig create_trading_pairs)"

definition add_lp_pool :: "string \<Rightarrow> string \<Rightarrow> string \<Rightarrow> string \<Rightarrow> ('w, unit) script" where
  "add_lp_pool factory masterchef a b =
     bindS (askAddress (View factory ''getPair(address,address)'' [Str a, Str b])) (\<lambda>lp.
     askUnit (Send masterchef ''add(uint256,address,bool)'' [Num 1000, Str lp, Bool True] []))"

definition register_pools :: "config \<Rightarrow> ('w, unit) script" where
  "register_pools config =
     bindS (hreS deployer) (\<lambda>dep.
     bindS (ether ''40'') (\<lambda>CAKE_REWARD_PER_BLOCK.
     bindS (deployed_address ''CakeToken'') (\<lambda>cakeToken.
     bindS (deployed_address ''SyrupBar'') (\<lambda>syrupBar.
     thenS (deploy_named ''PancakeMasterChef''
       [Str cakeToken, Str syrupBar, Str dep, CAKE_REWARD_PER_BLOCK, Num 0])
     (bindS (deployed_address ''PancakeFactory'') (\<lambda>factory.
     bindS (deployed_address ''PancakeMasterChef'') (\<lambda>masterchef.
     bindS (deployed_address ''CakeToken'') (\<lambda>cake.
     bindS (deployed_address ''SyrupBar'') (\<lambda>syrup.
     bindS (connect_token config ''WBNB'') (\<lambda>wbnb.
     bindS (connect_token config ''BTCB'') (\<lambda>btcb.
     bindS (connect_token config ''ETH'') (\<lambda>eth.
     bindS (connect_token config ''USDT'') (\<lambda>usdt.
     bindS (connect_token config ''BUSD'') (\<lambda>busd.
     thenS (askUnit (Send cake ''transferOwnership(address)'' [Str masterchef] [(''gasLimit'', Str ''210000'')]))
     (thenS (askUnit (Send syrup ''transferOwnership(address)'' [Str masterchef] [(''gasLimit'', Str ''210000'')]))
     (thenS (add_lp_pool factory masterchef cake wbnb)
     (thenS (add_lp_pool factory masterchef btcb wbnb)
     (thenS (add_lp_pool factory masterchef eth wbnb)
     (thenS (add_lp_pool factory masterchef usdt busd)
     (add_lp_pool factory masterchef wbnb busd))))))))))))))))))))"

definition testnet_deploy_master_chef :: "('w, unit) script" where
  "testnet_deploy_master_chef = testnet_only (bindS getConfig register_pools)"

definition testnet_deploy_pancakeswap_v2 :: "('w, unit) script" where
  "testnet_deploy_pancakeswap_v2 =
     (let WBNB = ''0xDfb1211E2694193df5765d54350e1145FD2404A1'' in
      bindS (hreS deployer) (\<lambda>dep.
      thenS (deploy_named ''PancakeFactory'' [Str dep])
      (bindS (deployed_address ''PancakeFactory'') (\<lambda>factory.
      deploy_named ''PancakeRouterV2'' [Str factory, Str WBNB]))))"

end
