(* ===== verification/Core_Wiring.thy ===== *)
theory Core_Wiring
  imports Core_Scripts
begin

text \<open>
  What the core scripts achieve: the pairs of the test exchange and the pools registered for them
  (\<open>000_testnet03\<close> and \<open>04\<close>), the shared contracts and how they refer to each other (\<open>001\<close> to \<open>007\<close>,
  \<open>012\<close>), the strategy of every vault (\<open>013\<close>).
\<close>

section \<open>Pools of the test exchange\<close>

text \<open>
  \<open>emits H c g m L\<close>: in a run of \<open>m\<close> that returns, from the configuration \<open>c\<close>, the requests give with \<open>g\<close> the
  list \<open>L\<close>, and the configuration stays.
\<close>

definition emits :: "'w hre \<Rightarrow> config \<Rightarrow> (request \<Rightarrow> 'e list) \<Rightarrow> ('w, 'a) script \<Rightarrow> 'e list \<Rightarrow> bool" where
  "emits H c g m L \<longleftrightarrow> (\<forall>s x t. config_of H s = c \<longrightarrow> m H s = (Inr x, t) \<longrightarrow>
     config_of H t = c \<and> (\<exists>es. trace t = trace s @ es \<and> concat (map (g \<circ> fst) es) = L))"

lemma emits_bind_value:
  assumes "emits H c g m L1" and "\<And>s x t. config_of H s = c \<Longrightarrow> m H s = (Inr x, t) \<Longrightarrow> x = a" and "emits H c g (f a) L2"
  shows "emits H c g (bindS m f) (L1 @ L2)"
  unfolding emits_def
proof (intro allI impI)
  fix s y t
  assume s: "config_of H s = c" and "bindS m f H s = (Inr y, t)"
  then obtain x u where m: "m H s = (Inr x, u)" and k: "f x H u = (Inr y, t)" by (auto simp: bindS_Inr)
  from assms(1) s m obtain es where es: "config_of H u = c" "trace u = trace s @ es" "concat (map (g \<circ> fst) es) = L1"
    unfolding emits_def by blast
  from assms(2) [OF s m] k have "f a H u = (Inr y, t)" by simp
  with assms(3) es(1) obtain fs where "config_of H t = c" "trace t = trace u @ fs" "concat (map (g \<circ> fst) fs) = L2"
    unfolding emits_def by blast
  with es show "config_of H t = c \<and> (\<exists>es. trace t = trace s @ es \<and> concat (map (g \<circ> fst) es) = L1 @ L2)" by auto
qed

lemma emits_bind:
  assumes "emits H c g m L1" and "\<And>x. emits H c g (f x) L2"
  shows "emits H c g (bindS m f) (L1 @ L2)"
  unfolding emits_def
proof (intro allI impI)
  fix s y t
  assume s: "config_of H s = c" and "bindS m f H s = (Inr y, t)"
  then obtain x u where m: "m H s = (Inr x, u)" and k: "f x H u = (Inr y, t)" by (auto simp: bindS_Inr)
  from assms(1) s m obtain es where es: "config_of H u = c" "trace u = trace s @ es" "concat (map (g \<circ> fst) es) = L1"
    unfolding emits_def by blast
  with assms(2) k obtain fs where "config_of H t = c" "trace t = trace u @ fs" "concat (map (g \<circ> fst) fs) = L2"
    unfolding emits_def by blast
  with es show "config_of H t = c \<and> (\<exists>es. trace t = trace s @ es \<and> concat (map (g \<circ> fst) es) = L1 @ L2)" by auto
qed

lemma emits_then: "emits H c g m L1 \<Longrightarrow> emits H c g k L2 \<Longrightarrow> emits H c g (thenS m k) (L1 @ L2)"
  by (simp add: thenS_def emits_bind)

lemma emits_ask: "emits H c g (ask r) (g r)"
  unfolding emits_def by (auto simp: ask_Inr)

lemma emits_silent: "(\<And>s x t. m H s = (Inr x, t) \<Longrightarrow> t = s) \<Longrightarrow> emits H c g m []"
  unfolding emits_def
proof (intro allI impI)
  fix s x t
  assume silent: "\<And>s x t. m H s = (Inr x, t) \<Longrightarrow> t = s" and "config_of H s = c" "m H s = (Inr x, t)"
  then have "t = s" by blast
  with \<open>config_of H s = c\<close> show "config_of H t = c \<and> (\<exists>es. trace t = trace s @ es \<and> concat (map (g \<circ> fst) es) = [])"
    by (intro conjI exI [of _ "[]"]) simp_all
qed

lemma emits_askUnit: "emits H c g (askUnit r) (g r)"
  unfolding emits_def by (auto simp: askUnit_Inr ask_Inr)

lemma emits_askAddress: "emits H c g (askAddress r) (g r)"
  unfolding emits_def by (auto simp: askAddress_Inr ask_Inr)

lemma emits_quiet:
  "emits H c g (retS x) []" "emits H c g (ether e) []" "emits H c g (hreS h) []"
  by (rule emits_silent, simp add: retS_Inr ether_Inr hreS_Inr)+

text \<open>The pairs a script creates and the pools it registers.\<close>

fun created_pair :: "request \<Rightarrow> (val \<times> val) list" where
  "created_pair (Send f m [a, b] os) = (if m = ''createPair(address,address)'' then [(a, b)] else [])"
| "created_pair _ = []"

fun added_pool :: "request \<Rightarrow> val list" where
  "added_pool (Send f m [n, lp, b] os) = (if m = ''add(uint256,address,bool)'' then [lp] else [])"
| "added_pool _ = []"

text \<open>
  What the scripts rely on: deployments have one address, the factory knows one pair for two tokens, in
  either order, and the five tokens are in the file.
\<close>

definition exchange_world :: "'w hre \<Rightarrow> (string \<Rightarrow> string) \<Rightarrow> (val \<Rightarrow> val \<Rightarrow> string) \<Rightarrow> bool" where
  "exchange_world H dep pair \<longleftrightarrow>
     (\<forall>n w. fst (perform H (GetDeployment n) w) = Inr (Str (dep n))) \<and>
     (\<forall>f a b w. fst (perform H (View f ''getPair(address,address)'' [a, b]) w) = Inr (Str (pair a b))) \<and>
     (\<forall>a b. pair a b = pair b a)"

definition test_tokens :: "config \<Rightarrow> (string \<Rightarrow> string) \<Rightarrow> bool" where
  "test_tokens c tok \<longleftrightarrow> (\<forall>n \<in> {''WBNB'', ''BTCB'', ''ETH'', ''USDT'', ''BUSD''}. Tokens c n = Some (tok n))"

lemma deployed_value:
  "exchange_world H dep pair \<Longrightarrow> deployed_address n H s = (Inr x, t) \<Longrightarrow> x = dep n"
  by (auto simp: deployed_address_def askAddress_Inr ask_Inr exchange_world_def) (metis Inr_inject fst_conv val.inject(1))

lemma emits_deployed:
  assumes "exchange_world H dep pair" and "emits H c g (f (dep n)) L" and "g (GetDeployment n) = []"
  shows "emits H c g (bindS (deployed_address n) f) L"
proof -
  have "emits H c g (bindS (deployed_address n) f) ([] @ L)"
  proof (rule emits_bind_value)
    show "emits H c g (deployed_address n) []"
      using emits_askAddress [of H c g "GetDeployment n"] assms(3) by (simp add: deployed_address_def)
    show "emits H c g (f (dep n)) L" by (rule assms(2))
  qed (rule deployed_value [OF assms(1)])
  then show ?thesis by simp
qed

lemma bindS_retS: "bindS (retS a) f = f a"
  by (simp add: bindS_def retS_def fun_eq_iff)

lemma bindS_hreS: "bindS (hreS h) f H s = f (h H) H s"
  by (simp add: bindS_def hreS_def)

lemma emits_connect: "test_tokens c tok \<Longrightarrow> n \<in> {''WBNB'', ''BTCB'', ''ETH'', ''USDT'', ''BUSD''} \<Longrightarrow>
    emits H c g (f (tok n)) L \<Longrightarrow> emits H c g (bindS (connect_token c n) f) L"
  unfolding test_tokens_def connect_token_def by (auto simp: bindS_retS)

lemma emits_eq: "emits H c g m L \<Longrightarrow> L = L' \<Longrightarrow> emits H c g m L'"
  by simp

text \<open>A value computed first and then sent, in an argument the projection does not look at.\<close>

lemma emits_ether: "(\<And>v. emits H c g (f v) L) \<Longrightarrow> emits H c g (bindS (ether e) f) L"
  by (rule emits_eq [OF emits_bind [OF emits_quiet(2)]]) simp_all

lemma emits_hreS: "emits H c g (f (h H)) L \<Longrightarrow> emits H c g (bindS (hreS h) f) L"
  unfolding emits_def bindS_hreS .

lemma emits_sent: "g r = L \<Longrightarrow> emits H c g (askUnit r) L"
  using emits_askUnit by blast

lemma created_parts:
  "emits H c created_pair (create_pair factory a b) [(a, b)]"
  "emits H c created_pair (approve router tok amount) []"
  "emits H c created_pair (add_liquidity_eth router x amount) []"
  "emits H c created_pair (add_liquidity router x y amount) []"
  unfolding create_pair_def approve_def add_liquidity_eth_def add_liquidity_def
  by (rule emits_ether emits_hreS emits_sent | simp)+

lemma added_lp_pool:
  assumes "exchange_world H dep pair"
  shows "emits H c added_pool (add_lp_pool factory chef a b) [Str (pair (Str a) (Str b))]"
proof -
  let ?lp = "pair (Str a) (Str b)"
  have "emits H c added_pool (add_lp_pool factory chef a b) ([] @ [Str ?lp])"
    unfolding add_lp_pool_def
  proof (rule emits_bind_value)
    show "emits H c added_pool (askAddress (View factory ''getPair(address,address)'' [Str a, Str b])) []"
      using emits_askAddress [of H c added_pool "View factory ''getPair(address,address)'' [Str a, Str b]"] by simp
    show "emits H c added_pool (askUnit (Send chef ''add(uint256,address,bool)'' [Num 1000, Str ?lp, Bool True] [])) [Str ?lp]"
      by (rule emits_sent) simp
  next
    fix s x t
    assume "askAddress (View factory ''getPair(address,address)'' [Str a, Str b]) H s = (Inr x, t)"
    then show "x = ?lp" using assms
      by (auto simp: askAddress_Inr ask_Inr exchange_world_def) (metis Inr_inject fst_conv val.inject(1))
  qed
  then show ?thesis by simp
qed

lemma created_pairs:
  assumes W: "exchange_world H dep pair" and T: "test_tokens c tok"
  shows "emits H c created_pair (create_trading_pairs c)
    [(Str (tok ''WBNB''), Str (dep ''CakeToken'')), (Str (tok ''BTCB''), Str (tok ''WBNB'')),
     (Str (tok ''ETH''), Str (tok ''WBNB'')), (Str (tok ''USDT''), Str (tok ''BUSD'')),
     (Str (tok ''WBNB''), Str (tok ''BUSD''))]"
proof -
  have tokens: "token c ''WBNB'' = Str (tok ''WBNB'')" "token c ''BTCB'' = Str (tok ''BTCB'')"
    "token c ''ETH'' = Str (tok ''ETH'')" "token c ''USDT'' = Str (tok ''USDT'')" "token c ''BUSD'' = Str (tok ''BUSD'')"
    using T by (simp_all add: test_tokens_def token_def)
  show ?thesis
    unfolding create_trading_pairs_def Let_def tokens
    by (rule emits_eq, (rule emits_deployed [OF W] emits_connect [OF T] emits_then created_parts | simp)+)
qed

lemma added_pools:
  assumes W: "exchange_world H dep pair" and T: "test_tokens c tok"
  shows "emits H c added_pool (register_pools c)
    [Str (pair (Str (dep ''CakeToken'')) (Str (tok ''WBNB''))), Str (pair (Str (tok ''BTCB'')) (Str (tok ''WBNB''))),
     Str (pair (Str (tok ''ETH'')) (Str (tok ''WBNB''))), Str (pair (Str (tok ''USDT'')) (Str (tok ''BUSD''))),
     Str (pair (Str (tok ''WBNB'')) (Str (tok ''BUSD'')))]"
proof -
  have quiet: "emits H c added_pool (deploy_named n vs) []" for n vs
    unfolding deploy_named_def by (rule emits_sent) simp
  have transfer: "emits H c added_pool (askUnit (Send a m [v] os)) []" for a m v os
    by (rule emits_sent) simp
  show ?thesis
    unfolding register_pools_def
    by (rule emits_eq, (rule emits_deployed [OF W] emits_connect [OF T] emits_hreS emits_ether quiet transfer
        added_lp_pool [OF W] emits_then | simp)+)
qed

lemma testnet_only_testnet: "network_name H = ''testnet'' \<Longrightarrow> testnet_only m H s = m H s"
  by (simp add: testnet_only_def bindS_hreS)

lemma testnet_only_other: "network_name H \<noteq> ''testnet'' \<Longrightarrow> testnet_only m H s = (Inr (), s)"
  by (simp add: testnet_only_def bindS_hreS retS_def)

text \<open>
  Every pair is farmed: on the test network, when the script that creates the trading pairs and then the
  script that deploys the MasterChef return, the LP tokens added to the MasterChef are exactly those of the
  pairs that were created, in the same order.  The hypotheses: a deployment has one address, the factory
  knows one pair for two tokens in either order, and the five tokens are in the file.
\<close>

theorem created_pairs_are_farmed:
  assumes net: "network_name H = ''testnet''" and W: "exchange_world H dep pair" and T: "test_tokens (config_of H s) tok"
    and first: "testnet_create_trading_pair H s = (Inr x, t)" and second: "testnet_deploy_master_chef H t = (Inr y, u)"
  shows "\<exists>es fs. trace t = trace s @ es \<and> trace u = trace t @ fs \<and>
    length (concat (map (created_pair \<circ> fst) es)) = 5 \<and>
    concat (map (added_pool \<circ> fst) fs) = map (\<lambda>(a, b). Str (pair a b)) (concat (map (created_pair \<circ> fst) es))"
proof -
  have "create_trading_pairs (config_of H s) H s = (Inr x, t)"
    using first by (simp add: testnet_create_trading_pair_def testnet_only_testnet [OF net] bindS_Inr getConfig_Inr)
  then obtain es where es: "config_of H t = config_of H s" "trace t = trace s @ es"
    "concat (map (created_pair \<circ> fst) es) =
      [(Str (tok ''WBNB''), Str (dep ''CakeToken'')), (Str (tok ''BTCB''), Str (tok ''WBNB'')),
       (Str (tok ''ETH''), Str (tok ''WBNB'')), (Str (tok ''USDT''), Str (tok ''BUSD'')),
       (Str (tok ''WBNB''), Str (tok ''BUSD''))]"
    using created_pairs [OF W T] unfolding emits_def by blast
  have "register_pools (config_of H s) H t = (Inr y, u)"
    using second es(1) by (simp add: testnet_deploy_master_chef_def testnet_only_testnet [OF net] bindS_Inr getConfig_Inr)
  then obtain fs where "trace u = trace t @ fs" and fs: "concat (map (added_pool \<circ> fst) fs) =
      [Str (pair (Str (dep ''CakeToken'')) (Str (tok ''WBNB''))), Str (pair (Str (tok ''BTCB'')) (Str (tok ''WBNB''))),
       Str (pair (Str (tok ''ETH'')) (Str (tok ''WBNB''))), Str (pair (Str (tok ''USDT'')) (Str (tok ''BUSD''))),
       Str (pair (Str (tok ''WBNB'')) (Str (tok ''BUSD'')))]"
    using added_pools [OF W T] es(1) unfolding emits_def by blast
  moreover have "pair (Str (dep ''CakeToken'')) (Str (tok ''WBNB'')) = pair (Str (tok ''WBNB'')) (Str (dep ''CakeToken''))"
    using W unfolding exchange_world_def by blast
  ultimately show ?thesis using es(2,3) by (intro exI [of _ es] exI [of _ fs]) simp
qed

text \<open>A test network whose answers depend on the request alone.\<close>

definition testnet_perform :: "request \<Rightarrow> unit \<Rightarrow> val result \<times> unit" where
  "testnet_perform q w = (Inr (case q of
     GetDeployment n \<Rightarrow> Str n | View f m vs \<Rightarrow> Str ''LP'' | DeployProxy n vs b \<Rightarrow> Str n | DeployContract n vs \<Rightarrow> Str n
   | _ \<Rightarrow> Undef), w)"

definition testnet_hre :: "unit hre" where
  "testnet_hre =
     \<lparr>network_name = ''testnet'', deployer = ''d'', signer0 = ''d'', perform = testnet_perform,
      parseEther = (\<lambda>_. Inr (Big 1)), abi_encode = (\<lambda>_ vs. Inr (Arr vs))\<rparr>"

definition testnet_js :: "unit js" where
  "testnet_js = \<lparr>world = (), MainnetConfig = sample_config, TestnetConfig = sample_config, trace = [], printed = []\<rparr>"

lemma testnet_config [simp]: "config_of testnet_hre testnet_js = sample_config"
  by (simp add: config_of_def testnet_hre_def testnet_js_def)

lemma testnet_exchange: "exchange_world testnet_hre (\<lambda>n. n) (\<lambda>a b. ''LP'')"
  by (simp add: exchange_world_def testnet_hre_def testnet_perform_def)

lemma testnet_tokens: "test_tokens sample_config (\<lambda>_. ''K'')"
  by (simp add: test_tokens_def sample_config_def)

theorem created_pairs_are_farmed_witness:
  "\<exists>t u es fs. testnet_create_trading_pair testnet_hre testnet_js = (Inr (), t) \<and>
    testnet_deploy_master_chef testnet_hre t = (Inr (), u) \<and> trace t = trace testnet_js @ es \<and> trace u = trace t @ fs \<and>
    length (concat (map (created_pair \<circ> fst) es)) = 5 \<and> concat (map (added_pool \<circ> fst) fs) = replicate 5 (Str ''LP'')"
proof -
  note defs = testnet_create_trading_pair_def testnet_deploy_master_chef_def create_trading_pairs_def register_pools_def
    testnet_only_def create_pair_def approve_def add_liquidity_eth_def add_liquidity_def add_lp_pool_def
    deployed_address_def deploy_named_def connect_token_def sample_config_def token_def
  note run = thenS_def bindS_def retS_def askUnit_def askAddress_def ask_def hreS_def ether_def resultS_def getConfig_def
    testnet_perform_def testnet_hre_def Let_def
  let ?t = "snd (testnet_create_trading_pair testnet_hre testnet_js)"
  have first: "testnet_create_trading_pair testnet_hre testnet_js = (Inr (), ?t)"
    by (simp add: defs run testnet_js_def config_of_def)
  let ?u = "snd (testnet_deploy_master_chef testnet_hre ?t)"
  have second: "testnet_deploy_master_chef testnet_hre ?t = (Inr (), ?u)"
    by (simp add: defs run testnet_js_def config_of_def)
  have net: "network_name testnet_hre = ''testnet''" by (simp add: testnet_hre_def)
  have "test_tokens (config_of testnet_hre testnet_js) (\<lambda>_. ''K'')" by (simp add: testnet_tokens)
  from created_pairs_are_farmed [OF net testnet_exchange this first second]
  obtain es fs where es: "trace ?t = trace testnet_js @ es" "trace ?u = trace ?t @ fs"
    "length (concat (map (created_pair \<circ> fst) es)) = 5"
    "concat (map (added_pool \<circ> fst) fs) = map (\<lambda>(a, b). Str ''LP'') (concat (map (created_pair \<circ> fst) es))" by blast
  have const: "map (\<lambda>(a, b). y) xs = replicate (length xs) y" for y :: val and xs :: "(val \<times> val) list"
    by (induction xs) auto
  show ?thesis
  proof (intro exI conjI)
    show "testnet_create_trading_pair testnet_hre testnet_js = (Inr (), ?t)" by (rule first)
    show "testnet_deploy_master_chef testnet_hre ?t = (Inr (), ?u)" by (rule second)
    show "concat (map (added_pool \<circ> fst) fs) = replicate 5 (Str ''LP'')"
      by (simp only: es(4) const es(3))
  qed (rule es)+
qed
section \<open>The shared contracts\<close>

text \<open>The contracts a trace deploys, with their arguments, and the addresses it learns.\<close>

fun built :: "request \<times> val result \<Rightarrow> (string \<times> val list) list" where
  "built (Deploy n vs, v) = [(n, vs)]"
| "built (DeployProxy n vs b, v) = [(n, vs)]"
| "built e = []"

fun learnt :: "request \<times> val result \<Rightarrow> (string \<times> string) list" where
  "learnt (GetDeployment n, Inr (Str a)) = [(n, a)]"
| "learnt (DeployProxy n vs b, Inr (Str a)) = [(n, a)]"
| "learnt e = []"

definition builds :: "'w js \<Rightarrow> (string \<times> val list) list \<Rightarrow> (string \<times> string) list \<Rightarrow> 'w js \<Rightarrow> bool" where
  "builds s cs as t \<longleftrightarrow> (\<exists>es. trace t = trace s @ es \<and> concat (map built es) = cs \<and> concat (map learnt es) = as)"

lemma builds_trans: "builds s cs as t \<Longrightarrow> builds t ds bs u \<Longrightarrow> builds s (cs @ ds) (as @ bs) u"
  by (force simp: builds_def)

lemmas core_defs = deploy_timelock_def deploy_husky_and_fair_launch_def deploy_slope_models_def
  deploy_wnative_relayer_def deploy_simple_oracle_def deploy_worker_config_def deploy_shared_strategies_def
  deploy_named_def deployed_address_def whitelist_caller_def

lemma timelock_run:
  assumes "deploy_timelock H s = (Inr x, t)"
  shows "\<exists>tl. builds s [(''Timelock'', [Str (AdminAddress (config_of H s)), Num 86400])] [(''Timelock'', tl)] t \<and>
    config_of H t = (config_of H s)\<lparr>Timelock := tl\<rparr>"
  using assms unfolding core_defs
  by (auto simp: script_simps Let_def builds_def)

lemma husky_run:
  assumes "deploy_husky_and_fair_launch H s = (Inr x, t)"
  shows "\<exists>hu fl r. builds s [(''HuskyToken'', [Str ''1'', Str ''2'']),
      (''FairLaunch'', [Str hu, Str (deployer H), r, Str ''1'', Str ''0'', Str ''2''])]
      [(''HuskyToken'', hu), (''FairLaunch'', fl)] t \<and> parseEther H ''10.9'' = Inr r \<and>
    config_of H t = set_fair_launch hu fl (config_of H s)"
  using assms unfolding core_defs
  by (auto simp: script_simps Let_def builds_def)

lemma models_run:
  assumes "deploy_slope_models H s = (Inr x, t)"
  shows "\<exists>m lo hi. builds s [(''TripleSlopeModel'', []), (''LowInterestTripleSlopeModel'', []),
      (''HighInterestTripleSlopeModel'', [])]
      [(''TripleSlopeModel'', m), (''LowInterestTripleSlopeModel'', lo), (''HighInterestTripleSlopeModel'', hi)] t \<and>
    config_of H t = set_models m lo hi (config_of H s)"
  using assms unfolding core_defs
  by (auto simp: script_simps Let_def builds_def set_models_def)

lemma relayer_run:
  assumes "deploy_wnative_relayer H s = (Inr x, t)"
  shows "\<exists>wr. builds s [(''WNativeRelayer'', [Str (NativeAddress (config_of H s))])] [(''WNativeRelayer'', wr)] t \<and>
    config_of H t = (config_of H s)\<lparr>WNativeRelayer := wr\<rparr>"
  using assms unfolding core_defs
  by (auto simp: script_simps Let_def builds_def)

lemma oracle_run:
  assumes "deploy_simple_oracle H s = (Inr x, t)"
  shows "\<exists>so. builds s [(''SimplePriceOracle'', [Str (FeederAddress (config_of H s))])] [(''SimplePriceOracle'', so)] t \<and>
    config_of H t = (config_of H s)\<lparr>SimpleOracle := so\<rparr>"
  using assms unfolding core_defs
  by (auto simp: script_simps Let_def builds_def)

lemma worker_config_run:
  assumes "deploy_worker_config H s = (Inr x, t)"
  shows "\<exists>wc. builds s [(''WorkerConfig'', [Str (SimpleOracle (config_of H s))])] [(''WorkerConfig'', wc)] t \<and>
    config_of H t = (config_of H s)\<lparr>WorkerConfig := wc\<rparr>"
  using assms unfolding core_defs
  by (auto simp: script_simps Let_def builds_def)

lemma strategies_run:
  assumes "deploy_shared_strategies H s = (Inr x, t)"
  defines "c \<equiv> config_of H s"
  defines "router \<equiv> Str (RouterV2 c)" and "trading \<equiv> [Str (RouterV2 c), token c ''WBNB'', Str (WNativeRelayer c)]"
  shows "\<exists>a l w pl pm. builds s
      [(''PancakeswapV2AddBaseTokenOnly'', [router]), (''PancakeswapV2Liquidate'', [router]),
       (''PancakeswapV2WithdrawMinimizeTrading'', trading), (''PancakeswapV2PartialCloseLiquidate'', [router]),
       (''PancakeswapV2PartialCloseMinimizeTrading'', trading)]
      [(''PancakeswapV2AddBaseTokenOnly'', a), (''PancakeswapV2Liquidate'', l),
       (''PancakeswapV2WithdrawMinimizeTrading'', w), (''PancakeswapV2PartialCloseLiquidate'', pl),
       (''PancakeswapV2PartialCloseMinimizeTrading'', pm)] t \<and>
    config_of H t = set_strategies a l w pl pm c"
  using assms(1) unfolding core_defs router_def trading_def c_def
  by (auto simp: script_simps Let_def builds_def)


text \<open>The scripts \<open>001\<close>, \<open>002\<close>, \<open>004\<close> to \<open>007\<close> and \<open>012\<close>, in this order.\<close>

definition shared_scripts :: "('w, unit) script list" where
  "shared_scripts = [deploy_timelock, deploy_husky_and_fair_launch, deploy_slope_models, deploy_wnative_relayer,
     deploy_simple_oracle, deploy_worker_config, deploy_shared_strategies]"

text \<open>
  C35: The shared contracts are wired to each other: when the scripts \<open>001\<close> to \<open>007\<close> and \<open>012\<close> return, they
  have deployed fourteen contracts in this order, FairLaunch for the token just deployed, WorkerConfig
  on the oracle just deployed, the trading strategies on the relayer just deployed, and each address went to
  its own member of the configuration file, every other member of which is as before.
\<close>

theorem shared_contracts_are_wired:
  assumes run: "forS (\<lambda>m. m) shared_scripts H s = (Inr (), t)"
  defines "c \<equiv> config_of H s"
  shows "\<exists>tl hu fl r m lo hi wr so wc a l w pl pm.
    (let router = Str (RouterV2 c); trading = [Str (RouterV2 c), token c ''WBNB'', Str wr] in
    builds s
      [(''Timelock'', [Str (AdminAddress c), Num 86400]), (''HuskyToken'', [Str ''1'', Str ''2'']),
       (''FairLaunch'', [Str hu, Str (deployer H), r, Str ''1'', Str ''0'', Str ''2'']),
       (''TripleSlopeModel'', []), (''LowInterestTripleSlopeModel'', []), (''HighInterestTripleSlopeModel'', []),
       (''WNativeRelayer'', [Str (NativeAddress c)]), (''SimplePriceOracle'', [Str (FeederAddress c)]),
       (''WorkerConfig'', [Str so]), (''PancakeswapV2AddBaseTokenOnly'', [router]),
       (''PancakeswapV2Liquidate'', [router]), (''PancakeswapV2WithdrawMinimizeTrading'', trading),
       (''PancakeswapV2PartialCloseLiquidate'', [router]), (''PancakeswapV2PartialCloseMinimizeTrading'', trading)]
      [(''Timelock'', tl), (''HuskyToken'', hu), (''FairLaunch'', fl), (''TripleSlopeModel'', m),
       (''LowInterestTripleSlopeModel'', lo), (''HighInterestTripleSlopeModel'', hi), (''WNativeRelayer'', wr),
       (''SimplePriceOracle'', so), (''WorkerConfig'', wc), (''PancakeswapV2AddBaseTokenOnly'', a),
       (''PancakeswapV2Liquidate'', l), (''PancakeswapV2WithdrawMinimizeTrading'', w),
       (''PancakeswapV2PartialCloseLiquidate'', pl), (''PancakeswapV2PartialCloseMinimizeTrading'', pm)] t \<and>
    config_of H t = c\<lparr>Timelock := tl, Tokens := (Tokens c)(''HUSKY'' \<mapsto> hu), FairLaunch_address := fl,
      TripleSlopeModel := m, LowInterestTripleSlopeModel := lo, HighInterestTripleSlopeModel := hi,
      WNativeRelayer := wr, SimpleOracle := so, WorkerConfig := wc, StrategyAddBaseTokenOnly := a,
      StrategyLiquidate := l, StrategyWithdrawMinimizeTrading := w, StrategyPartialCloseLiquidate := pl,
      StrategyPartialCloseMinimizeTrading := pm\<rparr>)"
proof -
  from run obtain s1 s2 s3 s4 s5 s6 where
    "deploy_timelock H s = (Inr (), s1)" "deploy_husky_and_fair_launch H s1 = (Inr (), s2)"
    "deploy_slope_models H s2 = (Inr (), s3)" "deploy_wnative_relayer H s3 = (Inr (), s4)"
    "deploy_simple_oracle H s4 = (Inr (), s5)" "deploy_worker_config H s5 = (Inr (), s6)"
    "deploy_shared_strategies H s6 = (Inr (), t)"
    by (auto simp: shared_scripts_def thenS_Inr retS_Inr)
  note runs = timelock_run [OF this(1)] husky_run [OF this(2)] models_run [OF this(3)] relayer_run [OF this(4)]
    oracle_run [OF this(5)] worker_config_run [OF this(6)] strategies_run [OF this(7)]
  from runs(1) obtain tl where 1: "builds s [(''Timelock'', [Str (AdminAddress c), Num 86400])] [(''Timelock'', tl)] s1"
    "config_of H s1 = c\<lparr>Timelock := tl\<rparr>" unfolding c_def by blast
  from runs(2) obtain hu fl r where 2: "builds s1 [(''HuskyToken'', [Str ''1'', Str ''2'']),
      (''FairLaunch'', [Str hu, Str (deployer H), r, Str ''1'', Str ''0'', Str ''2''])]
      [(''HuskyToken'', hu), (''FairLaunch'', fl)] s2" "config_of H s2 = set_fair_launch hu fl (config_of H s1)" by blast
  from runs(3) obtain m lo hi where 3: "builds s2 [(''TripleSlopeModel'', []), (''LowInterestTripleSlopeModel'', []),
      (''HighInterestTripleSlopeModel'', [])]
      [(''TripleSlopeModel'', m), (''LowInterestTripleSlopeModel'', lo), (''HighInterestTripleSlopeModel'', hi)] s3"
    "config_of H s3 = set_models m lo hi (config_of H s2)" by blast
  from runs(4) obtain wr where 4: "builds s3 [(''WNativeRelayer'', [Str (NativeAddress (config_of H s3))])]
      [(''WNativeRelayer'', wr)] s4" "config_of H s4 = (config_of H s3)\<lparr>WNativeRelayer := wr\<rparr>" by blast
  from runs(5) obtain so where 5: "builds s4 [(''SimplePriceOracle'', [Str (FeederAddress (config_of H s4))])]
      [(''SimplePriceOracle'', so)] s5" "config_of H s5 = (config_of H s4)\<lparr>SimpleOracle := so\<rparr>" by blast
  from runs(6) obtain wc where 6: "builds s5 [(''WorkerConfig'', [Str (SimpleOracle (config_of H s5))])]
      [(''WorkerConfig'', wc)] s6" "config_of H s6 = (config_of H s5)\<lparr>WorkerConfig := wc\<rparr>" by blast
  note configs = 1(2) 2(2) 3(2) 4(2) 5(2) 6(2) set_fair_launch_def set_models_def set_strategies_def token_def
  from runs(7) obtain a l w pl pm where 7: "builds s6
      [(''PancakeswapV2AddBaseTokenOnly'', [Str (RouterV2 c)]), (''PancakeswapV2Liquidate'', [Str (RouterV2 c)]),
       (''PancakeswapV2WithdrawMinimizeTrading'', [Str (RouterV2 c), token c ''WBNB'', Str wr]),
       (''PancakeswapV2PartialCloseLiquidate'', [Str (RouterV2 c)]),
       (''PancakeswapV2PartialCloseMinimizeTrading'', [Str (RouterV2 c), token c ''WBNB'', Str wr])]
      [(''PancakeswapV2AddBaseTokenOnly'', a), (''PancakeswapV2Liquidate'', l),
       (''PancakeswapV2WithdrawMinimizeTrading'', w), (''PancakeswapV2PartialCloseLiquidate'', pl),
       (''PancakeswapV2PartialCloseMinimizeTrading'', pm)] t"
    "config_of H t = set_strategies a l w pl pm (config_of H s6)" by (auto simp: configs)
  note all = builds_trans [OF 1(1) builds_trans [OF 2(1) builds_trans [OF 3(1) builds_trans [OF 4(1)
    builds_trans [OF 5(1) builds_trans [OF 6(1) 7(1)]]]]]]
  show ?thesis
    unfolding Let_def
    by (rule exI [of _ tl], rule exI [of _ hu], rule exI [of _ fl], rule exI [of _ r], rule exI [of _ m],
        rule exI [of _ lo], rule exI [of _ hi], rule exI [of _ wr], rule exI [of _ so], rule exI [of _ wc],
        rule exI [of _ a], rule exI [of _ l], rule exI [of _ w], rule exI [of _ pl], rule exI [of _ pm])
      (use all in \<open>simp add: configs 7(2)\<close>)
qed

theorem shared_contracts_are_wired_witness:
  "\<exists>t cs as. forS (\<lambda>m. m) shared_scripts testnet_hre testnet_js = (Inr (), t) \<and>
    builds testnet_js cs as t \<and> length cs = 14 \<and> length as = 14"
proof -
  let ?t = "snd (forS (\<lambda>m. m) shared_scripts testnet_hre testnet_js)"
  have run: "forS (\<lambda>m. m) shared_scripts testnet_hre testnet_js = (Inr (), ?t)"
    by (simp add: shared_scripts_def core_defs thenS_def bindS_def retS_def askUnit_def askAddress_def ask_def hreS_def
        ether_def resultS_def getConfig_def modifyConfig_def FileService_write_def testnet_perform_def testnet_hre_def
        Let_def testnet_js_def config_of_def set_config_def)
  show ?thesis
    using shared_contracts_are_wired [OF run] unfolding Let_def
    by (elim exE conjE) (rule exI, rule exI, rule exI, rule conjI, rule run, rule conjI, assumption, simp)
qed

section \<open>The strategies of the vaults\<close>

text \<open>One round, and the loop over any list of vaults: each of them gets its own strategy.\<close>

definition new_strategy :: "config \<Rightarrow> (request \<times> val result) list \<Rightarrow> nat \<Rightarrow> vault_entry \<Rightarrow> bool" where
  "new_strategy c es i v \<longleftrightarrow> (\<exists>a. v = (Vaults c ! i)\<lparr>vault_StrategyAddTwoSidesOptimal := a\<rparr> \<and>
     (DeployProxy ''PancakeswapV2AddTwoSidesOptimal''
       [Str (RouterV2 c), Str (vault_address (Vaults c ! i))] True, Inr (Str a)) \<in> set es)"

lemma vault_strategy_round:
  assumes "deploy_vault_strategy i H s = (Inr x, t)"
  shows "\<exists>es v. steps H s es t \<and> i < length (Vaults (config_of H s)) \<and> new_strategy (config_of H s) es i v \<and>
    config_of H t = (config_of H s)\<lparr>Vaults := (Vaults (config_of H s))[i := v]\<rparr>"
proof -
  from assms obtain a u where
    i: "i < length (Vaults (config_of H s))"
    and dep: "ask (DeployProxy ''PancakeswapV2AddTwoSidesOptimal''
      [Str (RouterV2 (config_of H s)), Str (vault_address (Vaults (config_of H s) ! i))] True) H s = (Inr (Str a), u)"
      (is "ask ?d H s = _")
    and rest: "thenS (setVault i (\<lambda>e. e\<lparr>vault_StrategyAddTwoSidesOptimal := a\<rparr>)) FileService_write H u = (Inr x, t)"
    unfolding deploy_vault_strategy_def bindS_Inr getConfig_Inr vaultAt_Inr askAddress_Inr by blast
  let ?e = "(Vaults (config_of H s) ! i)\<lparr>vault_StrategyAddTwoSidesOptimal := a\<rparr>"
  let ?c = "(config_of H s)\<lparr>Vaults := (Vaults (config_of H s))[i := ?e]\<rparr>"
  obtain v where w: "ask (WriteFile (''./deploy/results/'' @ network_name H @ ''.json'') ?c) H (set_config H ?c u) = (Inr v, t)"
    using rest ask_config(1) [OF dep]
    by (auto simp: setVault_def thenS_Inr modifyConfig_Inr FileService_write_Inr)
  have "steps H s [(?d, Inr (Str a))] u" using ask_steps [OF dep] by blast
  moreover have "steps H u [(WriteFile (''./deploy/results/'' @ network_name H @ ''.json'') ?c, Inr v)] t"
    using ask_steps [OF w] by simp
  ultimately obtain es where es: "steps H s es t" "(?d, Inr (Str a)) \<in> set es"
    using steps_trans by fastforce
  then have "new_strategy (config_of H s) es i ?e" unfolding new_strategy_def by blast
  then show ?thesis
    using i es(1) ask_config(1) [OF w] by (intro exI [of _ es] exI [of _ ?e]) simp
qed

lemma vault_strategy_loop:
  assumes "forS deploy_vault_strategy js H s = (Inr x, t)" and "distinct js"
  shows "\<exists>es vs. steps H s es t \<and> config_of H t = (config_of H s)\<lparr>Vaults := vs\<rparr> \<and>
    length vs = length (Vaults (config_of H s)) \<and>
    (\<forall>i < length vs. if i \<in> set js then new_strategy (config_of H s) es i (vs ! i)
      else vs ! i = Vaults (config_of H s) ! i)"
  using assms
proof (induction js arbitrary: s)
  case Nil
  then have "t = s" by (simp add: retS_Inr)
  have "steps H s [] s" "config_of H s = (config_of H s)\<lparr>Vaults := Vaults (config_of H s)\<rparr>"
    "\<forall>i < length (Vaults (config_of H s)). if i \<in> set [] then new_strategy (config_of H s) [] i (Vaults (config_of H s) ! i)
      else Vaults (config_of H s) ! i = Vaults (config_of H s) ! i" by simp_all
  then show ?case unfolding \<open>t = s\<close> by blast
next
  case (Cons j js)
  let ?c = "config_of H s"
  from Cons.prems(1) obtain y u where round: "deploy_vault_strategy j H s = (Inr y, u)"
    and rest: "forS deploy_vault_strategy js H u = (Inr x, t)" by (auto simp: thenS_Inr)
  from vault_strategy_round [OF round] obtain es v where 1: "steps H s es u" "j < length (Vaults ?c)"
    "new_strategy ?c es j v" "config_of H u = ?c\<lparr>Vaults := (Vaults ?c)[j := v]\<rparr>" by blast
  have vu: "Vaults (config_of H u) = (Vaults ?c)[j := v]" by (simp add: 1(4))
  have "distinct js" using Cons.prems(2) by simp
  from Cons.IH [OF rest this] obtain fs vs where 2: "steps H u fs t"
    "config_of H t = (config_of H u)\<lparr>Vaults := vs\<rparr>" "length vs = length ((Vaults ?c)[j := v])"
    "\<forall>i < length vs. if i \<in> set js then new_strategy (config_of H u) fs i (vs ! i) else vs ! i = (Vaults ?c)[j := v] ! i"
    unfolding vu by blast
  have "if i \<in> set (j # js) then new_strategy ?c (es @ fs) i (vs ! i) else vs ! i = Vaults ?c ! i"
    if i: "i < length vs" for i
  proof (cases "i = j")
    case True
    then have "vs ! i = v" using 2(3,4) i Cons.prems(2) by simp
    with True 1(3) show ?thesis by (auto simp: new_strategy_def)
  next
    case False
    then have "new_strategy ?c (es @ fs) i (vs ! i)" if "new_strategy (config_of H u) fs i (vs ! i)"
      using that by (auto simp: new_strategy_def 1(4))
    moreover have "if i \<in> set js then new_strategy (config_of H u) fs i (vs ! i) else vs ! i = (Vaults ?c)[j := v] ! i"
      using 2(4) i by blast
    ultimately show ?thesis using False by (simp split: if_splits)
  qed
  with steps_trans [OF 1(1) 2(1)] 2(2,3) show ?case
    by (intro exI [of _ "es @ fs"] exI [of _ vs]) (simp add: 1(4))
qed

text \<open>
  \<open>013\<close> gives the fourth and every later vault of the file a strategy of its own, deployed for that
  vault's address and the router, and leaves the first three vaults and everything else in the file as
  they are.
\<close>

theorem vaults_get_their_strategy:
  assumes "deploy_vault_strategies H s = (Inr (), t)"
  shows "\<exists>es vs. steps H s es t \<and> config_of H t = (config_of H s)\<lparr>Vaults := vs\<rparr> \<and>
    length vs = length (Vaults (config_of H s)) \<and> take 3 vs = take 3 (Vaults (config_of H s)) \<and>
    (\<forall>i. 3 \<le> i \<and> i < length vs \<longrightarrow> new_strategy (config_of H s) es i (vs ! i))"
proof -
  from assms have "forS deploy_vault_strategy [3 ..< length (Vaults (config_of H s))] H s = (Inr (), t)"
    by (auto simp: deploy_vault_strategies_def bindS_Inr vaultAt_Inr getConfig_Inr)
  from vault_strategy_loop [OF this] obtain es vs where
    v: "steps H s es t" "config_of H t = (config_of H s)\<lparr>Vaults := vs\<rparr>" "length vs = length (Vaults (config_of H s))"
      "\<forall>i < length vs. if i \<in> {3 ..< length vs} then new_strategy (config_of H s) es i (vs ! i)
        else vs ! i = Vaults (config_of H s) ! i" by auto
  have "take 3 vs = take 3 (Vaults (config_of H s))"
    by (rule nth_equalityI) (use v(3,4) in auto)
  with v show ?thesis by (intro exI [of _ es] exI [of _ vs]) simp
qed

definition four_vaults_js :: "unit js" where
  "four_vaults_js = testnet_js\<lparr>TestnetConfig := sample_config\<lparr>Vaults := replicate 4 (hd (Vaults sample_config))\<rparr>\<rparr>"

theorem vaults_get_their_strategy_witness:
  "\<exists>t es. deploy_vault_strategies testnet_hre four_vaults_js = (Inr (), t) \<and> steps testnet_hre four_vaults_js es t \<and>
    new_strategy (config_of testnet_hre four_vaults_js) es 3 (Vaults (config_of testnet_hre t) ! 3)"
proof -
  let ?t = "snd (deploy_vault_strategies testnet_hre four_vaults_js)"
  have run: "deploy_vault_strategies testnet_hre four_vaults_js = (Inr (), ?t)"
    by (simp add: deploy_vault_strategies_def deploy_vault_strategy_def setVault_def vaultAt_def thenS_def bindS_def
        retS_def askUnit_def askAddress_def ask_def hreS_def getConfig_def modifyConfig_def FileService_write_def
        testnet_perform_def testnet_hre_def four_vaults_js_def testnet_js_def config_of_def set_config_def
        sample_config_def upt_rec)
  have "length (Vaults (config_of testnet_hre four_vaults_js)) = 4"
    by (simp add: four_vaults_js_def testnet_hre_def config_of_def)
  then show ?thesis using vaults_get_their_strategy [OF run] run by fastforce
qed

end
