(* ===== verification/Core_Links.thy ===== *)
theory Core_Links
  imports Core_Wiring Fair_Launch
begin

text \<open>
  \<open>002\<close> against the FairLaunch contract it deploys: the script asks for a bonus multiplier of one, which
  the contract never accepts.
\<close>

section \<open>The bonus of 002\<close>

text \<open>The transactions of a trace that set the bonus, with the numbers they carry.\<close>

fun bonus_calls :: "request \<times> val result \<Rightarrow> (nat \<times> nat \<times> nat) list" where
  "bonus_calls (Send fl f [a, b, c] os, v) =
     (if f = ''setBonus(uint256,uint256,uint256)'' then [(numeric a, numeric b, numeric c)] else [])"
| "bonus_calls e = []"

lemma setBonus_needs_multiplier: "multiplier \<le> 1 \<Longrightarrow> isl (setBonus X m multiplier endBlock lockUpBps st)"
  by (cases "setBonus X m multiplier endBlock lockUpBps st"; cases st) (auto simp: setBonus_def)

text \<open>
  The bonus is never set: when \<open>002\<close> returns it has sent exactly one \<open>setBonus\<close>, and the FairLaunch
  contract rejects that call in every state, from every sender and at every block.
\<close>

theorem bonus_is_never_set:
  assumes "deploy_husky_and_fair_launch H s = (Inr (), t)"
  shows "\<exists>es n b l. trace t = trace s @ es \<and> concat (map bonus_calls es) = [(n, b, l)] \<and>
    (\<forall>X m st. isl (setBonus X m n b l st))"
proof -
  have "\<exists>es. trace t = trace s @ es \<and> concat (map bonus_calls es) = [(1, numeric (Str ''2''), numeric (Str ''0''))]"
    using assms unfolding core_defs by (auto simp: script_simps Let_def) (simp add: numeric_def)
  then show ?thesis using setBonus_needs_multiplier by blast
qed

theorem bonus_is_never_set_witness:
  "\<exists>t n b l. deploy_husky_and_fair_launch testnet_hre testnet_js = (Inr (), t) \<and>
    (\<forall>X :: unit fl_ext. \<forall>m st. isl (setBonus X m n b l st))"
proof -
  obtain t where t: "deploy_husky_and_fair_launch testnet_hre testnet_js = (Inr (), t)"
    by (simp add: core_defs script_simps Let_def testnet_hre_def testnet_js_def testnet_perform_def)
  from bonus_is_never_set [OF t] t show ?thesis by blast
qed

end
