(* ===== verification/Config_File.thy ===== *)
theory Config_File
  imports Core_Scripts Worker_Scripts
begin

text \<open>
  The configuration file and the configuration in memory.  Every script changes the object it
  imported from \<open>deploy/results\<close> and writes the whole object with \<open>FileService.write\<close>; the next script
  starts from the file.  This theory shows that a script that returns leaves the file equal to the
  object in memory, so that nothing recorded is lost between two scripts.
\<close>

section \<open>The file after a trace\<close>

definition results_file :: "'w hre \<Rightarrow> string" where
  "results_file H = ''./deploy/results/'' @ network_name H @ ''.json''"

fun file_step :: "string \<Rightarrow> config \<Rightarrow> request \<times> val result \<Rightarrow> config" where
  "file_step f d (WriteFile g c, Inr _) = (if g = f then c else d)"
| "file_step f d _ = d"

text \<open>\<open>d\<close> is the content of the file before the first request of the trace.\<close>

definition file_content :: "'w hre \<Rightarrow> config \<Rightarrow> 'w js \<Rightarrow> config" where
  "file_content H d s = foldl (file_step (results_file H)) d (trace s)"

definition synced :: "'w hre \<Rightarrow> config \<Rightarrow> 'w js \<Rightarrow> bool" where
  "synced H d s \<longleftrightarrow> file_content H d s = config_of H s"

section \<open>Triples for scripts that return\<close>

definition hoare :: "'w hre \<Rightarrow> ('w js \<Rightarrow> bool) \<Rightarrow> ('w, 'a) script \<Rightarrow> ('a \<Rightarrow> 'w js \<Rightarrow> bool) \<Rightarrow> bool" where
  "hoare H P m Q \<longleftrightarrow> (\<forall>s x t. P s \<longrightarrow> m H s = (Inr x, t) \<longrightarrow> Q x t)"

lemma hoare_bind: "hoare H P m R \<Longrightarrow> (\<And>x. hoare H (R x) (f x) Q) \<Longrightarrow> hoare H P (bindS m f) Q"
  by (auto simp: hoare_def bindS_Inr)

lemma hoare_then: "hoare H P m (\<lambda>_. R) \<Longrightarrow> hoare H R k Q \<Longrightarrow> hoare H P (thenS m k) Q"
  by (simp add: thenS_def hoare_bind)

lemma hoare_pre: "hoare H P' m Q \<Longrightarrow> (\<And>s. P s \<Longrightarrow> P' s) \<Longrightarrow> hoare H P m Q"
  unfolding hoare_def by blast

lemma hoare_ret: "hoare H (Q x) (retS x) Q"
  by (simp add: hoare_def retS_Inr)

lemma hoare_forS:
  assumes "\<And>x. x \<in> set xs \<Longrightarrow> hoare H I (f x) (\<lambda>_. I)"
  shows "hoare H I (forS f xs) (\<lambda>_. I)"
  using assms
proof (induction xs)
  case (Cons x xs)
  have "hoare H I (f x) (\<lambda>_. I)" "hoare H I (forS f xs) (\<lambda>_. I)" using Cons by simp_all
  then show ?case by (simp add: hoare_then)
qed (simp add: hoare_def retS_Inr)

section \<open>What the commands keep\<close>

text \<open>Facts about the configuration and the synchrony of the file survive a request.\<close>

definition kept :: "'w hre \<Rightarrow> config \<Rightarrow> (config \<Rightarrow> bool) \<Rightarrow> bool \<Rightarrow> 'w js \<Rightarrow> bool" where
  "kept H d C b s \<longleftrightarrow> C (config_of H s) \<and> (b \<longrightarrow> synced H d s)"

fun writes_file :: "request \<Rightarrow> bool" where
  "writes_file (WriteFile _ _) = True"
| "writes_file _ = False"

lemma file_content_ask:
  "\<not> writes_file r \<Longrightarrow> ask r H s = (v, t) \<Longrightarrow> file_content H d t = file_content H d s \<and> config_of H t = config_of H s"
  by (cases r) (auto simp: file_content_def dest: ask_config)

lemma keep_ask: "\<not> writes_file r \<Longrightarrow> hoare H (kept H d C b) (ask r) (\<lambda>_. kept H d C b)"
  unfolding hoare_def kept_def synced_def using file_content_ask by metis

lemma keep_ret: "hoare H (kept H d C b) (retS x) (\<lambda>_. kept H d C b)"
  by (rule hoare_ret)

lemma keep_throw: "hoare H P (throwS e) Q"
  by (simp add: hoare_def throwS_Inr)

lemma keep_askUnit: "\<not> writes_file r \<Longrightarrow> hoare H (kept H d C b) (askUnit r) (\<lambda>_. kept H d C b)"
  unfolding askUnit_def by (rule hoare_bind, rule keep_ask) (simp_all add: keep_ret)

lemma keep_askAddress: "\<not> writes_file r \<Longrightarrow> hoare H (kept H d C b) (askAddress r) (\<lambda>_. kept H d C b)"
  unfolding askAddress_def by (rule hoare_bind, rule keep_ask) (auto split: val.splits intro: keep_ret keep_throw)

lemma keep_askBig: "\<not> writes_file r \<Longrightarrow> hoare H (kept H d C b) (askBig r) (\<lambda>_. kept H d C b)"
  unfolding askBig_def by (rule hoare_bind, rule keep_ask) (auto split: val.splits intro: keep_ret keep_throw)

lemma keep_ether: "hoare H (kept H d C b) (ether e) (\<lambda>_. kept H d C b)"
  by (simp add: hoare_def ether_Inr)

lemma keep_hreS: "hoare H (kept H d C b) (hreS f) (\<lambda>_. kept H d C b)"
  by (simp add: hoare_def hreS_Inr)

lemma keep_getConfig: "hoare H (kept H d C b) getConfig (\<lambda>_. kept H d C b)"
  by (simp add: hoare_def getConfig_Inr)

lemma keep_vaultAt: "hoare H (kept H d C b) (vaultAt i) (\<lambda>_. kept H d C b)"
  by (auto simp: hoare_def vaultAt_Inr)

lemma keep_toNumber: "hoare H (kept H d C b) (toNumber n) (\<lambda>_. kept H d C b)"
  by (simp add: hoare_def toNumber_Inr)

text \<open>A change of the object puts the file out of step; a write puts it back.\<close>

lemma modify_then:
  assumes "hoare H (kept H d (\<lambda>_. True) False) k Q"
  shows "hoare H (kept H d C b) (thenS (modifyConfig f) k) Q"
  by (rule hoare_then [OF _ assms]) (simp add: hoare_def modifyConfig_Inr kept_def)

lemma write_syncs: "hoare H (kept H d C b) FileService_write (\<lambda>_. kept H d C True)"
proof -
  have "kept H d C True t"
    if "kept H d C b s" and w: "ask (WriteFile (results_file H) (config_of H s)) H s = (Inr v, t)" for s v t
    using that ask_config [OF w] by (simp add: kept_def synced_def file_content_def)
  then show ?thesis by (auto simp: hoare_def FileService_write_Inr results_file_def)
qed

lemma write_then: "hoare H (kept H d C True) k Q \<Longrightarrow> hoare H (kept H d C b) (thenS FileService_write k) Q"
  by (rule hoare_then [OF write_syncs])

lemma keep_bind: "hoare H I m (\<lambda>_. I) \<Longrightarrow> (\<And>x. hoare H I (f x) Q) \<Longrightarrow> hoare H I (bindS m f) Q"
  by (rule hoare_bind)

lemma keep_then: "hoare H I m (\<lambda>_. I) \<Longrightarrow> hoare H I k Q \<Longrightarrow> hoare H I (thenS m k) Q"
  by (rule hoare_then)

lemma not_writes:
  "\<not> writes_file (Deploy n vs)" "\<not> writes_file (GetDeployment n)" "\<not> writes_file (DeployProxy n vs b)"
  "\<not> writes_file (Send a f vs os)" "\<not> writes_file (View a f vs)" "\<not> writes_file (Sleep t)"
  by simp_all

text \<open>Applied in this order, the rules walk through a script.\<close>

lemmas file_rules = modify_then write_then write_syncs keep_then keep_bind hoare_forS keep_ret keep_throw
  keep_askUnit keep_askAddress keep_askBig keep_ether keep_hreS keep_getConfig keep_vaultAt keep_toNumber not_writes

text \<open>A script keeps the file: if it agreed with the object before, it does after.\<close>

abbreviation in_step :: "'w hre \<Rightarrow> config \<Rightarrow> 'w js \<Rightarrow> bool" where
  "in_step H d \<equiv> kept H d (\<lambda>_. True) True"

abbreviation keeps_file :: "'w hre \<Rightarrow> config \<Rightarrow> ('w, 'a) script \<Rightarrow> bool" where
  "keeps_file H d m \<equiv> hoare H (in_step H d) m (\<lambda>_. in_step H d)"

section \<open>The scripts\<close>

lemma core_scripts_keep:
  "keeps_file H d deploy_timelock" "keeps_file H d deploy_husky_and_fair_launch" "keeps_file H d deploy_slope_models"
  "keeps_file H d deploy_wnative_relayer" "keeps_file H d deploy_simple_oracle" "keeps_file H d deploy_worker_config"
  "keeps_file H d deploy_shared_strategies"
  unfolding deploy_timelock_def deploy_husky_and_fair_launch_def deploy_slope_models_def deploy_wnative_relayer_def
    deploy_simple_oracle_def deploy_worker_config_def deploy_shared_strategies_def deploy_named_def
    deployed_address_def whitelist_caller_def Let_def
  by (rule file_rules)+

lemma vault_config_scripts_keep: "keeps_file H d (deploy_vault_config S M)"
  unfolding deploy_vault_config_def by (rule file_rules)+

lemma vault_strategies_keep: "keeps_file H d deploy_vault_strategies"
  unfolding deploy_vault_strategies_def deploy_vault_strategy_def setVault_def by (rule file_rules)+

lemma keep_worker_rounds:
  "hoare H (kept H d (\<lambda>_. True) False) (worker_then_push i r) (\<lambda>_. kept H d (\<lambda>_. True) False)"
  "keeps_file H d (worker_linked_first i r)" "keeps_file H d (worker_recorded_first i r)"
proof -
  have link: "hoare H (kept H d C b) (link_worker r w) (\<lambda>_. kept H d C b)" for C b w
    unfolding link_worker_def
    by (rule hoare_forS, rule keep_askUnit) (auto simp: link_requests_def setWorkersOk_def)
  have not_writes': "\<not> writes_file (worker_request b r)" for b by (simp add: worker_request_def)
  show "hoare H (kept H d (\<lambda>_. True) False) (worker_then_push i r) (\<lambda>_. kept H d (\<lambda>_. True) False)"
    unfolding worker_then_push_def deploy_worker_def push_worker_def setVault_def
    by (rule keep_bind, rule keep_askAddress [OF not_writes'], rule keep_then, rule link)
      (simp add: hoare_def modifyConfig_Inr kept_def)
  show "keeps_file H d (worker_linked_first i r)" "keeps_file H d (worker_recorded_first i r)"
    unfolding worker_linked_first_def worker_recorded_first_def deploy_worker_def push_worker_def setVault_def
    by (rule link file_rules not_writes')+
qed

lemma worker_scripts_keep:
  "keeps_file H d (deploy_workers_then_write i table n)" "keeps_file H d (deploy_workers_linked_first i table n)"
  "keeps_file H d (deploy_workers_recorded_first i table n)"
proof -
  have "hoare H (in_step H d) (thenS (forS (worker_then_push i) rows) FileService_write) (\<lambda>_. in_step H d)" for rows
  proof (rule hoare_then [OF _ write_syncs])
    show "hoare H (in_step H d) (forS (worker_then_push i) rows) (\<lambda>_. kept H d (\<lambda>_. True) False)"
      by (rule hoare_pre [OF hoare_forS [OF keep_worker_rounds(1)]]) (simp add: kept_def)
  qed
  then show "keeps_file H d (deploy_workers_then_write i table n)"
    unfolding deploy_workers_then_write_def by (intro keep_bind keep_getConfig keep_vaultAt)
  show "keeps_file H d (deploy_workers_linked_first i table n)" "keeps_file H d (deploy_workers_recorded_first i table n)"
    unfolding deploy_workers_linked_first_def deploy_workers_recorded_first_def
    by (rule keep_worker_rounds file_rules)+
qed

text \<open>
  The vault scripts change the list of pools and write only where they find the entry of their vault:
  the entry they started from is still there, so they do write.
\<close>

definition has_entry :: "nat \<Rightarrow> string \<Rightarrow> config \<Rightarrow> bool" where
  "has_entry i SYM c \<longleftrightarrow> i < length (Vaults c) \<and> vault_symbol (Vaults c ! i) = SYM"

lemma keep_pushPool: "hoare H (kept H d (has_entry i SYM) b) (pushPool p) (\<lambda>_. kept H d (has_entry i SYM) False)"
  by (simp add: hoare_def pushPool_def modifyConfig_Inr kept_def has_entry_def)

lemma keep_add_pool:
  "hoare H (kept H d C b) (add_fair_launch_pool fl symb n tok) (\<lambda>_. kept H d C b)"
  unfolding add_fair_launch_pool_def by (rule file_rules)+

lemma record_loop_syncs:
  assumes "forS (record_step SYM f) js H s = (Inr u, t)"
    and "synced H d s \<or> (\<exists>j \<in> set js. has_entry j SYM (config_of H s))"
  shows "synced H d t"
  using assms
proof (induction js arbitrary: s)
  case Nil
  then show ?case by (simp add: retS_Inr)
next
  case (Cons j js)
  from Cons.prems(1) obtain x s1 where step: "record_step SYM f j H s = (Inr x, s1)"
    and rest: "forS (record_step SYM f) js H s1 = (Inr u, t)" by (auto simp: thenS_Inr)
  have "synced H d s1 \<or> (\<exists>j \<in> set js. has_entry j SYM (config_of H s1))"
  proof (cases "vault_symbol (Vaults (config_of H s) ! j) = SYM")
    case True
    then have "thenS (setVault j f) FileService_write H s = (Inr x, s1)"
      using step by (auto simp: record_step_def bindS_Inr vaultAt_Inr)
    moreover have "hoare H (kept H d (\<lambda>_. True) False) (thenS (setVault j f) FileService_write) (\<lambda>_. in_step H d)"
      unfolding setVault_def by (rule file_rules)+
    ultimately have "in_step H d s1" unfolding hoare_def by (metis kept_def)
    then show ?thesis by (simp add: kept_def)
  next
    case False
    then have "s1 = s" using step by (auto simp: record_step_def bindS_Inr vaultAt_Inr retS_Inr)
    with False Cons.prems(2) show ?thesis by (auto simp: has_entry_def)
  qed
  with Cons.IH [OF rest] show ?case by simp
qed

lemma record_vault_syncs:
  "hoare H (kept H d (has_entry i SYM) b) (record_vault SYM f) (\<lambda>_. in_step H d)"
  unfolding hoare_def
proof (intro allI impI)
  fix s x t
  assume "kept H d (has_entry i SYM) b s" and run: "record_vault SYM f H s = (Inr x, t)"
  then have "has_entry i SYM (config_of H s)" by (simp add: kept_def)
  then have found: "\<exists>j \<in> set [0 ..< length (Vaults (config_of H s))]. has_entry j SYM (config_of H s)"
    by (auto simp: has_entry_def)
  have loop: "forS (record_step SYM f) [0 ..< length (Vaults (config_of H s))] H s = (Inr x, t)"
    using run by (simp add: record_vault_def bindS_Inr getConfig_Inr)
  have "synced H d t" by (rule record_loop_syncs [OF loop disjI2 [OF found]])
  then show "in_step H d t" by (simp add: kept_def)
qed

lemma vault_scripts_keep: "keeps_file H d (deploy_vault i N a b tok)"
proof -
  have entry: "hoare H (in_step H d) (vaultAt i) (\<lambda>v. kept H d (has_entry i (vault_symbol v)) True)"
    by (auto simp: hoare_def vaultAt_Inr kept_def has_entry_def)
  show ?thesis
    unfolding deploy_vault_def Let_def
    by (rule record_vault_syncs hoare_bind [OF entry] keep_add_pool hoare_then [OF keep_pushPool] file_rules)+
qed

section \<open>Nothing is lost between scripts\<close>

definition recording_scripts :: "('w, unit) script list" where
  "recording_scripts =
     [deploy_timelock, deploy_husky_and_fair_launch, deploy_slope_models, deploy_wnative_relayer,
      deploy_simple_oracle, deploy_worker_config,
      deploy_vault_config_huski, deploy_vault_config_busd, deploy_vault_config_bnb, deploy_vault_config_usdt,
      deploy_vault_config_cake, deploy_vault_config_eth, deploy_vault_config_btcb, deploy_vault_config_usdc,
      deploy_vault_huski, deploy_vault_busd, deploy_vault_bnb, deploy_vault_usdt,
      deploy_vault_cake, deploy_vault_eth, deploy_vault_btcb, deploy_vault_usdc,
      deploy_shared_strategies, deploy_vault_strategies,
      deploy_workers_huski, deploy_workers_busd, deploy_workers_bnb, deploy_workers_usdt,
      deploy_workers_cake, deploy_workers_eth, deploy_workers_btcb, deploy_workers_usdc]"

lemma recording_scripts_keep: "m \<in> set recording_scripts \<Longrightarrow> keeps_file H d m"
  unfolding recording_scripts_def
  by (auto simp: deploy_vault_config_huski_def deploy_vault_config_busd_def deploy_vault_config_bnb_def
      deploy_vault_config_usdt_def deploy_vault_config_cake_def deploy_vault_config_eth_def
      deploy_vault_config_btcb_def deploy_vault_config_usdc_def deploy_vault_huski_def deploy_vault_busd_def
      deploy_vault_bnb_def deploy_vault_usdt_def deploy_vault_cake_def deploy_vault_eth_def deploy_vault_btcb_def
      deploy_vault_usdc_def deploy_workers_huski_def deploy_workers_busd_def deploy_workers_bnb_def
      deploy_workers_usdt_def deploy_workers_cake_def deploy_workers_eth_def deploy_workers_btcb_def
      deploy_workers_usdc_def core_scripts_keep vault_config_scripts_keep vault_scripts_keep vault_strategies_keep
      worker_scripts_keep)

text \<open>
  C34: The configuration file follows the object in memory: when the recording scripts, any of them in
  any order, have returned, and the file held the object's content before, then it holds it after: the
  last write is of the final object, with every address the scripts recorded.
\<close>

theorem file_follows_memory:
  assumes scripts: "set ms \<subseteq> set recording_scripts" and run: "forS (\<lambda>m. m) ms H s = (Inr (), t)"
    and before: "file_content H d s = config_of H s"
  shows "file_content H d t = config_of H t"
proof -
  have "hoare H (in_step H d) (forS (\<lambda>m. m) ms) (\<lambda>_. in_step H d)"
    by (rule hoare_forS) (use scripts recording_scripts_keep in blast)
  moreover have "in_step H d s" using before by (simp add: kept_def synced_def)
  ultimately have "in_step H d t" using run unfolding hoare_def by blast
  then show ?thesis by (simp add: kept_def synced_def)
qed

theorem file_follows_memory_witness:
  "\<exists>t. forS (\<lambda>m. m) [deploy_simple_oracle, deploy_worker_config] sample_hre sample_js = (Inr (), t) \<and>
    SimpleOracle (config_of sample_hre t) = '''' \<and>
    file_content sample_hre sample_config t = config_of sample_hre t"
proof -
  obtain t where t: "forS (\<lambda>m. m) [deploy_simple_oracle, deploy_worker_config] sample_hre sample_js = (Inr (), t)"
    "SimpleOracle (config_of sample_hre t) = ''''"
    by (simp add: deploy_simple_oracle_def deploy_worker_config_def script_simps sample_hre_def sample_js_def
        sample_perform_def config_of_def set_config_def)
  have "file_content sample_hre sample_config t = config_of sample_hre t"
    by (rule file_follows_memory [OF _ t(1)])
      (simp_all add: recording_scripts_def file_content_def sample_js_def config_of_def sample_hre_def)
  with t show ?thesis by blast
qed

end
