(* ===== verification/Setup_Scripts.thy ===== *)
theory Setup_Scripts
  imports Core_Scripts
begin

text \<open>
  The scripts of \<open>deploy/setup\<close> that send their transactions themselves: \<open>h001\<close> to \<open>h003\<close>, \<open>s002\<close> to
  \<open>s006\<close>, \<open>s008\<close> and \<open>s013\<close>, the test tokens and their liquidity.
\<close>

section \<open>Single transactions\<close>

definition set_feeder :: "('w, unit) script" where
  "set_feeder =
     (let FEEDER_ADDR = ''0x73d7f40c3adc7e6eb693a99a7a5d41757e0a8a74'' in
      bindS getConfig (\<lambda>config.
      askUnit (Send (SimpleOracle config) ''setFeeder(address)'' [Str FEEDER_ADDR] [])))"

text \<open>\<open>h002\<close> prints the names of \<open>config.Vaults[3]\<close> and of its third worker: a TypeError if there is none.\<close>

definition open_position :: "('w, unit) script" where
  "open_position =
     (let VAULT_ADDR = ''0xf9d32C5E10Dd51511894b360e6bD39D7573450F9'';
          WORKER_ADDR = ''0x937ADf954C878155B51aAd9d7b95D5C1C13fD315'';
          StrategyAddBaseTokenOnly_ADDR = ''0x2943b6fC64bDF5bD26E9DFeB9b35d1DBcbdE936C'' in
      bindS (vaultAt 3) (\<lambda>v.
      thenS (if 2 < length (vault_workers v) then retS () else throwS ''TypeError: Cannot read property of undefined'')
      (thenS (askUnit (Sleep 10000))
      (bindS (ether ''0.3'') (\<lambda>principal.
      bindS (ether ''0'') (\<lambda>borrow.
      bindS (resultS (\<lambda>H. abi_encode H [''uint256''] [Str ''0''])) (\<lambda>ext.
      bindS (resultS (\<lambda>H. abi_encode H [''address'', ''bytes''] [Str StrategyAddBaseTokenOnly_ADDR, ext])) (\<lambda>data.
      askUnit (Send VAULT_ADDR ''work(uint256,address,uint256,uint256,uint256,bytes)''
        [Num 0, Str WORKER_ADDR, principal, borrow, Str ''0'', data]
        [(''gasLimit'', Num 30000), (''gasPrice'', Num 10000000000)])))))))))"

definition set_basic_vault_config :: "('w, unit) script" where
  "set_basic_vault_config =
     (let VAULT_CONFIG_ADDR = ''0x2BE54c7feA2b0aF959a25B740d701eAa564Aa838'';
          RESERVE_POOL_BPS = ''1600''; CLOSE_PRIZE_BPS = ''4''; KILL_PRIZE_BPS = ''500'' in
      bindS getConfig (\<lambda>config.
      bindS (ether ''100'') (\<lambda>MIN_DEBT_SIZE.
      askUnit (Send VAULT_CONFIG_ADDR ''setParams(uint256,uint256,uint256,uint256,address,address,address,address)''
        [MIN_DEBT_SIZE, Str RESERVE_POOL_BPS, Str CLOSE_PRIZE_BPS, Str KILL_PRIZE_BPS,
         Str (HighInterestTripleSlopeModel config), Str (NativeAddress config), Str (WNativeRelayer config),
         Str (FairLaunch_address config)] []))))"

definition seed_wbnb_vault :: "('w, unit) script" where
  "seed_wbnb_vault =
     (let VAULT_ADDRESS = ''0x12A7a7130d9a4CF1D7E87F776C01BC230E5B3E17'' in
      bindS (ether ''1'') (\<lambda>MSG_VALUE.
      askUnit (Send VAULT_ADDRESS ''deposit(uint256)'' [MSG_VALUE] [(''value'', MSG_VALUE)])))"

text \<open>\<open>s003\<close>: the call is commented out.\<close>

definition set_params_in_vault_config :: "('w, unit) script" where
  "set_params_in_vault_config = bindS (ether ''1'') (\<lambda>MIN_DEBT_SIZE. retS ())"

definition transfer_ownership_to_timelock :: "('w, unit) script" where
  "transfer_ownership_to_timelock =
     (let TIMELOCK_ADDRESS = ''0x2D5408f2287BF9F9B05404794459a846651D0a59'' in
      forS (\<lambda>ownable. askUnit (Send ownable ''transferOwnership(address)'' [Str TIMELOCK_ADDRESS] []))
        [''0x6cc80Df354415fA0FfeF78555a06C1DdE7549FB8'', ''0x08FC9Ba2cAc74742177e0afC3dC8Aed6961c24e7''])"

definition add_pool_to_fair_launch :: "('w, unit) script" where
  "add_pool_to_fair_launch =
     (let FAIR_LAUNCH_ADDR = ''0x1e31E59da8BC065DB817db8A9cB066A76FafEE9D'';
          STAKING_TOKEN_ADDR = ''0xb9e6c485de9d56b6cbd481d497af56780798d2ce'';
          ALLOC_POINT = ''300''; SYMBOL = ''ibETH'' in
      askUnit (Send FAIR_LAUNCH_ADDR ''addPool(string,uint256,address,bool)''
        [Str SYMBOL, Str ALLOC_POINT, Str STAKING_TOKEN_ADDR, Bool False] [(''gasLimit'', Str ''10000000'')]))"

definition upgrade_fair_launch :: "('w, unit) script" where
  "upgrade_fair_launch =
     (let OLD_FAIR_LAUNCH_ADDRESS = ''0x598ea302a78d9660B2149b1A061277dFb665B89d'' in
      thenS (askUnit (GetFactory ''FairLaunch''))
      (bindS (askAddress (UpgradeProxy OLD_FAIR_LAUNCH_ADDRESS ''FairLaunch'')) (\<lambda>newFairLaunch.
      bindS (askBig (View newFairLaunch ''poolLength()'' [])) (\<lambda>_. retS ()))))"

definition add_worker_strategy :: "('w, unit) script" where
  "add_worker_strategy =
     (let WORKER_ADDR = ''0x7D0ea848563F5FA0Ae5C2aF2d8207C01Ea45B0D2'';
          STRATEGY_ADDRS = [''0xE38EBFE8F314dcaD61d5aDCB29c1A26F41BEd0Be'', ''0xE574dc08aa579720Dfacd70D3DAE883d29874599''] in
      askUnit (Send WORKER_ADDR ''setStrategyOk(address[],bool)'' [Arr (map Str STRATEGY_ADDRS), Bool True] []))"

section \<open>Test tokens and their liquidity\<close>

record test_pair =
  quoteToken :: string
  quoteTokenAddr :: string
  reserveQuoteToken :: val
  reserveBaseToken :: val

record test_token =
  token_symbol :: string
  token_name :: string
  token_address :: "string option"
  mintAmount :: "string option"
  token_pairs :: "test_pair list"

text \<open>\<open>toLowerCase\<close> of ASCII texts.\<close>

definition to_lower :: "string \<Rightarrow> string" where
  "to_lower = map (\<lambda>ch. if 65 \<le> (of_char ch :: nat) \<and> (of_char ch :: nat) \<le> 90 then char_of (of_char ch + 32 :: nat) else ch)"

record exchange_addresses =
  PANCAKE_MASTERCHEF :: string
  PANCAKE_FACTORY :: string
  PANCAKE_ROUTER :: string
  WBNB_ADDR :: string

definition token_of :: "test_token \<Rightarrow> ('w, string) script" where
  "token_of T = (case token_address T of
     None \<Rightarrow> askAddress (DeployProxy ''MockERC20'' [Str (token_name T), Str (token_symbol T)] True)
   | Some a \<Rightarrow> retS a)"

definition mint_tokens :: "string \<Rightarrow> test_token \<Rightarrow> ('w, unit) script" where
  "mint_tokens tok T = (case mintAmount T of
     None \<Rightarrow> retS ()
   | Some n \<Rightarrow> bindS (hreS deployer) (\<lambda>dep. askUnit (Send tok ''mint(address,uint256)'' [Str dep, Str n] [])))"

definition provide_liquidity :: "exchange_addresses \<Rightarrow> string \<Rightarrow> test_pair \<Rightarrow> ('w, unit) script" where
  "provide_liquidity E tok p =
     (let router = PANCAKE_ROUTER E; quote = quoteTokenAddr p in
      thenS (askUnit (Send (PANCAKE_FACTORY E) ''createPair(address,address)'' [Str tok, Str quote]
        [(''gasLimit'', Num 2000000)]))
      (thenS (if to_lower quote = to_lower (WBNB_ADDR E)
         then askUnit (Send (WBNB_ADDR E) ''deposit()'' [] [(''value'', reserveQuoteToken p)]) else retS ())
      (thenS (askUnit (Send tok ''approve(address,uint256)'' [Str router, reserveBaseToken p] []))
      (thenS (askUnit (Send quote ''approve(address,uint256)'' [Str router, reserveQuoteToken p] []))
      (bindS (hreS signer0) (\<lambda>signer.
      thenS (askUnit (Send router ''addLiquidity(address,address,uint256,uint256,uint256,uint256,address,uint256)''
        [Str tok, Str quote, reserveBaseToken p, reserveQuoteToken p, Str ''0'', Str ''0'', Str signer, Num FOREVER]
        [(''gasLimit'', Num 5000000)]))
      (bindS (askAddress (View (PANCAKE_FACTORY E) ''getPair(address,address)'' [Str tok, Str quote])) (\<lambda>lp.
      askUnit (Send (PANCAKE_MASTERCHEF E) ''add(uint256,address,bool)'' [Num 1000, Str lp, Bool True] [])))))))))"

definition deploy_test_token :: "exchange_addresses \<Rightarrow> test_token \<Rightarrow> ('w, unit) script" where
  "deploy_test_token E T =
     bindS (token_of T) (\<lambda>tok.
     thenS (mint_tokens tok T) (forS (provide_liquidity E tok) (token_pairs T)))"

definition deploy_test_tokens :: "exchange_addresses \<Rightarrow> test_token list \<Rightarrow> ('w, unit) script" where
  "deploy_test_tokens E TOKENS =
     thenS (askUnit (GetFactory ''MockERC20'')) (forS (deploy_test_token E) TOKENS)"

definition testnet_deploy_tokens_and_liquidity :: "('w, unit) script" where
  "testnet_deploy_tokens_and_liquidity =
     bindS (ether ''10000000'') (\<lambda>reserveQuote. bindS (ether ''148900000'') (\<lambda>reserveBase.
     deploy_test_tokens
       \<lparr>PANCAKE_MASTERCHEF = ''0xbCC50b0B0AFD19Ee83a6E79e6c01D51b16090A0B'',
        PANCAKE_FACTORY = ''0xda8EE87e2172d997a7fe05a83FC5c472B40FacCE'',
        PANCAKE_ROUTER = ''0x367633909278A3C91f4cB130D8e56382F00D1071'',
        WBNB_ADDR = ''0xDfb1211E2694193df5765d54350e1145FD2404A1''\<rparr>
       [\<lparr>token_symbol = ''CAKE'', token_name = ''CAKE'',
         token_address = Some ''0x7aBcA3B5f0Ca1da0eC05631d5788907D030D0a22'', mintAmount = None,
         token_pairs = [\<lparr>quoteToken = ''BUSD'', quoteTokenAddr = ''0x0266693F9Df932aD7dA8a9b44C2129Ce8a87E81f'',
           reserveQuoteToken = reserveQuote, reserveBaseToken = reserveBase\<rparr>]\<rparr>]))"

end
