(* ===== verification/Validate.thy ===== *)
theory Validate
  imports Core_Scripts
begin

text \<open>
  \<open>validate/validate_vaults_config.ts\<close> and \<open>validate/validate_oracles_config.ts\<close>: the operator's checks of a
  configuration file against the chain.  They only read; what they print of caught errors is the
  result of the model.
\<close>

section \<open>Assertions\<close>

text \<open>
  \<open>expect(a).to.be.eq(b)\<close>, with the matchers of hardhat-waffle: numerically when one side is a
  \<open>BigNumber\<close>, as JavaScript's \<open>===\<close> otherwise.  An assertion that fails throws.
\<close>

definition is_big :: "val \<Rightarrow> bool" where
  "is_big v = (case v of Big n \<Rightarrow> True | _ \<Rightarrow> False)"

definition chai_eq :: "val \<Rightarrow> val \<Rightarrow> bool" where
  "chai_eq a b \<longleftrightarrow> (if is_big a \<or> is_big b then canon a = canon b else a = b)"

definition expectEq :: "val \<Rightarrow> val \<Rightarrow> ('w, unit) script" where
  "expectEq a b = (if chai_eq a b then retS () else throwS ''AssertionError'')"

definition expectTrue :: "val \<Rightarrow> ('w, unit) script" where
  "expectTrue v = (if v = Bool True then retS () else throwS ''AssertionError'')"

text \<open>\<open>toLocaleLowerCase\<close> of a value: a TypeError on anything but a string.\<close>

definition lower_char :: "char \<Rightarrow> char" where
  "lower_char ch = (if 65 \<le> (of_char ch :: nat) \<and> (of_char ch :: nat) \<le> 90 then char_of (of_char ch + 32 :: nat) else ch)"

definition lowerS :: "val \<Rightarrow> ('w, val) script" where
  "lowerS v = (case v of Str t \<Rightarrow> retS (Str (map lower_char t)) | _ \<Rightarrow> throwS ''TypeError'')"

text \<open>\<open>try { m } catch (e) { console.log(e) }\<close>: the errors printed.\<close>

definition tryS :: "('w, unit) script \<Rightarrow> ('w, failure list) script" where
  "tryS m = (\<lambda>H s. case m H s of (Inl e, t) \<Rightarrow> (Inr [e], t) | (Inr u, t) \<Rightarrow> (Inr [], t))"

primrec collectS :: "('x \<Rightarrow> ('w, 'a list) script) \<Rightarrow> 'x list \<Rightarrow> ('w, 'a list) script" where
  "collectS f [] = retS []"
| "collectS f (x # xs) = bindS (f x) (\<lambda>a. bindS (collectS f xs) (\<lambda>b. retS (a @ b)))"

section \<open>Vaults\<close>

definition view :: "string \<Rightarrow> string \<Rightarrow> val list \<Rightarrow> ('w, val) script" where
  "view a f args = ask (View a f args)"

definition expect_strategy :: "string \<Rightarrow> string \<Rightarrow> ('w, unit) script" where
  "expect_strategy worker strategy =
     bindS (view worker ''okStrats(address)'' [Str strategy]) expectTrue"

definition check_worker :: "config \<Rightarrow> vault_entry \<Rightarrow> worker_entry \<Rightarrow> ('w, unit) script" where
  "check_worker config v w =
     (let worker = worker_address w in
      bindS (lowerS (Str (vault_address v))) (\<lambda>a.
      bindS (view worker ''operator()'' []) (\<lambda>op. bindS (lowerS op) (\<lambda>op.
      thenS (expectEq a op)
      (bindS (lowerS (vault_baseToken v)) (\<lambda>b.
      bindS (view worker ''baseToken()'' []) (\<lambda>tok. bindS (lowerS tok) (\<lambda>tok.
      thenS (expectEq b tok)
      (bindS (view worker ''pid()'' []) (\<lambda>pid.
      thenS (expectEq (Num (worker_pId w)) pid)
      (bindS (view worker ''baseToken()'' []) (\<lambda>tok.
      bindS (view (vault_address v) ''token()'' []) (\<lambda>vtok.
      thenS (expectEq tok vtok)
      (bindS (view worker ''fee()'' []) (\<lambda>fee.
      thenS (expectEq fee (Str ''9975''))
      (bindS (view worker ''feeDenom()'' []) (\<lambda>denom.
      thenS (expectEq denom (Str ''10000''))
      (forS (expect_strategy worker)
        [StrategyAddBaseTokenOnly config, StrategyLiquidate config, StrategyWithdrawMinimizeTrading config,
         StrategyPartialCloseLiquidate config, StrategyPartialCloseMinimizeTrading config,
         vault_StrategyAddTwoSidesOptimal v]))))))))))))))))))"

text \<open>
  The check of the owner: \<open>expect(await vault.owner(), config.Timelock)\<close> has no assertion after it,
  the second argument is the message of one.
\<close>

definition check_owner :: "vault_entry \<Rightarrow> ('w, unit) script" where
  "check_owner v = bindS (view (vault_address v) ''owner()'' []) (\<lambda>_. retS ())"

definition validate_vault :: "config \<Rightarrow> vault_entry \<Rightarrow> ('w, failure list) script" where
  "validate_vault config v =
     bindS (view (vault_config v) ''owner()'' []) (\<lambda>_.
     bindS (tryS (check_owner v)) (\<lambda>e.
     bindS (collectS (\<lambda>w. tryS (check_worker config v w)) (vault_workers v)) (\<lambda>es. retS (e @ es))))"

definition validate_vaults_config :: "('w, failure list) script" where
  "validate_vaults_config =
     bindS getConfig (\<lambda>config. collectS (validate_vault config) (drop 1 (Vaults config)))"

section \<open>Oracles\<close>

definition query_oracle_price :: "config \<Rightarrow> string \<Rightarrow> string \<Rightarrow> ('w, unit) script" where
  "query_oracle_price config token0 token1 =
     askUnit (View (SimpleOracle config) ''getPrice(address,address)'' [Str token0, Str token1])"

definition validate_oracle :: "config \<Rightarrow> lp_token \<Rightarrow> ('w, unit) script" where
  "validate_oracle config lp =
     bindS (askAddress (View (lp_address lp) ''token0()'' [])) (\<lambda>token0.
     bindS (askAddress (View (lp_address lp) ''token1()'' [])) (\<lambda>token1.
     query_oracle_price config token1 token0))"

definition validate_oracles_config :: "('w, unit) script" where
  "validate_oracles_config = bindS getConfig (\<lambda>config. forS (validate_oracle config) (LpTokens config))"

section \<open>What the check of the vaults reports\<close>

text \<open>A chain whose reads do not change while the check runs.\<close>

definition reads :: "'w hre \<Rightarrow> (string \<Rightarrow> string \<Rightarrow> val list \<Rightarrow> val) \<Rightarrow> bool" where
  "reads H chain \<longleftrightarrow> (\<forall>a f vs w. fst (perform H (View a f vs) w) = Inr (chain a f vs))"

definition same_text :: "val \<Rightarrow> val \<Rightarrow> bool" where
  "same_text a b = (case (a, b) of (Str x, Str y) \<Rightarrow> map lower_char x = map lower_char y | _ \<Rightarrow> False)"

text \<open>A worker agrees with its entry in the file.\<close>

definition worker_ok ::
  "(string \<Rightarrow> string \<Rightarrow> val list \<Rightarrow> val) \<Rightarrow> config \<Rightarrow> vault_entry \<Rightarrow> worker_entry \<Rightarrow> bool" where
  "worker_ok chain c v w \<longleftrightarrow>
     (let worker = worker_address w in
      same_text (Str (vault_address v)) (chain worker ''operator()'' []) \<and>
      same_text (vault_baseToken v) (chain worker ''baseToken()'' []) \<and>
      chai_eq (Num (worker_pId w)) (chain worker ''pid()'' []) \<and>
      chai_eq (chain worker ''baseToken()'' []) (chain (vault_address v) ''token()'' []) \<and>
      chai_eq (chain worker ''fee()'' []) (Str ''9975'') \<and> chai_eq (chain worker ''feeDenom()'' []) (Str ''10000'') \<and>
      (\<forall>strategy \<in> {StrategyAddBaseTokenOnly c, StrategyLiquidate c, StrategyWithdrawMinimizeTrading c,
         StrategyPartialCloseLiquidate c, StrategyPartialCloseMinimizeTrading c, vault_StrategyAddTwoSidesOptimal v}.
         chain worker ''okStrats(address)'' [Str strategy] = Bool True))"

definition bad_workers :: "(string \<Rightarrow> string \<Rightarrow> val list \<Rightarrow> val) \<Rightarrow> config \<Rightarrow> (vault_entry \<times> worker_entry) list" where
  "bad_workers chain c = concat (map (\<lambda>v. map (Pair v) (filter (\<lambda>w. \<not> worker_ok chain c v w) (vault_workers v)))
     (drop 1 (Vaults c)))"

lemma isl_bind: "isl (fst (bindS m f H s)) \<longleftrightarrow>
    (case fst (m H s) of Inl e \<Rightarrow> True | Inr x \<Rightarrow> isl (fst (f x H (snd (m H s)))))"
  by (auto simp: bindS_def split: prod.splits sum.splits)

lemma isl_then: "isl (fst (thenS m k H s)) \<longleftrightarrow> isl (fst (m H s)) \<or> isl (fst (k H (snd (m H s))))"
  by (auto simp: thenS_def isl_bind split: sum.splits)

lemma view_value: "reads H chain \<Longrightarrow> fst (view a f vs H s) = Inr (chain a f vs)"
  unfolding view_def ask_def reads_def by (metis (mono_tags) case_prod_beta fst_conv)

lemma isl_ret: "fst (retS x H s) = Inr x"
  by (simp add: retS_def)

lemma isl_expect: "isl (fst (expectEq a b H s)) \<longleftrightarrow> \<not> chai_eq a b" "isl (fst (expectTrue v H s)) \<longleftrightarrow> v \<noteq> Bool True"
  by (simp_all add: expectEq_def expectTrue_def retS_def throwS_def)

lemma isl_lower_bind:
  "isl (fst (bindS (lowerS v) f H s)) \<longleftrightarrow> (case v of Str t \<Rightarrow> isl (fst (f (Str (map lower_char t)) H s)) | _ \<Rightarrow> True)"
  by (cases v) (simp_all add: lowerS_def bindS_def retS_def throwS_def)

lemma isl_view_bind:
  "reads H chain \<Longrightarrow> isl (fst (bindS (view a f vs) g H s)) \<longleftrightarrow> isl (fst (g (chain a f vs) H (snd (view a f vs H s))))"
  by (simp add: isl_bind view_value)

lemma expect_strategies:
  "reads H chain \<Longrightarrow> isl (fst (forS (expect_strategy worker) ss H s)) \<longleftrightarrow>
     (\<exists>st \<in> set ss. chain worker ''okStrats(address)'' [Str st] \<noteq> Bool True)"
  by (induction ss arbitrary: s) (auto simp: isl_then isl_ret expect_strategy_def isl_view_bind isl_expect)

lemma chai_eq_text: "chai_eq (Str a) (Str b) \<longleftrightarrow> a = b"
  by (simp add: chai_eq_def is_big_def)

lemma check_worker_fails: "reads H chain \<Longrightarrow> isl (fst (check_worker c v w H s)) \<longleftrightarrow> \<not> worker_ok chain c v w"
proof -
  assume R: "reads H chain"
  show ?thesis
    unfolding check_worker_def Let_def
    by (cases "vault_baseToken v"; cases "chain (worker_address w) ''operator()'' []";
        cases "chain (worker_address w) ''baseToken()'' []")
      (simp_all add: isl_lower_bind isl_view_bind [OF R] isl_then isl_expect expect_strategies [OF R]
        worker_ok_def same_text_def Let_def chai_eq_text del: forS.simps)
qed

lemma tryS_value: "\<exists>t. tryS m H s = (Inr (if isl (fst (m H s)) then [projl (fst (m H s))] else []), t)"
  by (cases "m H s"; cases "fst (m H s)") (auto simp: tryS_def)

text \<open>A collection whose rounds return lists of known length.\<close>

lemma collectS_length:
  assumes "\<And>x s. x \<in> set xs \<Longrightarrow> \<exists>es t. f x H s = (Inr es, t) \<and> length es = n x"
  shows "\<exists>es t. collectS f xs H s = (Inr es, t) \<and> length es = sum_list (map n xs)"
  using assms
proof (induction xs arbitrary: s)
  case (Cons x xs)
  obtain es t where x: "f x H s = (Inr es, t)" "length es = n x" using Cons.prems [of x s] by auto
  obtain fs u where xs: "collectS f xs H t = (Inr fs, u)" "length fs = sum_list (map n xs)"
    using Cons.IH [of t] Cons.prems by auto
  with x show ?case by (simp add: bindS_def retS_def)
qed (simp add: retS_def)

lemma check_worker_report:
  "reads H chain \<Longrightarrow> \<exists>es t. tryS (check_worker c v w) H s = (Inr es, t) \<and> length es = (if worker_ok chain c v w then 0 else 1)"
  using tryS_value [of "check_worker c v w" H s] check_worker_fails [of H chain c v w s] by auto

lemma validate_vault_report:
  assumes R: "reads H chain"
  shows "\<exists>es t. validate_vault c v H s = (Inr es, t) \<and>
    length es = length (filter (\<lambda>w. \<not> worker_ok chain c v w) (vault_workers v))"
proof -
  obtain s1 where 1: "view (vault_config v) ''owner()'' [] H s = (Inr (chain (vault_config v) ''owner()'' []), s1)"
    using view_value [OF R] by (metis prod.collapse)
  have "\<not> isl (fst (check_owner v H s1))" by (simp add: check_owner_def isl_view_bind [OF R] isl_ret)
  then obtain s2 where 2: "tryS (check_owner v) H s1 = (Inr [], s2)" using tryS_value [of "check_owner v" H s1] by auto
  obtain es t where "collectS (\<lambda>w. tryS (check_worker c v w)) (vault_workers v) H s2 = (Inr es, t)"
    "length es = sum_list (map (\<lambda>w. if worker_ok chain c v w then 0 else 1) (vault_workers v))"
    using collectS_length [of "vault_workers v" "\<lambda>w. tryS (check_worker c v w)" H
        "\<lambda>w. if worker_ok chain c v w then 0 else 1" s2] check_worker_report [OF R] by blast
  moreover have "sum_list (map (\<lambda>w. if worker_ok chain c v w then 0 else 1) ws) =
      length (filter (\<lambda>w. \<not> worker_ok chain c v w) ws)" for ws by (induction ws) auto
  ultimately show ?thesis using 1 2 by (simp add: validate_vault_def bindS_def retS_def)
qed

lemma length_bad_workers:
  "length (bad_workers chain c) =
    sum_list (map (\<lambda>v. length (filter (\<lambda>w. \<not> worker_ok chain c v w) (vault_workers v))) (drop 1 (Vaults c)))"
  by (simp add: bad_workers_def length_concat o_def)

text \<open>
  The check of the vaults is exact about workers and blind to owners: on a chain whose reads do not
  change it runs to its end and prints one error for each worker, of the vaults after the first, that
  disagrees with its entry (vault, base token, pool id, fees, approved strategies) and no other,
  whoever owns the vaults and their configurations.
\<close>

theorem validation_reports_bad_workers:
  assumes "reads H chain"
  shows "\<exists>es t. validate_vaults_config H s = (Inr es, t) \<and>
    length es = length (bad_workers chain (config_of H s)) \<and>
    (\<forall>owner. bad_workers (\<lambda>a f vs. if f = ''owner()'' then owner a else chain a f vs) (config_of H s) =
       bad_workers chain (config_of H s))"
proof -
  let ?c = "config_of H s"
  let ?bad = "\<lambda>v. length (filter (\<lambda>w. \<not> worker_ok chain ?c v w) (vault_workers v))"
  obtain es t where "collectS (validate_vault ?c) (drop 1 (Vaults ?c)) H s = (Inr es, t)"
    "length es = sum_list (map ?bad (drop 1 (Vaults ?c)))"
    using collectS_length [of "drop 1 (Vaults ?c)" "validate_vault ?c" H ?bad s] validate_vault_report [OF assms] by blast
  then have "validate_vaults_config H s = (Inr es, t)" "length es = length (bad_workers chain ?c)"
    by (simp_all add: validate_vaults_config_def bindS_def getConfig_def length_bad_workers)
  moreover have "worker_ok (\<lambda>a f vs. if f = ''owner()'' then owner a else chain a f vs) c v w = worker_ok chain c v w"
    for owner c v w by (simp add: worker_ok_def Let_def)
  ultimately show ?thesis by (simp add: bad_workers_def)
qed

text \<open>A chain with one vault to check, whose only worker charges the wrong fee.\<close>

definition sample_chain :: "string \<Rightarrow> string \<Rightarrow> val list \<Rightarrow> val" where
  "sample_chain a f vs = (if f = ''operator()'' then Str ''v'' else if f = ''fee()'' then Big 9970
     else if f = ''feeDenom()'' then Big 10000 else if f = ''pid()'' then Big 7
     else if f = ''okStrats(address)'' then Bool True else Str ''b'')"

definition chain_hre :: "unit hre" where
  "chain_hre = \<lparr>network_name = ''mainnet'', deployer = ''d'', signer0 = ''d'',
     perform = (\<lambda>q w. (case q of View a f vs \<Rightarrow> Inr (sample_chain a f vs) | _ \<Rightarrow> Inr Undef, w)),
     parseEther = (\<lambda>_. Inr (Big 1)), abi_encode = (\<lambda>_ vs. Inr (Arr vs))\<rparr>"

definition chain_vault :: vault_entry where
  "chain_vault = (hd (Vaults sample_config))\<lparr>vault_address := ''V'', vault_baseToken := Str ''B'',
     vault_workers := [\<lparr>worker_name = ''w'', worker_address = ''W'', worker_config = ''C'', worker_pId = 7\<rparr>]\<rparr>"

definition chain_js :: "unit js" where
  "chain_js = \<lparr>world = (), MainnetConfig = sample_config\<lparr>Vaults := [chain_vault, chain_vault]\<rparr>,
     TestnetConfig = sample_config, trace = [], printed = []\<rparr>"

theorem validation_reports_bad_workers_witness:
  "\<exists>e t. validate_vaults_config chain_hre chain_js = (Inr [e], t)"
proof -
  have "reads chain_hre sample_chain" by (simp add: reads_def chain_hre_def)
  moreover have "length (bad_workers sample_chain (config_of chain_hre chain_js)) = 1"
    by (simp add: bad_workers_def chain_js_def chain_hre_def config_of_def chain_vault_def worker_ok_def Let_def
        same_text_def sample_chain_def lower_char_def chai_eq_def is_big_def decimal_def is_digit_def)
  ultimately show ?thesis
    using validation_reports_bad_workers [of chain_hre sample_chain chain_js] by (auto simp: length_Suc_conv)
qed

end
