(* ===== verification/Vault_Contract.thy ===== *)
theory Vault_Contract
  imports Vault_Guards
begin

text \<open>
  \<open>contracts/6/protocol/Vault.sol\<close>: lenders deposit a token for shares of the vault, farmers open leveraged
  positions with loans from it, and positions whose debt is too large for their value are killed.

  Calls out of the vault can call back into it.  The answer of an external call is a tree (\<open>run\<close>): the
  world after the call, a revert, or a call back with what happens after it, which may depend on the
  outcome and on the vault as it then is.  \<open>outcome\<close> plays the tree against a handler of calls back, and
  \<open>perform\<close> ties the knot: its first argument bounds the depth of nested calls (1024 on the chain), beyond
  which a call reverts.  OpenZeppelin's bases of the contract (ERC20, Ownable, ReentrancyGuard), its
  EnumerableSet and SafeMath are fields of the parameter \<open>vault_ext\<close>, with the laws \<open>base_ok\<close>; the bases
  keep a state of any type \<open>'b\<close>.  Events are left out.
\<close>

section \<open>State\<close>

type_synonym call_data = "8 word list"

record position =
  pos_worker :: address
  pos_owner :: address
  debtShare :: nat
  serialCode :: nat
  blockNumber :: nat

record 'b vault =
  IN_EXEC_LOCK :: nat
  POSITION_ID :: nat
  STRATEGY :: address
  vaultToken :: address
  debtToken :: address
  vaultConfig :: address
  positions :: "nat \<Rightarrow> position"
  holderPositions :: "address \<Rightarrow> nat list"
  nextPositionID :: nat
  fairLaunchPoolId :: nat
  vaultDebtShare :: nat
  vaultDebtVal :: nat
  lastAccrueTime :: nat
  reservePool :: nat
  vault_base :: 'b

definition NOT_ENTERED :: nat where "NOT_ENTERED = 1"
definition ENTERED :: nat where "ENTERED = 2"
definition NO_ID :: nat where "NO_ID = uint_max"
definition NO_ADDRESS :: address where "NO_ADDRESS = ''0x0000000000000000000000000000000000000001''"

definition no_position :: position where
  "no_position = \<lparr>pos_worker = zero_address, pos_owner = zero_address, debtShare = 0, serialCode = 0, blockNumber = 0\<rparr>"

record vault_msg = msg +
  tx_origin :: address
  msg_value :: nat

section \<open>Calls\<close>

text \<open>The external functions of the vault; \<open>Inherited\<close> are those of its bases.\<close>

datatype vault_op = Deposit nat | Withdraw nat | RequestFunds address nat | InjectSerialCode nat
  | Work nat address nat nat nat call_data | Kill nat | UpdateConfig address
  | UpdateDebtToken address nat | SetFairLaunchPoolId nat | WithdrawReserve address nat
  | ReduceReserve nat | Inherited call_data

text \<open>The calls the vault makes that may change the world.\<close>

datatype out_call = TransferFrom address address address nat | Transfer address address nat
  | Approve address address nat | WethDeposit address nat | RelayerWithdraw address nat
  | SendETH address nat | WorkerWork address nat address nat call_data | WorkerLiquidate address nat
  | DebtMint address address nat | DebtBurn address address nat
  | FairLaunchDeposit address address nat nat | FairLaunchWithdraw address address nat nat
  | SetOkHolders address "address list" bool

datatype ('b, 'x) run = Finished 'x | Reverted string
  | CallsBack address nat vault_op 'x "('b vault \<times> 'x) result \<Rightarrow> ('b, 'x) run"

type_synonym ('b, 'x) vault_state = "'b vault \<times> 'x"
type_synonym ('b, 'x) handler =
  "address \<Rightarrow> nat \<Rightarrow> vault_op \<Rightarrow> ('b, 'x) vault_state \<Rightarrow> ('b, 'x) vault_state result"

primrec outcome :: "('b, 'x) run \<Rightarrow> ('b, 'x) handler \<Rightarrow> 'b vault \<Rightarrow> ('b, 'x) vault_state result" where
  "outcome (Finished x) h s = Inr (s, x)"
| "outcome (Reverted e) h s = Inl (Revert e)"
| "outcome (CallsBack a v c x k) h s =
     (let r = h a v c (s, x) in outcome (k r) h (case r of Inl e \<Rightarrow> s | Inr (s', x') \<Rightarrow> s'))"

text \<open>\<open>IVaultConfig\<close>, read-only, and the parameter of the model.\<close>

record 'x ivault_config =
  vc_minDebtSize :: "'x \<Rightarrow> nat result"
  vc_getInterestRate :: "nat \<Rightarrow> nat \<Rightarrow> 'x \<Rightarrow> nat result"
  vc_getWrappedNativeAddr :: "'x \<Rightarrow> address result"
  vc_getWNativeRelayer :: "'x \<Rightarrow> address result"
  vc_getFairLaunchAddr :: "'x \<Rightarrow> address result"
  vc_getReservePoolBps :: "'x \<Rightarrow> nat result"
  vc_getCloseBps :: "'x \<Rightarrow> nat result"
  vc_getKillBps :: "'x \<Rightarrow> nat result"
  vc_isWorker :: "address \<Rightarrow> 'x \<Rightarrow> bool result"
  vc_acceptDebt :: "address \<Rightarrow> 'x \<Rightarrow> bool result"
  vc_workFactor :: "address \<Rightarrow> nat \<Rightarrow> 'x \<Rightarrow> nat result"
  vc_killFactor :: "address \<Rightarrow> nat \<Rightarrow> 'x \<Rightarrow> nat result"

record ('b, 'x) vault_ext =
  v_math :: safe_math
  v_config_at :: "address \<Rightarrow> 'x ivault_config"
  v_balanceOf :: "address \<Rightarrow> address \<Rightarrow> 'x \<Rightarrow> nat result"
  v_health :: "address \<Rightarrow> nat \<Rightarrow> 'x \<Rightarrow> nat result"
  v_decode_strategy :: "call_data \<Rightarrow> address result"
  v_set_add :: "nat \<Rightarrow> nat list \<Rightarrow> nat list"
  v_call :: "'b vault \<Rightarrow> out_call \<Rightarrow> 'x \<Rightarrow> ('b, 'x) run"
  v_enter :: "'b \<Rightarrow> 'b result"
  v_leave :: "'b \<Rightarrow> 'b"
  v_isOwner :: "address \<Rightarrow> 'b \<Rightarrow> bool"
  v_totalSupply :: "'b \<Rightarrow> nat"
  v_mint :: "address \<Rightarrow> nat \<Rightarrow> 'b \<Rightarrow> 'b result"
  v_burn :: "address \<Rightarrow> nat \<Rightarrow> 'b \<Rightarrow> 'b result"
  v_inherited :: "address \<Rightarrow> call_data \<Rightarrow> 'b \<Rightarrow> 'b result"

text \<open>
  The documented behaviour of the bases, with \<open>E\<close> telling whether the reentrancy guard is entered: the guard
  admits one call at a time, minting and burning change the supply by the amount, and the public
  functions of the bases change neither.
\<close>

definition base_ok :: "('b, 'x) vault_ext \<Rightarrow> ('b \<Rightarrow> bool) \<Rightarrow> bool" where
  "base_ok X E \<longleftrightarrow> (\<forall>b b' a n d.
     (v_enter X b = Inr b' \<longrightarrow> \<not> E b \<and> E b' \<and> v_totalSupply X b' = v_totalSupply X b) \<and>
     v_totalSupply X (v_leave X b) = v_totalSupply X b \<and>
     (v_mint X a n b = Inr b' \<longrightarrow> E b' = E b \<and> v_totalSupply X b' = v_totalSupply X b + n) \<and>
     (v_burn X a n b = Inr b' \<longrightarrow> E b' = E b \<and> v_totalSupply X b' + n = v_totalSupply X b) \<and>
     (v_inherited X a d b = Inr b' \<longrightarrow> E b' = E b \<and> v_totalSupply X b' = v_totalSupply X b))"

definition external ::
  "('b, 'x) vault_ext \<Rightarrow> ('b, 'x) handler \<Rightarrow> out_call \<Rightarrow> ('b, 'x) vault_state \<Rightarrow> ('b, 'x) vault_state result" where
  "external X h c = (\<lambda>(s, x). outcome (v_call X s c x) h s)"

text \<open>A call through \<open>SafeToken\<close>, whose error replaces that of the token.\<close>

definition safely :: "string \<Rightarrow> 'a result \<Rightarrow> 'a result" where
  "safely msg r = (case r of Inl e \<Rightarrow> Inl (Revert msg) | Inr y \<Rightarrow> Inr y)"

definition safe_transfer where
  "safe_transfer X h tok to amount st = safely ''!safeTransfer'' (external X h (Transfer tok to amount) st)"

definition safe_transferFrom where
  "safe_transferFrom X h tok from to amount st =
     safely ''!safeTransferFrom'' (external X h (TransferFrom tok from to amount) st)"

definition safe_approve where
  "safe_approve X h tok to amount st = safely ''!safeApprove'' (external X h (Approve tok to amount) st)"

definition safe_transferETH where
  "safe_transferETH X h to amount st = safely ''!safeTransferETH'' (external X h (SendETH to amount) st)"

definition vault_config_of :: "('b, 'x) vault_ext \<Rightarrow> 'b vault \<Rightarrow> 'x ivault_config" where
  "vault_config_of X s = v_config_at X (vaultConfig s)"

section \<open>Modifiers\<close>

definition onlyEOA :: "vault_msg \<Rightarrow> unit result" where
  "onlyEOA m = require (sender m = tx_origin m) ''Vault::onlyEoa: not eoa''"

definition onlyOwner :: "('b, 'x) vault_ext \<Rightarrow> vault_msg \<Rightarrow> 'b vault \<Rightarrow> unit result" where
  "onlyOwner X m s = require (v_isOwner X (sender m) (vault_base s)) ''Ownable: caller is not the owner''"

definition transferTokenToVault ::
  "('b, 'x) vault_ext \<Rightarrow> ('b, 'x) handler \<Rightarrow> vault_msg \<Rightarrow> nat \<Rightarrow> ('b, 'x) vault_state \<Rightarrow> ('b, 'x) vault_state result" where
  "transferTokenToVault X h m amount = (\<lambda>(s, x).
     if msg_value m \<noteq> 0
     then bindE (vc_getWrappedNativeAddr (vault_config_of X s) x) (\<lambda>wrapped.
          bindE (require (vaultToken s = wrapped) ''Vault::transferTokenToVault: baseToken is not wNative'') (\<lambda>_.
          bindE (require (amount = msg_value m) ''Vault::transferTokenToVault: value != msg.value'') (\<lambda>_.
          external X h (WethDeposit wrapped (msg_value m)) (s, x))))
     else safe_transferFrom X h (vaultToken s) (sender m) (this m) amount (s, x))"

definition inExec ::
  "vault_msg \<Rightarrow> (('b, 'x) vault_state \<Rightarrow> ('b, 'x) vault_state result) \<Rightarrow> ('b, 'x) vault_state \<Rightarrow> ('b, 'x) vault_state result" where
  "inExec m body = (\<lambda>(s, x).
     bindE (require (POSITION_ID s \<noteq> NO_ID) ''Vault::inExec: not within execution scope'') (\<lambda>_.
     bindE (require (STRATEGY s = sender m) ''Vault::inExec: not from the strategy'') (\<lambda>_.
     bindE (require (IN_EXEC_LOCK s = NOT_ENTERED) ''Vault::inExec: in exec lock'') (\<lambda>_.
     bindE (body (s\<lparr>IN_EXEC_LOCK := ENTERED\<rparr>, x)) (\<lambda>(s, x).
     Inr (s\<lparr>IN_EXEC_LOCK := NOT_ENTERED\<rparr>, x))))))"

definition nonReentrant ::
  "('b, 'x) vault_ext \<Rightarrow> (('b, 'x) vault_state \<Rightarrow> ('b, 'x) vault_state result) \<Rightarrow> ('b, 'x) vault_state \<Rightarrow> ('b, 'x) vault_state result" where
  "nonReentrant X body = (\<lambda>(s, x).
     bindE (v_enter X (vault_base s)) (\<lambda>b.
     bindE (body (s\<lparr>vault_base := b\<rparr>, x)) (\<lambda>(s, x).
     Inr (s\<lparr>vault_base := v_leave X (vault_base s)\<rparr>, x))))"

section \<open>Interest and shares\<close>

definition pendingInterest :: "('b, 'x) vault_ext \<Rightarrow> vault_msg \<Rightarrow> nat \<Rightarrow> ('b, 'x) vault_state \<Rightarrow> nat result" where
  "pendingInterest X m amount = (\<lambda>(s, x). let M = v_math X in
     if block_timestamp m > lastAccrueTime s
     then bindE (sm_sub M (block_timestamp m) (lastAccrueTime s)) (\<lambda>timePast.
          bindE (bindE (v_balanceOf X (vaultToken s) (this m) x) (\<lambda>b. sm_sub M b amount)) (\<lambda>balance.
          bindE (vc_getInterestRate (vault_config_of X s) (vaultDebtVal s) balance x) (\<lambda>ratePerSec.
          bindE (sm_mul M ratePerSec (vaultDebtVal s)) (\<lambda>p.
          bindE (sm_mul M p timePast) (\<lambda>p. sm_div M p (10 ^ 18))))))
     else Inr 0)"

definition accrue ::
  "('b, 'x) vault_ext \<Rightarrow> vault_msg \<Rightarrow> nat \<Rightarrow> ('b, 'x) vault_state \<Rightarrow> ('b, 'x) vault_state result" where
  "accrue X m amount = (\<lambda>(s, x). let M = v_math X in
     if block_timestamp m > lastAccrueTime s
     then bindE (pendingInterest X m amount (s, x)) (\<lambda>interest.
          bindE (bindE (vc_getReservePoolBps (vault_config_of X s) x) (sm_mul M interest)) (\<lambda>p.
          bindE (sm_div M p 10000) (\<lambda>toReserve.
          bindE (sm_add M (reservePool s) toReserve) (\<lambda>reserve.
          bindE (sm_add M (vaultDebtVal s) interest) (\<lambda>debt.
          Inr (s\<lparr>reservePool := reserve, vaultDebtVal := debt, lastAccrueTime := block_timestamp m\<rparr>, x))))))
     else Inr (s, x))"

definition debtShareToVal :: "safe_math \<Rightarrow> 'b vault \<Rightarrow> nat \<Rightarrow> nat result" where
  "debtShareToVal M s share = (if vaultDebtShare s = 0 then Inr share
     else bindE (sm_mul M share (vaultDebtVal s)) (\<lambda>p. sm_div M p (vaultDebtShare s)))"

definition debtValToShare :: "safe_math \<Rightarrow> 'b vault \<Rightarrow> nat \<Rightarrow> nat result" where
  "debtValToShare M s debtVal = (if vaultDebtShare s = 0 then Inr debtVal
     else bindE (sm_mul M debtVal (vaultDebtShare s)) (\<lambda>p. sm_div M p (vaultDebtVal s)))"

definition positionInfo :: "('b, 'x) vault_ext \<Rightarrow> nat \<Rightarrow> ('b, 'x) vault_state \<Rightarrow> (nat \<times> nat) result" where
  "positionInfo X pid = (\<lambda>(s, x).
     bindE (v_health X (pos_worker (positions s pid)) pid x) (\<lambda>health.
     bindE (debtShareToVal (v_math X) s (debtShare (positions s pid))) (\<lambda>debt. Inr (health, debt))))"

definition positionsOfOwner :: "'b vault \<Rightarrow> address \<Rightarrow> nat list" where
  "positionsOfOwner s a = map (\<lambda>i. holderPositions s a ! i) [0 ..< length (holderPositions s a)]"

definition totalToken :: "('b, 'x) vault_ext \<Rightarrow> vault_msg \<Rightarrow> ('b, 'x) vault_state \<Rightarrow> nat result" where
  "totalToken X m = (\<lambda>(s, x). let M = v_math X in
     bindE (v_balanceOf X (vaultToken s) (this m) x) (\<lambda>b.
     bindE (sm_add M b (vaultDebtVal s)) (\<lambda>t. sm_sub M t (reservePool s))))"

definition totalSupply :: "('b, 'x) vault_ext \<Rightarrow> 'b vault \<Rightarrow> nat" where
  "totalSupply X s = v_totalSupply X (vault_base s)"

section \<open>Lenders\<close>

definition deposit_internal ::
  "('b, 'x) vault_ext \<Rightarrow> vault_msg \<Rightarrow> nat \<Rightarrow> ('b, 'x) vault_state \<Rightarrow> ('b, 'x) vault_state result" where
  "deposit_internal X m amountToken = (\<lambda>(s, x). let M = v_math X in
     bindE (bindE (totalToken X m (s, x)) (\<lambda>t. sm_sub M t amountToken)) (\<lambda>total.
     bindE (if total = 0 then Inr amountToken
            else bindE (sm_mul M amountToken (totalSupply X s)) (\<lambda>p. sm_div M p total)) (\<lambda>share.
     bindE (v_mint X (sender m) share (vault_base s)) (\<lambda>b.
     let s = s\<lparr>vault_base := b\<rparr> in
     bindE (require (totalSupply X s > 10 ^ 17) ''Vault::deposit: no tiny shares'') (\<lambda>_. Inr (s, x))))))"

definition vault_deposit where
  "vault_deposit X h m amountToken st =
     bindE (transferTokenToVault X h m amountToken st) (\<lambda>st.
     bindE (accrue X m amountToken st) (\<lambda>st.
     nonReentrant X (deposit_internal X m amountToken) st))"

definition smartSafeTransfer ::
  "('b, 'x) vault_ext \<Rightarrow> ('b, 'x) handler \<Rightarrow> address \<Rightarrow> nat \<Rightarrow> ('b, 'x) vault_state \<Rightarrow> ('b, 'x) vault_state result" where
  "smartSafeTransfer X h recipient amount = (\<lambda>(s, x).
     bindE (vc_getWrappedNativeAddr (vault_config_of X s) x) (\<lambda>wrapped.
     if vaultToken s = wrapped
     then bindE (vc_getWNativeRelayer (vault_config_of X s) x) (\<lambda>relayer.
          bindE (safe_transfer X h (vaultToken s) relayer amount (s, x)) (\<lambda>(s, x).
          bindE (vc_getWNativeRelayer (vault_config_of X s) x) (\<lambda>relayer.
          bindE (external X h (RelayerWithdraw relayer amount) (s, x)) (\<lambda>st.
          safe_transferETH X h recipient amount st))))
     else safe_transfer X h (vaultToken s) recipient amount (s, x)))"

text \<open>The tokens a share is worth.\<close>

definition withdraw_amount :: "('b, 'x) vault_ext \<Rightarrow> vault_msg \<Rightarrow> nat \<Rightarrow> ('b, 'x) vault_state \<Rightarrow> nat result" where
  "withdraw_amount X m share = (\<lambda>(s, x).
     bindE (bindE (totalToken X m (s, x)) (sm_mul (v_math X) share)) (\<lambda>p. sm_div (v_math X) p (totalSupply X s)))"

definition withdraw_body where
  "withdraw_body X h m share = (\<lambda>(s, x).
     bindE (withdraw_amount X m share (s, x)) (\<lambda>amount.
     bindE (v_burn X (sender m) share (vault_base s)) (\<lambda>b.
     bindE (smartSafeTransfer X h (sender m) amount (s\<lparr>vault_base := b\<rparr>, x)) (\<lambda>(s, x).
     bindE (require (totalSupply X s > 10 ^ 17) ''Vault::withdraw: no tiny shares'') (\<lambda>_. Inr (s, x))))))"

definition vault_withdraw where
  "vault_withdraw X h m share st = bindE (accrue X m 0 st) (nonReentrant X (withdraw_body X h m share))"

section \<open>Strategies\<close>

definition requestFunds where
  "requestFunds X h m targetedToken amount =
     inExec m (\<lambda>(s, x). safe_transferFrom X h targetedToken (pos_owner (positions s (POSITION_ID s))) (sender m) amount (s, x))"

definition setPosition :: "nat \<Rightarrow> (position \<Rightarrow> position) \<Rightarrow> 'b vault \<Rightarrow> 'b vault" where
  "setPosition pid f s = s\<lparr>positions := (positions s)(pid := f (positions s pid))\<rparr>"

definition injectSerialCode :: "vault_msg \<Rightarrow> nat \<Rightarrow> ('b, 'x) vault_state \<Rightarrow> ('b, 'x) vault_state result" where
  "injectSerialCode m code =
     inExec m (\<lambda>(s, x). Inr (setPosition (POSITION_ID s) (\<lambda>p. p\<lparr>serialCode := code\<rparr>) s, x))"

section \<open>Debts\<close>

definition addDebt :: "safe_math \<Rightarrow> nat \<Rightarrow> nat \<Rightarrow> 'b vault \<Rightarrow> 'b vault result" where
  "addDebt M pid debtVal s =
     bindE (debtValToShare M s debtVal) (\<lambda>share.
     bindE (sm_add M (debtShare (positions s pid)) share) (\<lambda>posShare.
     bindE (sm_add M (vaultDebtShare s) share) (\<lambda>totalShare.
     bindE (sm_add M (vaultDebtVal s) debtVal) (\<lambda>totalVal.
     Inr ((setPosition pid (\<lambda>p. p\<lparr>debtShare := posShare\<rparr>) s)
       \<lparr>vaultDebtShare := totalShare, vaultDebtVal := totalVal\<rparr>)))))"

definition removeDebt :: "safe_math \<Rightarrow> nat \<Rightarrow> 'b vault \<Rightarrow> (nat \<times> 'b vault) result" where
  "removeDebt M pid s = (let share = debtShare (positions s pid) in
     if share > 0
     then bindE (debtShareToVal M s share) (\<lambda>debtVal.
          bindE (sm_sub M (vaultDebtShare s) share) (\<lambda>totalShare.
          bindE (sm_sub M (vaultDebtVal s) debtVal) (\<lambda>totalVal.
          Inr (debtVal, (setPosition pid (\<lambda>p. p\<lparr>debtShare := 0\<rparr>) s)
            \<lparr>vaultDebtShare := totalShare, vaultDebtVal := totalVal\<rparr>))))
     else Inr (0, s))"

definition fairLaunchDeposit ::
  "('b, 'x) vault_ext \<Rightarrow> ('b, 'x) handler \<Rightarrow> vault_msg \<Rightarrow> nat \<Rightarrow> nat \<Rightarrow> ('b, 'x) vault_state \<Rightarrow> ('b, 'x) vault_state result" where
  "fairLaunchDeposit X h m pid amount = (\<lambda>(s, x).
     if amount > 0
     then bindE (external X h (DebtMint (debtToken s) (this m) amount) (s, x)) (\<lambda>(s, x).
          bindE (vc_getFairLaunchAddr (vault_config_of X s) x) (\<lambda>fairLaunch.
          external X h (FairLaunchDeposit fairLaunch (pos_owner (positions s pid)) (fairLaunchPoolId s) amount) (s, x)))
     else Inr (s, x))"

text \<open>The call is a low-level one: when it fails, the debt tokens are kept and the vault goes on.\<close>

definition fairLaunchWithdraw ::
  "('b, 'x) vault_ext \<Rightarrow> ('b, 'x) handler \<Rightarrow> vault_msg \<Rightarrow> nat \<Rightarrow> ('b, 'x) vault_state \<Rightarrow> ('b, 'x) vault_state result" where
  "fairLaunchWithdraw X h m pid = (\<lambda>(s, x). let pos = positions s pid in
     if debtShare pos > 0
     then bindE (vc_getFairLaunchAddr (vault_config_of X s) x) (\<lambda>fairLaunch.
          case external X h (FairLaunchWithdraw fairLaunch (pos_owner pos) (fairLaunchPoolId s) (debtShare pos)) (s, x) of
            Inl e \<Rightarrow> Inr (s, x)
          | Inr (s, x) \<Rightarrow> external X h (DebtBurn (debtToken s) (this m) (debtShare (positions s pid))) (s, x))
     else Inr (s, x))"

section \<open>Farmers\<close>

text \<open>A new position, or the checks on an old one.  \<open>nextPositionID++\<close> wraps around.\<close>

definition work_position ::
  "('b, 'x) vault_ext \<Rightarrow> ('b, 'x) handler \<Rightarrow> vault_msg \<Rightarrow> nat \<Rightarrow> address \<Rightarrow> ('b, 'x) vault_state \<Rightarrow>
   (nat \<times> ('b, 'x) vault_state) result" where
  "work_position X h m pid worker = (\<lambda>(s, x).
     if pid = 0
     then let new = nextPositionID s in
          Inr (new, (setPosition new (\<lambda>p. p\<lparr>pos_worker := worker, pos_owner := sender m, blockNumber := block_number m\<rparr>) s)
            \<lparr>nextPositionID := (new + 1) mod 2 ^ 256,
             holderPositions := (holderPositions s)(sender m := v_set_add X new (holderPositions s (sender m)))\<rparr>, x)
     else let pos = positions s pid in
          bindE (require (pid < nextPositionID s) ''Vault::work: bad position id'') (\<lambda>_.
          bindE (require (pos_worker pos = worker) ''Vault::work: bad position worker'') (\<lambda>_.
          bindE (require (pos_owner pos = sender m) ''Vault::work: not position owner'') (\<lambda>_.
          bindE (fairLaunchWithdraw X h m pid (s, x)) (\<lambda>st. Inr (pid, st))))))"

text \<open>The worker receives the principal and the loan; the result is what it gave back.\<close>

definition work_exec ::
  "('b, 'x) vault_ext \<Rightarrow> ('b, 'x) handler \<Rightarrow> vault_msg \<Rightarrow> nat \<Rightarrow> address \<Rightarrow> nat \<Rightarrow> nat \<Rightarrow> call_data \<Rightarrow>
   ('b, 'x) vault_state \<Rightarrow> (nat \<times> ('b, 'x) vault_state) result" where
  "work_exec X h m pid worker sendBEP20 debt data = (\<lambda>(s, x). let M = v_math X in
     bindE (v_balanceOf X (vaultToken s) (this m) x) (\<lambda>balance.
     bindE (require (sendBEP20 \<le> balance) ''Vault::work: insufficient funds in the vault'') (\<lambda>_.
     bindE (sm_sub M balance sendBEP20) (\<lambda>beforeBEP20.
     bindE (safe_transfer X h (vaultToken s) worker sendBEP20 (s, x)) (\<lambda>st.
     bindE (external X h (WorkerWork worker pid (sender m) debt data) st) (\<lambda>(s, x).
     bindE (v_balanceOf X (vaultToken s) (this m) x) (\<lambda>balance.
     bindE (sm_sub M balance beforeBEP20) (\<lambda>back. Inr (back, s, x)))))))))"

text \<open>The debt that remains is checked and entered.\<close>

definition work_debt ::
  "('b, 'x) vault_ext \<Rightarrow> ('b, 'x) handler \<Rightarrow> vault_msg \<Rightarrow> nat \<Rightarrow> address \<Rightarrow> nat \<Rightarrow>
   ('b, 'x) vault_state \<Rightarrow> ('b, 'x) vault_state result" where
  "work_debt X h m pid worker debt = (\<lambda>(s, x).
     if debt > 0
     then bindE (vc_minDebtSize (vault_config_of X s) x) (\<lambda>minDebt.
          bindE (require (debt \<ge> minDebt) ''Vault::work: too small debt size'') (\<lambda>_.
          bindE (v_health X worker pid x) (\<lambda>health.
          bindE (vc_workFactor (vault_config_of X s) worker debt x) (\<lambda>factor.
          bindE (work_guard (v_math X) health debt factor) (\<lambda>_.
          bindE (addDebt (v_math X) pid debt s) (\<lambda>s.
          fairLaunchDeposit X h m pid (debtShare (positions s pid)) (s, x)))))))
     else Inr (s, x))"

text \<open>
  What exceeds the repaid debt is paid out, less the fee of closing.  The sum \<open>reservePool.add(prize)\<close>
  is computed and dropped.
\<close>

definition work_return ::
  "('b, 'x) vault_ext \<Rightarrow> ('b, 'x) handler \<Rightarrow> vault_msg \<Rightarrow> nat \<Rightarrow> nat \<Rightarrow> ('b, 'x) vault_state \<Rightarrow> ('b, 'x) vault_state result" where
  "work_return X h m back lessDebt = (\<lambda>(s, x). let M = v_math X in
     if back > lessDebt
     then bindE (sm_sub M back lessDebt) (\<lambda>rest.
          bindE (bindE (vc_getCloseBps (vault_config_of X s) x) (sm_mul M rest)) (\<lambda>p.
          bindE (sm_div M p 10000) (\<lambda>prize.
          bindE (if prize > 0 then bindE (sm_add M (reservePool s) prize) (\<lambda>_. Inr ()) else Inr ()) (\<lambda>_.
          bindE (sm_sub M rest prize) (\<lambda>amount. smartSafeTransfer X h (sender m) amount (s, x))))))
     else Inr (s, x))"

definition work_body ::
  "('b, 'x) vault_ext \<Rightarrow> ('b, 'x) handler \<Rightarrow> vault_msg \<Rightarrow> nat \<Rightarrow> address \<Rightarrow> nat \<Rightarrow> nat \<Rightarrow> nat \<Rightarrow> call_data \<Rightarrow>
   ('b, 'x) vault_state \<Rightarrow> ('b, 'x) vault_state result" where
  "work_body X h m pid worker principalAmount loan maxReturn data = (\<lambda>(s, x). let M = v_math X in
     bindE (require (fairLaunchPoolId s \<noteq> uint_max) ''Vault::work: poolId not set'') (\<lambda>_.
     bindE (work_position X h m pid worker (s, x)) (\<lambda>(pid, s, x).
     bindE (v_decode_strategy X data) (\<lambda>strategy.
     let s = s\<lparr>POSITION_ID := pid, STRATEGY := strategy\<rparr> in
     bindE (bindE (vc_isWorker (vault_config_of X s) worker x) (\<lambda>b. require b ''Vault::work: not a worker'')) (\<lambda>_.
     bindE (if loan = 0 then Inr ()
            else bindE (vc_acceptDebt (vault_config_of X s) worker x)
              (\<lambda>b. require b ''Vault::work: worker not accept more debt'')) (\<lambda>_.
     bindE (removeDebt M pid s) (\<lambda>(removed, s).
     bindE (sm_add M removed loan) (\<lambda>debt.
     bindE (sm_add M principalAmount loan) (\<lambda>sendBEP20.
     bindE (work_exec X h m pid worker sendBEP20 debt data (s, x)) (\<lambda>(back, st).
     let lessDebt = min debt (min back maxReturn) in
     bindE (sm_sub M debt lessDebt) (\<lambda>debt.
     bindE (work_debt X h m pid worker debt st) (\<lambda>st.
     bindE (work_return X h m back lessDebt st) (\<lambda>(s, x).
     Inr (s\<lparr>POSITION_ID := NO_ID, STRATEGY := NO_ADDRESS\<rparr>, x))))))))))))))"

definition vault_work where
  "vault_work X h m pid worker principalAmount loan maxReturn data st =
     bindE (onlyEOA m) (\<lambda>_.
     bindE (transferTokenToVault X h m principalAmount st) (\<lambda>st.
     bindE (accrue X m principalAmount st) (\<lambda>st.
     nonReentrant X (work_body X h m pid worker principalAmount loan maxReturn data) st)))"

section \<open>Liquidation\<close>

definition kill_body ::
  "('b, 'x) vault_ext \<Rightarrow> ('b, 'x) handler \<Rightarrow> vault_msg \<Rightarrow> nat \<Rightarrow> ('b, 'x) vault_state \<Rightarrow> ('b, 'x) vault_state result" where
  "kill_body X h m pid = (\<lambda>(s, x). let M = v_math X in
     bindE (require (fairLaunchPoolId s \<noteq> uint_max) ''Vault::kill: poolId not set'') (\<lambda>_.
     bindE (require (debtShare (positions s pid) > 0) ''Vault::kill: no debt'') (\<lambda>_.
     bindE (fairLaunchWithdraw X h m pid (s, x)) (\<lambda>(s, x).
     bindE (removeDebt M pid s) (\<lambda>(debt, s).
     bindE (v_health X (pos_worker (positions s pid)) pid x) (\<lambda>health.
     bindE (vc_killFactor (vault_config_of X s) (pos_worker (positions s pid)) debt x) (\<lambda>factor.
     bindE (kill_guard M health debt factor) (\<lambda>_.
     bindE (v_balanceOf X (vaultToken s) (this m) x) (\<lambda>beforeToken.
     bindE (external X h (WorkerLiquidate (pos_worker (positions s pid)) pid) (s, x)) (\<lambda>(s, x).
     bindE (bindE (v_balanceOf X (vaultToken s) (this m) x) (\<lambda>b. sm_sub M b beforeToken)) (\<lambda>back.
     bindE (bindE (vc_getKillBps (vault_config_of X s) x) (sm_mul M back)) (\<lambda>p.
     bindE (sm_div M p 10000) (\<lambda>prize.
     bindE (sm_sub M back prize) (\<lambda>rest.
     bindE (if prize > 0 then smartSafeTransfer X h (sender m) prize (s, x) else Inr (s, x)) (\<lambda>(s, x).
     let left = (if rest > debt then rest - debt else 0) in
     if left > 0 then smartSafeTransfer X h (pos_owner (positions s pid)) left (s, x) else Inr (s, x))))))))))))))))"

definition vault_kill where
  "vault_kill X h m pid st =
     bindE (onlyEOA m) (\<lambda>_. bindE (accrue X m 0 st) (nonReentrant X (kill_body X h m pid)))"

section \<open>The owner\<close>

definition updateConfig :: "('b, 'x) vault_ext \<Rightarrow> vault_msg \<Rightarrow> address \<Rightarrow> ('b, 'x) vault_state \<Rightarrow> ('b, 'x) vault_state result" where
  "updateConfig X m a = (\<lambda>(s, x). bindE (onlyOwner X m s) (\<lambda>_. Inr (s\<lparr>vaultConfig := a\<rparr>, x)))"

definition updateDebtToken where
  "updateDebtToken X h m a newPid = (\<lambda>(s, x).
     bindE (onlyOwner X m s) (\<lambda>_.
     bindE (require (a \<noteq> vaultToken s) ''Vault::updateDebtToken: _debtToken must not be the same as token'') (\<lambda>_.
     bindE (vc_getFairLaunchAddr (vault_config_of X s) x) (\<lambda>fairLaunch.
     bindE (external X h (SetOkHolders a [this m, fairLaunch] True) (s, x)) (\<lambda>(s, x).
     let s = s\<lparr>debtToken := a, fairLaunchPoolId := newPid\<rparr> in
     bindE (vc_getFairLaunchAddr (vault_config_of X s) x) (\<lambda>fairLaunch.
     safe_approve X h (debtToken s) fairLaunch uint_max (s, x)))))))"

definition setFairLaunchPoolId where
  "setFairLaunchPoolId X h m poolId = (\<lambda>(s, x).
     bindE (onlyOwner X m s) (\<lambda>_.
     bindE (vc_getFairLaunchAddr (vault_config_of X s) x) (\<lambda>fairLaunch.
     bindE (safe_approve X h (debtToken s) fairLaunch uint_max (s, x)) (\<lambda>(s, x).
     Inr (s\<lparr>fairLaunchPoolId := poolId\<rparr>, x)))))"

definition withdrawReserve where
  "withdrawReserve X h m to amount = (\<lambda>(s, x).
     bindE (onlyOwner X m s) (\<lambda>_.
     nonReentrant X (\<lambda>(s, x).
       bindE (sm_sub (v_math X) (reservePool s) amount) (\<lambda>r.
       safe_transfer X h (vaultToken s) to amount (s\<lparr>reservePool := r\<rparr>, x))) (s, x)))"

definition reduceReserve :: "('b, 'x) vault_ext \<Rightarrow> vault_msg \<Rightarrow> nat \<Rightarrow> ('b, 'x) vault_state \<Rightarrow> ('b, 'x) vault_state result" where
  "reduceReserve X m amount = (\<lambda>(s, x).
     bindE (onlyOwner X m s) (\<lambda>_.
     bindE (sm_sub (v_math X) (reservePool s) amount) (\<lambda>r. Inr (s\<lparr>reservePool := r\<rparr>, x))))"

definition inherited :: "('b, 'x) vault_ext \<Rightarrow> vault_msg \<Rightarrow> call_data \<Rightarrow> ('b, 'x) vault_state \<Rightarrow> ('b, 'x) vault_state result" where
  "inherited X m d = (\<lambda>(s, x).
     bindE (v_inherited X (sender m) d (vault_base s)) (\<lambda>b. Inr (s\<lparr>vault_base := b\<rparr>, x)))"

section \<open>The contract\<close>

text \<open>The bases have run their initializers when this function starts, in the state \<open>b\<close>.\<close>

definition vault_initialize where
  "vault_initialize X h m cfg tok b dtok x =
     (let s = \<lparr>IN_EXEC_LOCK = 0, POSITION_ID = 0, STRATEGY = zero_address, vaultToken = tok, debtToken = dtok,
        vaultConfig = cfg, positions = (\<lambda>_. no_position), holderPositions = (\<lambda>_. []), nextPositionID = 1,
        fairLaunchPoolId = uint_max, vaultDebtShare = 0, vaultDebtVal = 0,
        lastAccrueTime = block_timestamp m, reservePool = 0, vault_base = b\<rparr> in
      bindE (vc_getFairLaunchAddr (vault_config_of X s) x) (\<lambda>fairLaunch.
      bindE (safe_approve X h dtok fairLaunch uint_max (s, x)) (\<lambda>(s, x).
      Inr (s\<lparr>IN_EXEC_LOCK := NOT_ENTERED, POSITION_ID := NO_ID, STRATEGY := NO_ADDRESS\<rparr>, x))))"

fun vault_op_body ::
  "('b, 'x) vault_ext \<Rightarrow> ('b, 'x) handler \<Rightarrow> vault_msg \<Rightarrow> vault_op \<Rightarrow> ('b, 'x) vault_state \<Rightarrow> ('b, 'x) vault_state result" where
  "vault_op_body X h m (Deposit n) st = vault_deposit X h m n st"
| "vault_op_body X h m (Withdraw share) st = vault_withdraw X h m share st"
| "vault_op_body X h m (RequestFunds tok n) st = requestFunds X h m tok n st"
| "vault_op_body X h m (InjectSerialCode c) st = injectSerialCode m c st"
| "vault_op_body X h m (Work pid w amount loan maxReturn d) st = vault_work X h m pid w amount loan maxReturn d st"
| "vault_op_body X h m (Kill pid) st = vault_kill X h m pid st"
| "vault_op_body X h m (UpdateConfig a) st = updateConfig X m a st"
| "vault_op_body X h m (UpdateDebtToken a n) st = updateDebtToken X h m a n st"
| "vault_op_body X h m (SetFairLaunchPoolId n) st = setFairLaunchPoolId X h m n st"
| "vault_op_body X h m (WithdrawReserve a n) st = withdrawReserve X h m a n st"
| "vault_op_body X h m (ReduceReserve n) st = reduceReserve X m n st"
| "vault_op_body X h m (Inherited d) st = inherited X m d st"

fun payable :: "vault_op \<Rightarrow> bool" where
  "payable (Deposit n) = True"
| "payable (Work pid w amount loan maxReturn d) = True"
| "payable _ = False"

definition vault_call where
  "vault_call X h m c st =
     bindE (require (payable c \<or> msg_value m = 0) []) (\<lambda>_. vault_op_body X h m c st)"

text \<open>A call with at most \<open>depth\<close> calls back nested in each other.\<close>

primrec perform ::
  "nat \<Rightarrow> ('b, 'x) vault_ext \<Rightarrow> vault_msg \<Rightarrow> vault_op \<Rightarrow> ('b, 'x) vault_state \<Rightarrow> ('b, 'x) vault_state result" where
  "perform 0 X m c st = Inl (Revert ''call depth exceeded'')"
| "perform (Suc depth) X m c st =
     vault_call X (\<lambda>a v. perform depth X (m\<lparr>sender := a, msg_value := v\<rparr>)) m c st"

end
