(* ===== verification/Vault_Debt.thy ===== *)
theory Vault_Debt
  imports Vault_Contract
begin

text \<open>
  What every call of the vault keeps, whatever the contracts it calls do and however they call back.
  The locale \<open>state_relation\<close> carries a relation through the answers of external calls, \<open>vault_relation\<close>
  through every operation, from the updates of the state the operations are made of.  Instances: the
  debt accounting (\<open>debt_inv\<close>) and the token of the vault.
\<close>

section \<open>Relations and calls out\<close>

definition keeps :: "('b vault \<Rightarrow> 'b vault \<Rightarrow> bool) \<Rightarrow> ('b, 'x) handler \<Rightarrow> bool" where
  "keeps R h \<longleftrightarrow> (\<forall>a v c s x s' x'. h a v c (s, x) = Inr (s', x') \<longrightarrow> R s s')"

lemma keepsD: "keeps R h \<Longrightarrow> h a v c (s, x) = Inr (s', x') \<Longrightarrow> R s s'"
  unfolding keeps_def by blast

lemma safely_Inr [simp]: "safely msg r = Inr y \<longleftrightarrow> r = Inr y"
  by (cases r) (simp_all add: safely_def)

lemma fairLaunchWithdraw_cases:
  assumes "fairLaunchWithdraw X h m pid (s, x) = Inr (s', x')"
  shows "(s', x') = (s, x) \<or>
    (\<exists>fl a k n b j t y. external X h (FairLaunchWithdraw fl a k n) (s, x) = Inr (t, y) \<and>
      external X h (DebtBurn b (this m) j) (t, y) = Inr (s', x'))"
proof (cases "debtShare (positions s pid) > 0")
  case True
  with assms obtain fl where fl: "(case external X h (FairLaunchWithdraw fl (pos_owner (positions s pid)) (fairLaunchPoolId s)
        (debtShare (positions s pid))) (s, x) of Inl e \<Rightarrow> Inr (s, x)
      | Inr (s, x) \<Rightarrow> external X h (DebtBurn (debtToken s) (this m) (debtShare (positions s pid))) (s, x)) = Inr (s', x')"
    by (auto simp: fairLaunchWithdraw_def Let_def)
  show ?thesis
  proof (cases "external X h (FairLaunchWithdraw fl (pos_owner (positions s pid)) (fairLaunchPoolId s)
        (debtShare (positions s pid))) (s, x)")
    case (Inl e)
    with fl show ?thesis by simp
  next
    case (Inr st)
    with fl show ?thesis by (cases st) (simp, blast)
  qed
qed (use assms in \<open>simp add: fairLaunchWithdraw_def\<close>)

locale state_relation =
  fixes R :: "'b vault \<Rightarrow> 'b vault \<Rightarrow> bool"
  assumes same: "R s s" and trans: "R s t \<Longrightarrow> R t u \<Longrightarrow> R s u"
begin

lemma outcome: "keeps R h \<Longrightarrow> outcome r h s = Inr (s', x') \<Longrightarrow> R s s'"
proof (induction r arbitrary: s)
  case (Finished x)
  then show ?case by (simp add: same)
next
  case (CallsBack a v c x k)
  show ?case
  proof (cases "h a v c (s, x)")
    case (Inl e)
    then show ?thesis using CallsBack.IH [of "k (Inl e)" s] CallsBack.prems by simp
  next
    case (Inr st)
    obtain t y where st: "st = (t, y)" by (cases st)
    have "R s t" using CallsBack.prems(1) Inr st by (auto dest: keepsD)
    moreover have "R t s'" using CallsBack.IH [of "k (Inr st)" t] CallsBack.prems Inr st by simp
    ultimately show ?thesis by (rule trans)
  qed
qed simp

lemma external: "keeps R h \<Longrightarrow> external X h c (s, x) = Inr (s', x') \<Longrightarrow> R s s'"
  by (auto simp: external_def dest: outcome)

lemma safe_calls:
  assumes "keeps R h"
  shows "safe_transfer X h tok to n (s, x) = Inr (s', x') \<Longrightarrow> R s s'"
    and "safe_transferFrom X h tok from to n (s, x) = Inr (s', x') \<Longrightarrow> R s s'"
    and "safe_approve X h tok to n (s, x) = Inr (s', x') \<Longrightarrow> R s s'"
    and "safe_transferETH X h to n (s, x) = Inr (s', x') \<Longrightarrow> R s s'"
  using external [OF assms]
  by (auto simp: safe_transfer_def safe_transferFrom_def safe_approve_def safe_transferETH_def)

lemma transferTokenToVault:
  "keeps R h \<Longrightarrow> transferTokenToVault X h m n (s, x) = Inr (s', x') \<Longrightarrow> R s s'"
  by (auto simp: transferTokenToVault_def safe_calls external split: if_splits)

lemma smartSafeTransfer:
  assumes h: "keeps R h" and run: "smartSafeTransfer X h to n (s, x) = Inr (s', x')"
  shows "R s s'"
proof (cases "vc_getWrappedNativeAddr (vault_config_of X s) x = Inr (vaultToken s)")
  case True
  with run obtain rel t y rel' u z where run: "safe_transfer X h (vaultToken s) rel n (s, x) = Inr (t, y)"
      "external X h (RelayerWithdraw rel' n) (t, y) = Inr (u, z)"
      "safe_transferETH X h to n (u, z) = Inr (s', x')"
    by (auto simp: smartSafeTransfer_def)
  show ?thesis
    by (rule trans [OF safe_calls(1) [OF h run(1)] trans [OF external [OF h run(2)] safe_calls(4) [OF h run(3)]]])
next
  case False
  with run show ?thesis
    by (auto simp: smartSafeTransfer_def intro: safe_calls [OF h] split: if_splits)
qed

lemma fairLaunchDeposit:
  assumes h: "keeps R h" and run: "fairLaunchDeposit X h m pid n (s, x) = Inr (s', x')"
  shows "R s s'"
proof (cases "n > 0")
  case True
  with run obtain t y fl where run: "external X h (DebtMint (debtToken s) (this m) n) (s, x) = Inr (t, y)"
      "external X h (FairLaunchDeposit fl (pos_owner (positions t pid)) (fairLaunchPoolId t) n) (t, y) = Inr (s', x')"
    by (auto simp: fairLaunchDeposit_def)
  show ?thesis by (rule trans [OF external [OF h run(1)] external [OF h run(2)]])
next
  case False
  with run show ?thesis by (simp add: fairLaunchDeposit_def same)
qed

lemma fairLaunchWithdraw:
  assumes h: "keeps R h" and run: "fairLaunchWithdraw X h m pid (s, x) = Inr (s', x')"
  shows "R s s'"
  using fairLaunchWithdraw_cases [OF run]
proof
  assume "\<exists>fl a k n b j t y. Vault_Contract.external X h (FairLaunchWithdraw fl a k n) (s, x) = Inr (t, y) \<and>
    Vault_Contract.external X h (DebtBurn b (this m) j) (t, y) = Inr (s', x')"
  then obtain c d t y where run: "Vault_Contract.external X h c (s, x) = Inr (t, y)" "Vault_Contract.external X h d (t, y) = Inr (s', x')"
    by blast
  show ?thesis by (rule trans [OF external [OF h run(1)] external [OF h run(2)]])
qed (simp add: same)

lemma work_exec:
  assumes h: "keeps R h" and run: "work_exec X h m pid w n debt d (s, x) = Inr (back, s', x')"
  shows "R s s'"
proof -
  from run obtain t y where run: "safe_transfer X h (vaultToken s) w n (s, x) = Inr (t, y)"
      "external X h (WorkerWork w pid (sender m) debt d) (t, y) = Inr (s', x')"
    by (auto simp: work_exec_def Let_def)
  show ?thesis by (rule trans [OF safe_calls(1) [OF h run(1)] external [OF h run(2)]])
qed

lemma work_return:
  "keeps R h \<Longrightarrow> work_return X h m back paid (s, x) = Inr (s', x') \<Longrightarrow> R s s'"
  by (auto simp: work_return_def Let_def same intro: smartSafeTransfer split: if_splits)

end

section \<open>Relations and operations\<close>

locale vault_relation = state_relation R for R :: "'b vault \<Rightarrow> 'b vault \<Rightarrow> bool" +
  fixes X :: "('b, 'x) vault_ext"
  assumes based: "R s (s\<lparr>vault_base := b\<rparr>)"
    and locked: "R s (s\<lparr>IN_EXEC_LOCK := n\<rparr>)"
    and scoped: "R s (s\<lparr>POSITION_ID := i, STRATEGY := a\<rparr>)"
    and accrued: "accrue X m n (s, x) = Inr (s', x') \<Longrightarrow> R s s'"
    and opened: "R s ((setPosition i (\<lambda>p. p\<lparr>pos_worker := w, pos_owner := a, blockNumber := n\<rparr>) s)
      \<lparr>nextPositionID := k, holderPositions := hs\<rparr>)"
    and coded: "R s (setPosition i (\<lambda>p. p\<lparr>serialCode := n\<rparr>) s)"
    and added: "addDebt (v_math X) i n s = Inr s' \<Longrightarrow> R s s'"
    and removed: "removeDebt (v_math X) i s = Inr (n, s') \<Longrightarrow> R s s'"
    and configured: "R s (s\<lparr>vaultConfig := a\<rparr>)"
    and redirected: "R s (s\<lparr>debtToken := a, fairLaunchPoolId := n\<rparr>)"
    and pooled: "R s (s\<lparr>fairLaunchPoolId := n\<rparr>)"
    and reserved: "R s (s\<lparr>reservePool := n\<rparr>)"
begin

lemma guarded:
  assumes "\<And>s x s' x'. f (s, x) = Inr (s', x') \<Longrightarrow> R s s'" and "nonReentrant X f (s, x) = Inr (s', x')"
  shows "R s s'"
proof -
  from assms(2) obtain b t where run: "f (s\<lparr>vault_base := b\<rparr>, x) = Inr (t, x')"
      "s' = t\<lparr>vault_base := v_leave X (vault_base t)\<rparr>"
    by (auto simp: nonReentrant_def)
  show ?thesis unfolding run(2) by (rule trans [OF trans [OF based assms(1) [OF run(1)]] based])
qed

lemma in_scope:
  assumes "\<And>s x s' x'. f (s, x) = Inr (s', x') \<Longrightarrow> R s s'" and "inExec m f (s, x) = Inr (s', x')"
  shows "R s s'"
proof -
  from assms(2) obtain t where run: "f (s\<lparr>IN_EXEC_LOCK := ENTERED\<rparr>, x) = Inr (t, x')"
      "s' = t\<lparr>IN_EXEC_LOCK := NOT_ENTERED\<rparr>"
    by (auto simp: inExec_def)
  show ?thesis unfolding run(2) by (rule trans [OF trans [OF locked assms(1) [OF run(1)]] locked])
qed

lemma deposit_kept:
  assumes h: "keeps R h" and run: "vault_deposit X h m n (s, x) = Inr (s', x')"
  shows "R s s'"
proof -
  have inner: "deposit_internal X m n (t, y) = Inr (t', y') \<Longrightarrow> R t t'" for t y t' y'
    by (auto simp: deposit_internal_def Let_def intro: based)
  from run obtain t y u z where steps: "transferTokenToVault X h m n (s, x) = Inr (t, y)"
      "accrue X m n (t, y) = Inr (u, z)" "nonReentrant X (deposit_internal X m n) (u, z) = Inr (s', x')"
    by (auto simp: vault_deposit_def)
  show ?thesis
    by (rule trans [OF trans [OF transferTokenToVault [OF h steps(1)] accrued [OF steps(2)]] guarded [OF inner steps(3)]])
qed

lemma withdraw_kept:
  assumes h: "keeps R h" and run: "vault_withdraw X h m n (s, x) = Inr (s', x')"
  shows "R s s'"
proof -
  have inner: "R t t'" if "withdraw_body X h m n (t, y) = Inr (t', y')" for t y t' y'
  proof -
    from that obtain amount b where "smartSafeTransfer X h (sender m) amount (t\<lparr>vault_base := b\<rparr>, y) = Inr (t', y')"
      by (auto simp: withdraw_body_def)
    then show ?thesis by (rule trans [OF based smartSafeTransfer [OF h]])
  qed
  from run obtain t y where steps: "accrue X m 0 (s, x) = Inr (t, y)"
      "nonReentrant X (withdraw_body X h m n) (t, y) = Inr (s', x')"
    by (auto simp: vault_withdraw_def)
  show ?thesis by (rule trans [OF accrued [OF steps(1)] guarded [OF inner steps(2)]])
qed

lemma strategy_calls_kept:
  assumes h: "keeps R h"
  shows "requestFunds X h m tok n (s, x) = Inr (s', x') \<Longrightarrow> R s s'"
    and "injectSerialCode m n (s, x) = Inr (s', x') \<Longrightarrow> R s s'"
proof -
  assume "requestFunds X h m tok n (s, x) = Inr (s', x')"
  then show "R s s'" unfolding requestFunds_def by (rule in_scope [rotated]) (auto dest: safe_calls(2) [OF h])
next
  assume "injectSerialCode m n (s, x) = Inr (s', x')"
  then show "R s s'" unfolding injectSerialCode_def by (rule in_scope [rotated]) (auto intro: coded)
qed

lemma work_position_kept:
  assumes h: "keeps R h" and run: "work_position X h m i w (s, x) = Inr (j, s', x')"
  shows "R s s'"
  using run by (auto simp: work_position_def Let_def intro: opened fairLaunchWithdraw [OF h] split: if_splits)

lemma work_debt_kept:
  assumes h: "keeps R h" and run: "work_debt X h m i w n (s, x) = Inr (s', x')"
  shows "R s s'"
proof (cases "n > 0")
  case True
  with run obtain t k where steps: "addDebt (v_math X) i n s = Inr t"
      "Vault_Contract.fairLaunchDeposit X h m i k (t, x) = Inr (s', x')"
    by (auto simp: work_debt_def)
  show ?thesis by (rule trans [OF added [OF steps(1)] fairLaunchDeposit [OF h steps(2)]])
next
  case False
  with run show ?thesis by (simp add: work_debt_def same)
qed

lemma work_body_kept:
  assumes h: "keeps R h" and run: "work_body X h m i w amount loan maxReturn d (s, x) = Inr (s', x')"
  shows "R s s'"
proof -
  from run obtain j t y strategy removed debt sent gave u v z p q k l n where steps:
      "work_position X h m i w (s, x) = Inr (j, t, y)"
      "removeDebt (v_math X) j (t\<lparr>POSITION_ID := j, STRATEGY := strategy\<rparr>) = Inr (removed, u)"
      "work_exec X h m j w sent debt d (u, y) = Inr (gave, v, z)"
      "work_debt X h m j w n (v, z) = Inr (p, q)"
      "work_return X h m gave k (p, q) = Inr (l, x')"
      "s' = l\<lparr>POSITION_ID := NO_ID, STRATEGY := NO_ADDRESS\<rparr>"
    by (auto simp: work_body_def Let_def)
  have "R s u"
    by (rule trans [OF trans [OF work_position_kept [OF h steps(1)] scoped] removed [OF steps(2)]])
  moreover have "R u p" by (rule trans [OF work_exec [OF h steps(3)] work_debt_kept [OF h steps(4)]])
  moreover have "R p s'" unfolding steps(6) by (rule trans [OF work_return [OF h steps(5)] scoped])
  ultimately show ?thesis by (blast intro: trans)
qed

lemma work_kept:
  assumes h: "keeps R h" and run: "vault_work X h m i w amount loan maxReturn d (s, x) = Inr (s', x')"
  shows "R s s'"
proof -
  from run obtain t y u z where steps: "transferTokenToVault X h m amount (s, x) = Inr (t, y)"
      "accrue X m amount (t, y) = Inr (u, z)"
      "nonReentrant X (work_body X h m i w amount loan maxReturn d) (u, z) = Inr (s', x')"
    by (auto simp: vault_work_def)
  show ?thesis
    by (rule trans [OF trans [OF transferTokenToVault [OF h steps(1)] accrued [OF steps(2)]]
      guarded [OF work_body_kept [OF h] steps(3)]])
qed

lemma kill_body_kept:
  assumes h: "keeps R h" and run: "kill_body X h m i (s, x) = Inr (s', x')"
  shows "R s s'"
proof -
  from run obtain t y debt u v z prize p q left where steps:
      "Vault_Contract.fairLaunchWithdraw X h m i (s, x) = Inr (t, y)"
      "removeDebt (v_math X) i t = Inr (debt, u)"
      "Vault_Contract.external X h (WorkerLiquidate (pos_worker (positions u i)) i) (u, y) = Inr (v, z)"
      "(if prize > 0 then Vault_Contract.smartSafeTransfer X h (sender m) prize (v, z) else Inr (v, z)) = Inr (p, q)"
      "(if left > 0 then Vault_Contract.smartSafeTransfer X h (pos_owner (positions p i)) left (p, q) else Inr (p, q))
        = Inr (s', x')"
    by (auto simp: kill_body_def Let_def)
  have "R s v"
    by (rule trans [OF trans [OF fairLaunchWithdraw [OF h steps(1)] removed [OF steps(2)]] external [OF h steps(3)]])
  moreover have "R v p" using steps(4) by (auto intro: smartSafeTransfer [OF h] same split: if_splits)
  moreover have "R p s'" using steps(5) by (auto intro: smartSafeTransfer [OF h] same split: if_splits)
  ultimately show ?thesis by (blast intro: trans)
qed

lemma kill_kept:
  assumes h: "keeps R h" and run: "vault_kill X h m i (s, x) = Inr (s', x')"
  shows "R s s'"
proof -
  from run obtain t y where steps: "accrue X m 0 (s, x) = Inr (t, y)"
      "nonReentrant X (kill_body X h m i) (t, y) = Inr (s', x')"
    by (auto simp: vault_kill_def)
  show ?thesis by (rule trans [OF accrued [OF steps(1)] guarded [OF kill_body_kept [OF h] steps(2)]])
qed

lemma owner_calls_kept:
  assumes h: "keeps R h"
  shows "updateConfig X m a (s, x) = Inr (s', x') \<Longrightarrow> R s s'"
    and "updateDebtToken X h m a n (s, x) = Inr (s', x') \<Longrightarrow> R s s'"
    and "setFairLaunchPoolId X h m n (s, x) = Inr (s', x') \<Longrightarrow> R s s'"
    and "withdrawReserve X h m a n (s, x) = Inr (s', x') \<Longrightarrow> R s s'"
    and "reduceReserve X m n (s, x) = Inr (s', x') \<Longrightarrow> R s s'"
proof -
  assume "updateDebtToken X h m a n (s, x) = Inr (s', x')"
  then obtain c t y fl where steps: "Vault_Contract.external X h c (s, x) = Inr (t, y)"
      "safe_approve X h a fl uint_max (t\<lparr>debtToken := a, fairLaunchPoolId := n\<rparr>, y) = Inr (s', x')"
    by (auto simp: updateDebtToken_def Let_def)
  show "R s s'" by (rule trans [OF trans [OF external [OF h steps(1)] redirected] safe_calls(3) [OF h steps(2)]])
next
  assume "setFairLaunchPoolId X h m n (s, x) = Inr (s', x')"
  then obtain fl t where steps: "safe_approve X h (debtToken s) fl uint_max (s, x) = Inr (t, x')"
      "s' = t\<lparr>fairLaunchPoolId := n\<rparr>"
    by (auto simp: setFairLaunchPoolId_def)
  show "R s s'" unfolding steps(2) by (rule trans [OF safe_calls(3) [OF h steps(1)] pooled])
next
  assume "withdrawReserve X h m a n (s, x) = Inr (s', x')"
  then have "nonReentrant X (\<lambda>(s, x). bindE (sm_sub (v_math X) (reservePool s) n) (\<lambda>r.
      safe_transfer X h (vaultToken s) a n (s\<lparr>reservePool := r\<rparr>, x))) (s, x) = Inr (s', x')"
    by (simp add: withdrawReserve_def)
  then show "R s s'"
    by (rule guarded [rotated]) (auto intro: trans [OF reserved safe_calls(1) [OF h]])
qed (auto simp: updateConfig_def reduceReserve_def intro: configured reserved)

lemma inherited_kept: "inherited X m d (s, x) = Inr (s', x') \<Longrightarrow> R s s'"
  by (auto simp: inherited_def intro: based)

lemma vault_call_kept: "keeps R h \<Longrightarrow> vault_call X h m c (s, x) = Inr (s', x') \<Longrightarrow> R s s'"
  by (cases c) (auto simp: vault_call_def intro: deposit_kept withdraw_kept strategy_calls_kept work_kept
    kill_kept owner_calls_kept inherited_kept)

lemma perform_kept: "perform depth X m c (s, x) = Inr (s', x') \<Longrightarrow> R s s'"
proof (induction depth arbitrary: m c s x s' x')
  case (Suc depth)
  have "keeps R (\<lambda>a v. perform depth X (m\<lparr>sender := a, msg_value := v\<rparr>))"
    unfolding keeps_def using Suc.IH by blast
  then show ?case using Suc.prems by (auto dest: vault_call_kept)
qed simp

end

section \<open>The debts\<close>

definition borrowers :: "'b vault \<Rightarrow> nat set" where
  "borrowers s = {i. debtShare (positions s i) \<noteq> 0}"

definition debt_inv :: "'b vault \<Rightarrow> bool" where
  "debt_inv s \<longleftrightarrow> finite (borrowers s) \<and>
     vaultDebtShare s = (\<Sum>i\<in>borrowers s. debtShare (positions s i)) \<and>
     vaultDebtShare s \<le> vaultDebtVal s \<and> (vaultDebtShare s = 0 \<longrightarrow> vaultDebtVal s = 0)"

lemma debt_inv_updates [simp]:
  "debt_inv (s\<lparr>vault_base := b\<rparr>) = debt_inv s" "debt_inv (s\<lparr>IN_EXEC_LOCK := n\<rparr>) = debt_inv s"
  "debt_inv (s\<lparr>POSITION_ID := n\<rparr>) = debt_inv s" "debt_inv (s\<lparr>STRATEGY := a\<rparr>) = debt_inv s"
  "debt_inv (s\<lparr>nextPositionID := n\<rparr>) = debt_inv s" "debt_inv (s\<lparr>holderPositions := hs\<rparr>) = debt_inv s"
  "debt_inv (s\<lparr>vaultConfig := a\<rparr>) = debt_inv s" "debt_inv (s\<lparr>debtToken := a\<rparr>) = debt_inv s"
  "debt_inv (s\<lparr>fairLaunchPoolId := n\<rparr>) = debt_inv s" "debt_inv (s\<lparr>reservePool := n\<rparr>) = debt_inv s"
  by (simp_all add: debt_inv_def borrowers_def)

lemma debt_inv_setPosition:
  assumes "\<And>p. debtShare (f p) = debtShare p"
  shows "debt_inv (setPosition i f s) = debt_inv s"
proof -
  have "debtShare (positions (setPosition i f s) j) = debtShare (positions s j)" for j
    by (simp add: setPosition_def assms)
  then show ?thesis by (simp add: debt_inv_def borrowers_def) (simp add: setPosition_def)
qed

text \<open>A sum over the support of a function, when one value changes.\<close>

lemma support_sum_update:
  fixes f :: "'a \<Rightarrow> nat"
  assumes "finite {i. f i \<noteq> 0}"
  shows "finite {i. (f(j := v)) i \<noteq> 0}"
    and "(\<Sum>i | (f(j := v)) i \<noteq> 0. (f(j := v)) i) + f j = (\<Sum>i | f i \<noteq> 0. f i) + v"
proof -
  let ?I = "insert j {i. f i \<noteq> 0}"
  have fin: "finite ?I" using assms by simp
  have sub: "{i. (f(j := v)) i \<noteq> 0} \<subseteq> ?I" by auto
  then show "finite {i. (f(j := v)) i \<noteq> 0}" using fin by (rule finite_subset)
  have "(\<Sum>i | (f(j := v)) i \<noteq> 0. (f(j := v)) i) = sum (f(j := v)) ?I"
    by (rule sum.mono_neutral_left [OF fin sub]) auto
  also have "\<dots> = v + sum f ({i. f i \<noteq> 0} - {j})"
    using assms by (simp add: sum.insert_remove)
  finally have new: "(\<Sum>i | (f(j := v)) i \<noteq> 0. (f(j := v)) i) = v + sum f ({i. f i \<noteq> 0} - {j})" .
  have "(\<Sum>i | f i \<noteq> 0. f i) = sum f ?I" by (rule sum.mono_neutral_left [OF fin]) auto
  also have "\<dots> = f j + sum f ({i. f i \<noteq> 0} - {j})" using assms by (simp add: sum.insert_remove)
  finally show "(\<Sum>i | (f(j := v)) i \<noteq> 0. (f(j := v)) i) + f j = (\<Sum>i | f i \<noteq> 0. f i) + v"
    using new by simp
qed

lemma shares_setPosition:
  "(\<lambda>i. debtShare (positions (setPosition j f s) i)) = (\<lambda>i. debtShare (positions s i))(j := debtShare (f (positions s j)))"
  by (auto simp: setPosition_def)

lemma borrowers_setPosition:
  assumes "finite (borrowers s)"
  shows "finite (borrowers (setPosition j f s))"
    and "(\<Sum>i\<in>borrowers (setPosition j f s). debtShare (positions (setPosition j f s) i)) + debtShare (positions s j)
      = (\<Sum>i\<in>borrowers s. debtShare (positions s i)) + debtShare (f (positions s j))"
  using support_sum_update [of "\<lambda>i. debtShare (positions s i)" j "debtShare (f (positions s j))"] assms
  unfolding borrowers_def shares_setPosition [symmetric, THEN fun_cong] by (simp_all add: shares_setPosition)

lemma borrower_share_le: "debt_inv s \<Longrightarrow> debtShare (positions s i) \<le> vaultDebtShare s"
  by (cases "i \<in> borrowers s") (auto simp: debt_inv_def borrowers_def intro: member_le_sum)

text \<open>The value of a share, rounded down, leaves at least one unit of value per share of the others.\<close>

lemma share_value_rest:
  fixes share S V :: nat
  assumes "share \<le> S" and "S \<le> V" and "0 < S"
  shows "share * V div S \<le> V" and "S - share \<le> V - share * V div S"
proof -
  let ?d = "share * V div S"
  have "?d * S \<le> share * V" by simp
  also have "\<dots> \<le> S * V" using assms(1) by simp
  finally show d: "?d \<le> V" using assms(3) by simp
  obtain f where f: "S = share + f" using assms(1) le_Suc_ex by blast
  obtain e where e: "V = S + e" using assms(2) le_Suc_ex by blast
  have "(S + ?d) * S \<le> S * S + share * V" by (simp add: algebra_simps)
  also have "\<dots> \<le> (V + share) * S" unfolding e by (simp add: f algebra_simps)
  finally have "S + ?d \<le> V + share" using assms(3) by simp
  then show "S - share \<le> V - ?d" using d assms(1) by simp
qed

lemma accrue_state:
  assumes "safe_math_ok (v_math X)" and "accrue X m n (s, x) = Inr (s', x')"
  shows "x' = x \<and> (\<exists>rate t r. s' = s\<lparr>reservePool := reservePool s + r,
    vaultDebtVal := vaultDebtVal s + rate * vaultDebtVal s * t div 10 ^ 18,
    lastAccrueTime := max (lastAccrueTime s) (block_timestamp m)\<rparr>)"
proof (cases "block_timestamp m > lastAccrueTime s")
  case True
  with assms(2) obtain rate r where "x' = x"
      "s' = s\<lparr>reservePool := reservePool s + r, vaultDebtVal := vaultDebtVal s +
        rate * vaultDebtVal s * (block_timestamp m - lastAccrueTime s) div 10 ^ 18, lastAccrueTime := block_timestamp m\<rparr>"
    by (auto simp: accrue_def pendingInterest_def Let_def safe_math_iff [OF assms(1)])
  with True show ?thesis by (auto simp: max_def)
next
  case False
  with assms(2) have "s' = s" "x' = x" by (simp_all add: accrue_def Let_def)
  then show ?thesis using False by (intro conjI exI [of _ 0]) (simp_all add: max_def)
qed

lemma accrue_debts:
  assumes M: "safe_math_ok (v_math X)" and inv: "debt_inv s" and run: "accrue X m n (s, x) = Inr (s', x')"
  shows "debt_inv s'"
proof -
  from accrue_state [OF M run] obtain rate t r where s': "s' = s\<lparr>reservePool := reservePool s + r,
      vaultDebtVal := vaultDebtVal s + rate * vaultDebtVal s * t div 10 ^ 18,
      lastAccrueTime := max (lastAccrueTime s) (block_timestamp m)\<rparr>" by blast
  show ?thesis using inv by (auto simp: s' debt_inv_def borrowers_def)
qed

lemma addDebt_state:
  assumes M: "safe_math_ok M" and run: "addDebt M i n s = Inr s'"
  shows "\<exists>share. debtValToShare M s n = Inr share \<and>
    s' = (setPosition i (\<lambda>p. p\<lparr>debtShare := debtShare (positions s i) + share\<rparr>) s)
      \<lparr>vaultDebtShare := vaultDebtShare s + share, vaultDebtVal := vaultDebtVal s + n\<rparr>"
  using run by (auto simp: addDebt_def safe_math_iff [OF M])

lemma debtValToShare_Inr:
  assumes "safe_math_ok M"
  shows "debtValToShare M s n = Inr r \<longleftrightarrow> (if vaultDebtShare s = 0 then r = n
    else n * vaultDebtShare s \<le> uint_max \<and> 0 < vaultDebtVal s \<and> r = n * vaultDebtShare s div vaultDebtVal s)"
  by (auto simp: debtValToShare_def safe_math_iff [OF assms])

lemma debtShareToVal_Inr:
  assumes "safe_math_ok M"
  shows "debtShareToVal M s n = Inr r \<longleftrightarrow> (if vaultDebtShare s = 0 then r = n
    else n * vaultDebtVal s \<le> uint_max \<and> r = n * vaultDebtVal s div vaultDebtShare s)"
  by (auto simp: debtShareToVal_def safe_math_iff [OF assms])

lemma share_of_value_le:
  assumes M: "safe_math_ok M" and inv: "debt_inv s" and share: "debtValToShare M s n = Inr share"
  shows "share \<le> n"
proof (cases "vaultDebtShare s = 0")
  case True
  with share show ?thesis by (simp add: debtValToShare_Inr [OF M])
next
  case False
  have "vaultDebtShare s \<le> vaultDebtVal s" using inv by (simp add: debt_inv_def)
  then have "n * vaultDebtShare s div vaultDebtVal s \<le> n * vaultDebtVal s div vaultDebtVal s"
    by (intro div_le_mono) simp
  also have "\<dots> \<le> n" by simp
  finally show ?thesis using share False by (simp add: debtValToShare_Inr [OF M])
qed

lemma addDebt_debts:
  assumes M: "safe_math_ok M" and inv: "debt_inv s" and run: "addDebt M i n s = Inr s'"
  shows "debt_inv s'"
proof -
  from addDebt_state [OF M run] obtain share where share: "debtValToShare M s n = Inr share"
    and s': "s' = (setPosition i (\<lambda>p. p\<lparr>debtShare := debtShare (positions s i) + share\<rparr>) s)
      \<lparr>vaultDebtShare := vaultDebtShare s + share, vaultDebtVal := vaultDebtVal s + n\<rparr>" by blast
  let ?t = "setPosition i (\<lambda>p. p\<lparr>debtShare := debtShare (positions s i) + share\<rparr>) s"
  have fin: "finite (borrowers s)" using inv by (simp add: debt_inv_def)
  have same: "borrowers s' = borrowers ?t" "positions s' = positions ?t" by (simp_all add: s' borrowers_def)
  have le: "share \<le> n" by (rule share_of_value_le [OF M inv share])
  have "vaultDebtVal s' = 0" if "vaultDebtShare s' = 0"
  proof -
    have "vaultDebtShare s = 0" "share = 0" using that by (simp_all add: s')
    then show ?thesis using share inv by (simp add: s' debt_inv_def debtValToShare_Inr [OF M])
  qed
  moreover have "vaultDebtShare s' \<le> vaultDebtVal s'" using inv le by (simp add: s' debt_inv_def)
  moreover have "vaultDebtShare s' = (\<Sum>i\<in>borrowers s'. debtShare (positions s' i))" "finite (borrowers s')"
    using borrowers_setPosition [OF fin, of i "\<lambda>p. p\<lparr>debtShare := debtShare (positions s i) + share\<rparr>"] inv
    unfolding same by (simp_all add: s' debt_inv_def)
  ultimately show ?thesis by (simp add: debt_inv_def)
qed

lemma removeDebt_state:
  assumes M: "safe_math_ok M" and run: "removeDebt M i s = Inr (n, s')"
  shows "(debtShare (positions s i) = 0 \<and> n = 0 \<and> s' = s) \<or>
    (0 < debtShare (positions s i) \<and> debtShareToVal M s (debtShare (positions s i)) = Inr n \<and>
     debtShare (positions s i) \<le> vaultDebtShare s \<and> n \<le> vaultDebtVal s \<and>
     s' = (setPosition i (\<lambda>p. p\<lparr>debtShare := 0\<rparr>) s)
      \<lparr>vaultDebtShare := vaultDebtShare s - debtShare (positions s i), vaultDebtVal := vaultDebtVal s - n\<rparr>)"
  using run by (auto simp: removeDebt_def Let_def safe_math_iff [OF M] split: if_splits)

lemma removeDebt_debts:
  assumes M: "safe_math_ok M" and inv: "debt_inv s" and run: "removeDebt M i s = Inr (n, s')"
  shows "debt_inv s'"
  using removeDebt_state [OF M run]
proof (elim disjE conjE)
  let ?share = "debtShare (positions s i)" and ?S = "vaultDebtShare s" and ?V = "vaultDebtVal s"
  let ?t = "setPosition i (\<lambda>p. p\<lparr>debtShare := 0\<rparr>) s"
  assume pos: "0 < ?share" and val: "debtShareToVal M s ?share = Inr n" and le: "?share \<le> ?S"
    and s': "s' = ?t\<lparr>vaultDebtShare := ?S - ?share, vaultDebtVal := ?V - n\<rparr>"
  have fin: "finite (borrowers s)" and SV: "?S \<le> ?V" using inv by (simp_all add: debt_inv_def)
  have S: "0 < ?S" using pos le by simp
  have n: "n = ?share * ?V div ?S" using val S by (simp add: debtShareToVal_Inr [OF M])
  have same: "borrowers s' = borrowers ?t" "positions s' = positions ?t" by (simp_all add: s' borrowers_def)
  have rest: "?S - ?share \<le> ?V - n" unfolding n by (rule share_value_rest [OF le SV S])
  have zero: "?V - n = 0" if "?S - ?share = 0"
  proof -
    have "?share = ?S" using that le by simp
    then show ?thesis using S by (simp add: n)
  qed
  show ?thesis
    using borrowers_setPosition [OF fin, of i "\<lambda>p. p\<lparr>debtShare := 0\<rparr>"] inv rest zero
    unfolding debt_inv_def same by (simp add: s')
qed (simp add: inv)

interpretation debts: vault_relation "\<lambda>s s'. safe_math_ok (v_math X) \<longrightarrow> debt_inv s \<longrightarrow> debt_inv s'" X
  for X :: "('b, 'x) vault_ext"
proof (unfold_locales, goal_cases)
  case (6 m n s x s' x')
  then show ?case by (blast intro: accrue_debts)
next
  case (9 i n s s')
  then show ?case by (blast intro: addDebt_debts)
next
  case (10 i s n s')
  then show ?case by (blast intro: removeDebt_debts)
qed (simp_all add: debt_inv_setPosition)

interpretation tokens: vault_relation "\<lambda>s s'. vaultToken s' = vaultToken s" X
  for X :: "('b, 'x) vault_ext"
  by unfold_locales (auto simp: accrue_def addDebt_def removeDebt_def setPosition_def Let_def split: if_splits)

section \<open>Histories\<close>

text \<open>The states a vault can be in: initialized, then changed by the transactions that succeed, in a world
  that also changes by itself.\<close>

inductive vault_reach :: "('b, 'x) vault_ext \<Rightarrow> ('b, 'x) vault_state \<Rightarrow> bool" for X where
  initialized: "vault_initialize X (\<lambda>a v. perform depth X (m\<lparr>sender := a, msg_value := v\<rparr>)) m cfg tok b dtok x = Inr st \<Longrightarrow>
    vault_reach X st"
| transacted: "vault_reach X st \<Longrightarrow> perform depth X m c st = Inr st' \<Longrightarrow> vault_reach X st'"
| world: "vault_reach X (s, x) \<Longrightarrow> vault_reach X (s, y)"

lemma perform_debts:
  "safe_math_ok (v_math X) \<Longrightarrow> perform depth X m c (s, x) = Inr (s', x') \<Longrightarrow> debt_inv s \<Longrightarrow> debt_inv s'"
  using debts.perform_kept [of depth X m c s x s' x'] by blast

lemma handler_debts:
  "keeps (\<lambda>s s'. safe_math_ok (v_math X) \<longrightarrow> debt_inv s \<longrightarrow> debt_inv s')
     (\<lambda>a v. perform depth X (m\<lparr>sender := a, msg_value := v\<rparr>))"
  unfolding keeps_def by (intro allI impI) (rule perform_debts)

lemma initialized_debts:
  assumes M: "safe_math_ok (v_math X)"
    and run: "vault_initialize X (\<lambda>a v. perform depth X (m\<lparr>sender := a, msg_value := v\<rparr>)) m cfg tok b dtok x = Inr (s', x')"
  shows "debt_inv s'"
proof -
  let ?h = "\<lambda>a v. perform depth X (m\<lparr>sender := a, msg_value := v\<rparr>)"
  note h = handler_debts [of X depth m]
  from run obtain s t fl where s: "safe_approve X ?h dtok fl uint_max (s, x) = Inr (t, x')"
      "s' = t\<lparr>IN_EXEC_LOCK := NOT_ENTERED, POSITION_ID := NO_ID, STRATEGY := NO_ADDRESS\<rparr>"
      "positions s = (\<lambda>_. no_position)" "vaultDebtShare s = 0" "vaultDebtVal s = 0"
    by (fastforce simp: vault_initialize_def Let_def)
  have "debt_inv s" by (simp add: debt_inv_def borrowers_def s no_position_def)
  then have "debt_inv t" using debts.safe_calls(3) [OF h s(1)] M by blast
  then show ?thesis by (simp add: s(2))
qed

lemma reach_debts: "vault_reach X st \<Longrightarrow> safe_math_ok (v_math X) \<Longrightarrow> debt_inv (fst st)"
proof (induction rule: vault_reach.induct)
  case (initialized depth m cfg tok b dtok x st)
  then show ?case by (cases st) (auto intro: initialized_debts)
next
  case (transacted st depth m c st')
  obtain s x s' x' where st: "st = (s, x)" "st' = (s', x')" by (cases st; cases st')
  show ?case
    using perform_debts [OF transacted.prems, of depth m c s x s' x'] transacted by (simp add: st)
qed simp

lemma debt_zero_iff:
  assumes inv: "debt_inv s"
  shows "vaultDebtVal s = 0 \<longleftrightarrow> borrowers s = {}"
proof
  assume "vaultDebtVal s = 0"
  then have "vaultDebtShare s = 0" using inv unfolding debt_inv_def by linarith
  then have zero: "(\<Sum>i\<in>borrowers s. debtShare (positions s i)) = 0" and fin: "finite (borrowers s)"
    using inv by (simp_all only: debt_inv_def)
  have "i \<notin> borrowers s" for i
  proof
    assume i: "i \<in> borrowers s"
    then have "debtShare (positions s i) = 0" using zero fin by (simp only: sum_eq_0_iff)
    with i show False by (simp add: borrowers_def)
  qed
  then show "borrowers s = {}" by blast
qed (use inv in \<open>simp add: debt_inv_def\<close>)

text \<open>The values of all debts, each rounded down, add up to at most the debt of the vault.\<close>

lemma debt_values_sum:
  assumes M: "safe_math_ok M" and inv: "debt_inv s"
    and v: "\<And>i. i \<in> borrowers s \<Longrightarrow> debtShareToVal M s (debtShare (positions s i)) = Inr (v i)"
  shows "sum v (borrowers s) \<le> vaultDebtVal s"
proof (cases "vaultDebtShare s = 0")
  case True
  then have "borrowers s = {}" using inv debt_zero_iff [OF inv] by (simp add: debt_inv_def)
  then show ?thesis by simp
next
  case False
  let ?S = "vaultDebtShare s" and ?V = "vaultDebtVal s"
  have "sum v (borrowers s) * ?S = (\<Sum>i\<in>borrowers s. v i * ?S)" by (rule sum_distrib_right)
  also have "\<dots> \<le> (\<Sum>i\<in>borrowers s. debtShare (positions s i) * ?V)"
    by (rule sum_mono) (use v False in \<open>auto simp: debtShareToVal_Inr [OF M]\<close>)
  also have "\<dots> = ?S * ?V" using inv by (simp add: debt_inv_def sum_distrib_right)
  finally show ?thesis using False by (simp add: mult.commute)
qed

text \<open>
  C3: The debt accounting of the vault holds after every history of transactions, whatever the tokens,
  workers and configuration do and however they call back into the vault: the total of the debt shares is the sum
  of the shares of the positions, the debts of all positions add up to at most the debt of the vault, no
  position owes more than the vault is owed, and the vault is owed nothing exactly when no share is left.
\<close>

theorem vault_debt_accounting:
  assumes M: "safe_math_ok (v_math X)" and reach: "vault_reach X (s, x)"
  shows "finite (borrowers s) \<and>
    vaultDebtShare s = (\<Sum>i\<in>borrowers s. debtShare (positions s i)) \<and>
    (\<forall>v. (\<forall>i\<in>borrowers s. debtShareToVal (v_math X) s (debtShare (positions s i)) = Inr (v i)) \<longrightarrow>
       sum v (borrowers s) \<le> vaultDebtVal s) \<and>
    vaultDebtShare s \<le> vaultDebtVal s \<and> (vaultDebtVal s = 0 \<longleftrightarrow> borrowers s = {})"
proof -
  have inv: "debt_inv s" using reach_debts [OF reach M] by simp
  have "vaultDebtVal s = 0 \<longleftrightarrow> borrowers s = {}"
    by (rule debt_zero_iff [OF inv])
  moreover have "sum v (borrowers s) \<le> vaultDebtVal s"
    if "\<forall>i\<in>borrowers s. debtShareToVal (v_math X) s (debtShare (positions s i)) = Inr (v i)" for v
    by (rule debt_values_sum [OF M inv]) (use that in blast)
  ultimately show ?thesis using inv unfolding debt_inv_def by blast
qed

section \<open>A concrete vault\<close>

text \<open>
  For the witnesses: the world is the vault's balance of its token, the bases are the reentrancy flag
  and the supply, and nobody calls back.  The worker keeps what it receives until it is liquidated.
\<close>

definition plain_config :: "nat ivault_config" where
  "plain_config = \<lparr>vc_minDebtSize = (\<lambda>_. Inr 1000), vc_getInterestRate = (\<lambda>_ _ _. Inr 10000000000),
     vc_getWrappedNativeAddr = (\<lambda>_. Inr ''WBNB''), vc_getWNativeRelayer = (\<lambda>_. Inr ''R''),
     vc_getFairLaunchAddr = (\<lambda>_. Inr ''FL''), vc_getReservePoolBps = (\<lambda>_. Inr 1000),
     vc_getCloseBps = (\<lambda>_. Inr 0), vc_getKillBps = (\<lambda>_. Inr 500), vc_isWorker = (\<lambda>_ _. Inr True),
     vc_acceptDebt = (\<lambda>_ _. Inr True), vc_workFactor = (\<lambda>_ _ _. Inr 5500), vc_killFactor = (\<lambda>_ _ _. Inr 7000)\<rparr>"

fun plain_call :: "(bool \<times> nat) vault \<Rightarrow> out_call \<Rightarrow> nat \<Rightarrow> (bool \<times> nat, nat) run" where
  "plain_call s (TransferFrom tok from to n) x = Finished (x + n)"
| "plain_call s (WethDeposit tok n) x = Finished (x + n)"
| "plain_call s (Transfer tok to n) x = (if n \<le> x then Finished (x - n) else Reverted ''balance'')"
| "plain_call s (WorkerLiquidate w i) x = Finished (x + 200000000000000000)"
| "plain_call s _ x = Finished x"

definition plain_vault :: "(bool \<times> nat, nat) vault_ext" where
  "plain_vault = \<lparr>v_math = checked_math, v_config_at = (\<lambda>_. plain_config), v_balanceOf = (\<lambda>_ _ x. Inr x),
     v_health = (\<lambda>_ _ x. Inr 500000000000000000), v_decode_strategy = (\<lambda>_. Inr ''S''),
     v_set_add = (\<lambda>i xs. if i \<in> set xs then xs else xs @ [i]), v_call = plain_call,
     v_enter = (\<lambda>(e, n). if e then Inl (Revert ''ReentrancyGuard: reentrant call'') else Inr (True, n)),
     v_leave = (\<lambda>(e, n). (False, n)), v_isOwner = (\<lambda>a b. a = ''Owner''), v_totalSupply = snd,
     v_mint = (\<lambda>a k (e, n). Inr (e, n + k)),
     v_burn = (\<lambda>a k (e, n). if k \<le> n then Inr (e, n - k) else Inl (Revert ''burn amount exceeds balance'')),
     v_inherited = (\<lambda>a d b. Inr b)\<rparr>"

lemma plain_vault_ok [simp]: "safe_math_ok (v_math plain_vault)" "base_ok plain_vault fst"
  by (auto simp: plain_vault_def base_ok_def split: if_splits)

definition vault_msg_of :: "address \<Rightarrow> nat \<Rightarrow> vault_msg" where
  "vault_msg_of a t = \<lparr>sender = a, block_number = 1, block_timestamp = t, this = ''V'', tx_origin = a, msg_value = 0\<rparr>"

lemmas vault_run = plain_vault_def plain_config_def checked_math_def uint_max_def vault_msg_of_def vault_config_of_def
  external_def safely_def safe_transfer_def safe_transferFrom_def safe_approve_def Let_def
  vault_call_def transferTokenToVault_def nonReentrant_def accrue_def onlyEOA_def
  Vault_Contract.onlyOwner_def totalToken_def totalSupply_def

definition sample_open :: "(bool \<times> nat) vault" where
  "sample_open = \<lparr>IN_EXEC_LOCK = 1, POSITION_ID = NO_ID, STRATEGY = NO_ADDRESS, vaultToken = ''T'', debtToken = ''D'',
     vaultConfig = ''C'', positions = (\<lambda>_. no_position), holderPositions = (\<lambda>_. []), nextPositionID = 1,
     fairLaunchPoolId = 0, vaultDebtShare = 0, vaultDebtVal = 0, lastAccrueTime = 1000, reservePool = 0,
     vault_base = (False, 0)\<rparr>"

definition sample_funded :: "(bool \<times> nat) vault" where
  "sample_funded = sample_open\<lparr>vault_base := (False, 400000000000000000)\<rparr>"

definition sample_lent :: "(bool \<times> nat) vault" where
  "sample_lent = (setPosition 1 (\<lambda>p. \<lparr>pos_worker = ''K'', pos_owner = ''F'', debtShare = 200000000000000000,
       serialCode = 0, blockNumber = 1\<rparr>) sample_funded)
     \<lparr>nextPositionID := 2, holderPositions := (\<lambda>_. [])(''F'' := [1]),
      vaultDebtShare := 200000000000000000, vaultDebtVal := 200000000000000000\<rparr>"

lemma sample_steps:
  "\<exists>s0. vault_initialize plain_vault (\<lambda>a v. perform 0 plain_vault (m\<lparr>sender := a, msg_value := v\<rparr>)) (vault_msg_of ''Owner'' 1000)
     ''C'' ''T'' (False, 0) ''D'' 0 = Inr (s0, 0) \<and>
   perform 1 plain_vault (vault_msg_of ''Owner'' 1000) (SetFairLaunchPoolId 0) (s0, 0) = Inr (sample_open, 0)"
  "perform 1 plain_vault (vault_msg_of ''L'' 1000) (Deposit 400000000000000000) (sample_open, 0) =
     Inr (sample_funded, 400000000000000000)"
  "perform 1 plain_vault (vault_msg_of ''F'' 1000) (Work 0 ''K'' 100000000000000000 200000000000000000 0 [])
     (sample_funded, 400000000000000000) = Inr (sample_lent, 200000000000000000)"
    by (simp add: vault_run vault_initialize_def setFairLaunchPoolId_def sample_open_def NOT_ENTERED_def)
  (simp_all add: vault_run vault_deposit_def deposit_internal_def sample_open_def sample_funded_def sample_lent_def
    vault_work_def work_body_def work_position_def no_position_def setPosition_def removeDebt_def work_exec_def
    work_debt_def work_guard_def addDebt_def debtValToShare_def fairLaunchDeposit_def work_return_def fun_eq_iff)

lemma sample_reach:
  "vault_reach plain_vault (sample_open, 0)"
  "vault_reach plain_vault (sample_funded, 400000000000000000)"
  "vault_reach plain_vault (sample_lent, 200000000000000000)"
proof -
  from sample_steps(1) [of "vault_msg_of ''Owner'' 1000"] obtain s0 where
    init: "vault_initialize plain_vault (\<lambda>a v. perform 0 plain_vault ((vault_msg_of ''Owner'' 1000)\<lparr>sender := a, msg_value := v\<rparr>))
      (vault_msg_of ''Owner'' 1000) ''C'' ''T'' (False, 0) ''D'' 0 = Inr (s0, 0)"
    and set: "perform 1 plain_vault (vault_msg_of ''Owner'' 1000) (SetFairLaunchPoolId 0) (s0, 0) = Inr (sample_open, 0)"
    by blast
  show "vault_reach plain_vault (sample_open, 0)" by (rule transacted [OF initialized [OF init] set])
  then show "vault_reach plain_vault (sample_funded, 400000000000000000)" by (rule transacted [OF _ sample_steps(2)])
  then show "vault_reach plain_vault (sample_lent, 200000000000000000)" by (rule transacted [OF _ sample_steps(3)])
qed

theorem vault_debt_accounting_witness:
  "vault_reach plain_vault (sample_lent, 200000000000000000) \<and> finite (borrowers sample_lent) \<and>
   borrowers sample_lent \<noteq> {} \<and> vaultDebtShare sample_lent = (\<Sum>i\<in>borrowers sample_lent. debtShare (positions sample_lent i))"
proof -
  note acc = vault_debt_accounting [OF plain_vault_ok(1) sample_reach(3)]
  have "vaultDebtVal sample_lent \<noteq> 0" by (simp add: sample_lent_def)
  then have "borrowers sample_lent \<noteq> {}"
    by (simp only: conjunct2 [OF conjunct2 [OF conjunct2 [OF conjunct2 [OF acc]]]] simp_thms)
  then show ?thesis by (intro conjI sample_reach(3) conjunct1 [OF acc] conjunct1 [OF conjunct2 [OF acc]])
qed

end
