(* ===== verification/Vault_Safety.thy ===== *)
theory Vault_Safety
  imports Vault_Debt
begin

text \<open>
  What the reentrancy guard protects while an operation of the vault is under way (\<open>locked_same\<close>), and with
  it the protection of the lenders: what \<open>work\<close> leaves behind, and what \<open>kill\<close> does.
\<close>

section \<open>Calls back while the guard is entered\<close>

definition same_positions :: "'b vault \<Rightarrow> 'b vault \<Rightarrow> bool" where
  "same_positions s s' \<longleftrightarrow> (\<forall>i. debtShare (positions s' i) = debtShare (positions s i) \<and>
     pos_owner (positions s' i) = pos_owner (positions s i) \<and> pos_worker (positions s' i) = pos_worker (positions s i))"

definition same_debts :: "'b vault \<Rightarrow> 'b vault \<Rightarrow> bool" where
  "same_debts s s' \<longleftrightarrow> vaultDebtShare s' = vaultDebtShare s \<and> vaultDebtVal s' = vaultDebtVal s \<and>
     lastAccrueTime s' = lastAccrueTime s \<and> nextPositionID s' = nextPositionID s \<and> same_positions s s'"

definition locked_same :: "('b, 'x) vault_ext \<Rightarrow> ('b \<Rightarrow> bool) \<Rightarrow> 'b vault \<Rightarrow> 'b vault \<Rightarrow> bool" where
  "locked_same X E s s' \<longleftrightarrow> (E (vault_base s) \<longrightarrow> E (vault_base s') \<and> same_debts s s' \<and>
     totalSupply X s' = totalSupply X s \<and> reservePool s' \<le> reservePool s)"

lemma same_positions_refl [simp]: "same_positions s s"
  by (simp add: same_positions_def)

lemma same_positions_trans: "same_positions s t \<Longrightarrow> same_positions t u \<Longrightarrow> same_positions s u"
  by (simp add: same_positions_def)

lemma same_debts_refl [simp]: "same_debts s s"
  by (simp add: same_debts_def)

lemma same_debts_trans: "same_debts s t \<Longrightarrow> same_debts t u \<Longrightarrow> same_debts s u"
  by (auto simp: same_debts_def intro: same_positions_trans)

interpretation lock: state_relation "locked_same X E" for X :: "('b, 'x) vault_ext" and E
  by unfold_locales (auto simp: locked_same_def intro: same_debts_trans)

lemma base_ok_laws:
  assumes "base_ok X E"
  shows "v_enter X b = Inr b' \<Longrightarrow> \<not> E b \<and> E b' \<and> v_totalSupply X b' = v_totalSupply X b"
    and "v_totalSupply X (v_leave X b) = v_totalSupply X b"
    and "v_mint X a n b = Inr b' \<Longrightarrow> E b' = E b \<and> v_totalSupply X b' = v_totalSupply X b + n"
    and "v_burn X a n b = Inr b' \<Longrightarrow> E b' = E b \<and> v_totalSupply X b' + n = v_totalSupply X b"
    and "v_inherited X a d b = Inr b' \<Longrightarrow> E b' = E b \<and> v_totalSupply X b' = v_totalSupply X b"
  using assms unfolding base_ok_def by blast+

lemma nonReentrant_locked: "base_ok X E \<Longrightarrow> nonReentrant X f (s, x) = Inr y \<Longrightarrow> \<not> E (vault_base s)"
  by (auto simp: nonReentrant_def dest: base_ok_laws(1))

lemma accrue_base: "accrue X m n (s, x) = Inr (s', x') \<Longrightarrow> vault_base s' = vault_base s"
  by (auto simp: accrue_def Let_def split: if_splits)

lemma locked_unentered: "\<not> E (vault_base s) \<Longrightarrow> locked_same X E s s'"
  by (simp add: locked_same_def)

lemma locked_update:
  assumes "same_debts s s'" "vault_base s' = vault_base s" "reservePool s' \<le> reservePool s"
  shows "locked_same X E s s'"
  using assms by (simp add: locked_same_def totalSupply_def)

text \<open>A guarded operation called while the guard is entered cannot succeed.\<close>

lemma guarded_locked:
  assumes B: "base_ok X E" and h: "keeps (locked_same X E) h"
  shows "vault_deposit X h m n (s, x) = Inr (s', x') \<Longrightarrow> \<not> E (vault_base s)"
    and "vault_withdraw X h m n (s, x) = Inr (s', x') \<Longrightarrow> \<not> E (vault_base s)"
    and "vault_work X h m i w n loan maxReturn d (s, x) = Inr (s', x') \<Longrightarrow> \<not> E (vault_base s)"
    and "vault_kill X h m i (s, x) = Inr (s', x') \<Longrightarrow> \<not> E (vault_base s)"
    and "withdrawReserve X h m a n (s, x) = Inr (s', x') \<Longrightarrow> \<not> E (vault_base s)"
proof -
  have pull: "\<not> E (vault_base s)"
    if "transferTokenToVault X h m n (s, x) = Inr (t, y)" "accrue X m n (t, y) = Inr (u, z)" "\<not> E (vault_base u)"
    for t y u z
    using lock.transferTokenToVault [OF h that(1)] accrue_base [OF that(2)] that(3) by (auto simp: locked_same_def)
  show "vault_deposit X h m n (s, x) = Inr (s', x') \<Longrightarrow> \<not> E (vault_base s)"
    by (auto simp: vault_deposit_def dest!: nonReentrant_locked [OF B] dest: pull)
  show "vault_work X h m i w n loan maxReturn d (s, x) = Inr (s', x') \<Longrightarrow> \<not> E (vault_base s)"
    by (auto simp: vault_work_def dest!: nonReentrant_locked [OF B] dest: pull)
  show "vault_withdraw X h m n (s, x) = Inr (s', x') \<Longrightarrow> \<not> E (vault_base s)"
    by (auto simp: vault_withdraw_def dest!: nonReentrant_locked [OF B] accrue_base)
  show "vault_kill X h m i (s, x) = Inr (s', x') \<Longrightarrow> \<not> E (vault_base s)"
    by (auto simp: vault_kill_def dest!: nonReentrant_locked [OF B] accrue_base)
  show "withdrawReserve X h m a n (s, x) = Inr (s', x') \<Longrightarrow> \<not> E (vault_base s)"
    by (auto simp: withdrawReserve_def dest!: nonReentrant_locked [OF B])
qed

lemma inExec_locked:
  assumes f: "\<And>s x s' x'. f (s, x) = Inr (s', x') \<Longrightarrow> locked_same X E s s'"
    and run: "inExec m f (s, x) = Inr (s', x')"
  shows "locked_same X E s s'"
proof -
  from run obtain t where t: "f (s\<lparr>IN_EXEC_LOCK := ENTERED\<rparr>, x) = Inr (t, x')" "s' = t\<lparr>IN_EXEC_LOCK := NOT_ENTERED\<rparr>"
    by (auto simp: inExec_def)
  have lock: "locked_same X E r (r\<lparr>IN_EXEC_LOCK := n\<rparr>)" for r n
    by (rule locked_update) (simp_all add: same_debts_def same_positions_def)
  show ?thesis unfolding t(2) by (rule lock.trans [OF lock.trans [OF lock f [OF t(1)]] lock])
qed

lemma vault_call_locked:
  assumes B: "base_ok X E" and M: "safe_math_ok (v_math X)" and h: "keeps (locked_same X E) h"
    and run: "vault_call X h m c (s, x) = Inr (s', x')"
  shows "locked_same X E s s'"
proof -
  have body: "vault_op_body X h m c (s, x) = Inr (s', x')" using run by (simp add: vault_call_def)
  show ?thesis
  proof (cases c)
    case (RequestFunds tok n)
    with body have "requestFunds X h m tok n (s, x) = Inr (s', x')" by simp
    then show ?thesis unfolding requestFunds_def by (rule inExec_locked [rotated]) (auto dest: lock.safe_calls(2) [OF h])
  next
    case (InjectSerialCode n)
    with body have "injectSerialCode m n (s, x) = Inr (s', x')" by simp
    then show ?thesis unfolding injectSerialCode_def
      by (rule inExec_locked [rotated])
        (auto intro!: locked_update simp: same_debts_def same_positions_def setPosition_def)
  next
    case (UpdateDebtToken a n)
    with body obtain d t y fl where t: "external X h d (s, x) = Inr (t, y)"
        "safe_approve X h a fl uint_max (t\<lparr>debtToken := a, fairLaunchPoolId := n\<rparr>, y) = Inr (s', x')"
      by (auto simp: updateDebtToken_def Let_def)
    have "locked_same X E t (t\<lparr>debtToken := a, fairLaunchPoolId := n\<rparr>)"
      by (rule locked_update) (simp_all add: same_debts_def same_positions_def)
    then show ?thesis by (rule lock.trans [OF lock.trans [OF lock.external [OF h t(1)]] lock.safe_calls(3) [OF h t(2)]])
  next
    case (SetFairLaunchPoolId n)
    with body obtain fl t where t: "safe_approve X h (debtToken s) fl uint_max (s, x) = Inr (t, x')"
        "s' = t\<lparr>fairLaunchPoolId := n\<rparr>"
      by (auto simp: setFairLaunchPoolId_def)
    have "locked_same X E t s'" unfolding t(2)
      by (rule locked_update) (simp_all add: same_debts_def same_positions_def)
    then show ?thesis by (rule lock.trans [OF lock.safe_calls(3) [OF h t(1)]])
  next
    case (UpdateConfig a)
    with body show ?thesis
      by (auto simp: updateConfig_def same_debts_def same_positions_def intro!: locked_update)
  next
    case (ReduceReserve n)
    with body show ?thesis
      by (auto simp: reduceReserve_def same_debts_def same_positions_def safe_math_iff [OF M] intro!: locked_update)
  next
    case (Inherited d)
    with body obtain b where b: "v_inherited X (sender m) d (vault_base s) = Inr b" "s' = s\<lparr>vault_base := b\<rparr>"
      by (auto simp: inherited_def)
    show ?thesis using base_ok_laws(5) [OF B b(1)]
      by (simp add: b(2) locked_same_def same_debts_def same_positions_def totalSupply_def)
  qed (use body in \<open>auto intro!: locked_unentered dest: guarded_locked [OF B h]\<close>)
qed

lemma perform_locked:
  assumes B: "base_ok X E" and M: "safe_math_ok (v_math X)"
  shows "perform depth X m c (s, x) = Inr (s', x') \<Longrightarrow> locked_same X E s s'"
proof (induction depth arbitrary: m c s x s' x')
  case (Suc depth)
  have "keeps (locked_same X E) (\<lambda>a v. perform depth X (m\<lparr>sender := a, msg_value := v\<rparr>))"
    unfolding keeps_def using Suc.IH by blast
  then show ?case using Suc.prems by (auto dest: vault_call_locked [OF B M])
qed simp

lemma handler_locked:
  assumes "base_ok X E" and "safe_math_ok (v_math X)"
  shows "keeps (locked_same X E) (\<lambda>a v. perform depth X (m\<lparr>sender := a, msg_value := v\<rparr>))"
  unfolding keeps_def by (intro allI impI) (rule perform_locked [OF assms])

section \<open>Kill\<close>

lemma lockedD:
  "locked_same X E s s' \<Longrightarrow> E (vault_base s) \<Longrightarrow> E (vault_base s') \<and> same_debts s s' \<and>
     totalSupply X s' = totalSupply X s \<and> reservePool s' \<le> reservePool s"
  by (simp add: locked_same_def)

lemma debtShareToVal_same:
  "vaultDebtShare s' = vaultDebtShare s \<Longrightarrow> vaultDebtVal s' = vaultDebtVal s \<Longrightarrow>
   debtShareToVal M s' n = debtShareToVal M s n"
  by (simp add: debtShareToVal_def)

definition paid_off :: "safe_math \<Rightarrow> nat \<Rightarrow> nat \<Rightarrow> 'b vault \<Rightarrow> 'b vault \<Rightarrow> bool" where
  "paid_off M i debt s s' \<longleftrightarrow>
     debtShareToVal M s (debtShare (positions s i)) = Inr debt \<and>
     vaultDebtShare s' + debtShare (positions s i) = vaultDebtShare s \<and>
     vaultDebtVal s' + debt = vaultDebtVal s \<and> lastAccrueTime s' = lastAccrueTime s \<and>
     nextPositionID s' = nextPositionID s \<and> debtShare (positions s' i) = 0 \<and>
     (\<forall>j. j \<noteq> i \<longrightarrow> debtShare (positions s' j) = debtShare (positions s j)) \<and>
     (\<forall>j. pos_owner (positions s' j) = pos_owner (positions s j) \<and> pos_worker (positions s' j) = pos_worker (positions s j))"

lemma paid_off_same:
  assumes "same_debts s t" and "paid_off M i debt t u" and "same_debts u v"
  shows "paid_off M i debt s v"
  using assms by (simp add: paid_off_def same_debts_def same_positions_def debtShareToVal_same [of t s])

lemma removeDebt_paid_off:
  assumes M: "safe_math_ok M" and run: "removeDebt M i s = Inr (debt, s')" and pos: "0 < debtShare (positions s i)"
  shows "paid_off M i debt s s' \<and> vault_base s' = vault_base s"
  using removeDebt_state [OF M run] pos by (auto simp: paid_off_def setPosition_def)

lemma kill_body_effect:
  assumes M: "safe_math_ok (v_math X)" and h: "keeps (locked_same X E) h" and lock: "E (vault_base s)"
    and run: "kill_body X h m i (s, x) = Inr (s', x')"
  shows "0 < debtShare (positions s i) \<and> (\<exists>debt. paid_off (v_math X) i debt s s')"
proof -
  from run obtain t y debt u v z prize p q left where pos: "0 < debtShare (positions s i)" and steps:
      "fairLaunchWithdraw X h m i (s, x) = Inr (t, y)"
      "removeDebt (v_math X) i t = Inr (debt, u)"
      "external X h (WorkerLiquidate (pos_worker (positions u i)) i) (u, y) = Inr (v, z)"
      "(if prize > 0 then smartSafeTransfer X h (sender m) prize (v, z) else Inr (v, z)) = Inr (p, q)"
      "(if left > 0 then smartSafeTransfer X h (pos_owner (positions p i)) left (p, q) else Inr (p, q)) = Inr (s', x')"
    by (auto simp: kill_body_def Let_def)
  have st: "same_debts s t" "E (vault_base t)"
    using lockedD [OF lock.fairLaunchWithdraw [OF h steps(1)] lock] by blast+
  then have "0 < debtShare (positions t i)" using pos by (simp add: same_debts_def same_positions_def)
  from removeDebt_paid_off [OF M steps(2) this] have tu: "paid_off (v_math X) i debt t u" "E (vault_base u)"
    using st(2) by simp_all
  have "locked_same X E v p" using steps(4) by (auto intro: lock.smartSafeTransfer [OF h] lock.same split: if_splits)
  moreover have "locked_same X E p s'" using steps(5) by (auto intro: lock.smartSafeTransfer [OF h] lock.same split: if_splits)
  ultimately have "locked_same X E u s'" by (blast intro: lock.trans lock.external [OF h steps(3)])
  then have us: "same_debts u s'" using tu(2) by (blast dest: lockedD)
  show ?thesis using paid_off_same [OF st(1) tu(1) us] pos by blast
qed

text \<open>
  C5: A liquidation that succeeds removes exactly the debt of the killed position: after the interest up to
  now, the position's shares and their value leave the totals of the vault and the position has no debt left,
  while debts, owners and workers of all other positions stay as they were, whatever the worker
  does and however it calls back.
\<close>

theorem kill_clears_the_debt:
  assumes M: "safe_math_ok (v_math X)" and B: "base_ok X E"
    and run: "perform depth X m (Kill i) (s, x) = Inr (s', x')"
  shows "0 < debtShare (positions s i) \<and>
    (\<exists>t debt. accrue X m 0 (s, x) = Inr (t, x) \<and> paid_off (v_math X) i debt t s')"
proof -
  from run obtain d where depth: "depth = Suc d" by (cases depth) auto
  let ?h = "\<lambda>a v. perform d X (m\<lparr>sender := a, msg_value := v\<rparr>)"
  from run obtain t y b u where steps: "accrue X m 0 (s, x) = Inr (t, y)" "v_enter X (vault_base t) = Inr b"
      "kill_body X ?h m i (t\<lparr>vault_base := b\<rparr>, y) = Inr (u, x')" "s' = u\<lparr>vault_base := v_leave X (vault_base u)\<rparr>"
    by (auto simp: depth vault_call_def vault_kill_def nonReentrant_def)
  from accrue_state [OF M steps(1)] have y: "y = x" and same: "positions t = positions s" by auto
  have "E (vault_base (t\<lparr>vault_base := b\<rparr>))" using base_ok_laws(1) [OF B steps(2)] by simp
  from kill_body_effect [OF M handler_locked [OF B M] this steps(3)] obtain debt where
    pos: "0 < debtShare (positions t i)" and paid: "paid_off (v_math X) i debt (t\<lparr>vault_base := b\<rparr>) u"
    by auto
  have "paid_off (v_math X) i debt t s'"
    by (rule paid_off_same [OF _ paid]) (simp_all add: steps(4) same_debts_def same_positions_def)
  then show ?thesis using steps(1) pos by (auto simp: y same)
qed

definition sample_killed :: "(bool \<times> nat) vault" where
  "sample_killed = (setPosition 1 (\<lambda>p. p\<lparr>debtShare := 0\<rparr>) sample_lent)
     \<lparr>vaultDebtShare := 0, vaultDebtVal := 0, reservePool := 40000000000000000, lastAccrueTime := 200001000\<rparr>"

lemma sample_kill:
  "perform 1 plain_vault (vault_msg_of ''Z'' 200001000) (Kill 1) (sample_lent, 200000000000000000) =
     Inr (sample_killed, 390000000000000000)"
  by (simp add: vault_run vault_kill_def kill_body_def sample_open_def sample_funded_def sample_lent_def
    sample_killed_def no_position_def setPosition_def removeDebt_def debtShareToVal_def fairLaunchWithdraw_def
    pendingInterest_def kill_guard_def smartSafeTransfer_def fun_eq_iff)

theorem kill_clears_the_debt_witness:
  "\<exists>t debt. accrue plain_vault (vault_msg_of ''Z'' 200001000) 0 (sample_lent, 200000000000000000) =
     Inr (t, 200000000000000000) \<and> paid_off checked_math 1 debt t sample_killed"
  using kill_clears_the_debt [OF plain_vault_ok sample_kill] by (simp add: plain_vault_def)

end
