(* ===== verification/Vault_Health.thy ===== *)
theory Vault_Health
  imports Vault_Safety
begin

text \<open>
  What \<open>work\<close> of \<open>Vault.sol\<close> leaves behind: the position carries no debt or a debt that passed the checks of
  the size and of the work factor, and nobody can liquidate it in the same block.
\<close>

section \<open>Calls that settle a position\<close>

text \<open>
  The calls other than those of the worker's \<open>work\<close> and \<open>liquidate\<close> move tokens between accounts and stake
  debt tokens.  That they neither call back nor change what the checks read is a property of the
  tokens and of FairLaunch.
\<close>

fun settlement :: "out_call \<Rightarrow> bool" where
  "settlement (WorkerWork w i a n d) = False"
| "settlement (WorkerLiquidate w i) = False"
| "settlement _ = True"

definition same_views :: "('b, 'x) vault_ext \<Rightarrow> 'x \<Rightarrow> 'x \<Rightarrow> bool" where
  "same_views X x y \<longleftrightarrow> (\<forall>a w i d.
     v_health X w i y = v_health X w i x \<and>
     vc_minDebtSize (v_config_at X a) y = vc_minDebtSize (v_config_at X a) x \<and>
     vc_workFactor (v_config_at X a) w d y = vc_workFactor (v_config_at X a) w d x \<and>
     vc_killFactor (v_config_at X a) w d y = vc_killFactor (v_config_at X a) w d x)"

definition settles_quietly :: "('b, 'x) vault_ext \<Rightarrow> bool" where
  "settles_quietly X \<longleftrightarrow> (\<forall>s c x. settlement c \<longrightarrow> (case v_call X s c x of
     Finished y \<Rightarrow> same_views X x y | Reverted e \<Rightarrow> True | CallsBack a v op z k \<Rightarrow> False))"

lemma same_views_refl [simp]: "same_views X x x"
  by (simp add: same_views_def)

lemma same_views_trans: "same_views X x y \<Longrightarrow> same_views X y z \<Longrightarrow> same_views X x z"
  by (simp add: same_views_def)

lemma quiet_external:
  assumes q: "settles_quietly X" and c: "settlement c" and run: "external X h c (s, x) = Inr (s', x')"
  shows "s' = s \<and> same_views X x x'"
proof -
  from q c have "case v_call X s c x of Finished y \<Rightarrow> same_views X x y | Reverted e \<Rightarrow> True
      | CallsBack a v op z k \<Rightarrow> False"
    by (simp add: settles_quietly_def)
  then show ?thesis using run by (auto simp: external_def split: run.splits)
qed

lemma quiet_calls:
  assumes q: "settles_quietly X"
  shows "safe_transfer X h tok to n (s, x) = Inr (s', x') \<Longrightarrow> s' = s \<and> same_views X x x'"
    and "safe_transferFrom X h tok from to n (s, x) = Inr (s', x') \<Longrightarrow> s' = s \<and> same_views X x x'"
    and "safe_transferETH X h to n (s, x) = Inr (s', x') \<Longrightarrow> s' = s \<and> same_views X x x'"
  unfolding safe_transfer_def safe_transferFrom_def safe_transferETH_def safely_Inr
  by - (rule quiet_external [OF q, rotated], assumption, simp)+

lemma quiet_transferTokenToVault:
  assumes q: "settles_quietly X" and run: "transferTokenToVault X h m n (s, x) = Inr (s', x')"
  shows "s' = s \<and> same_views X x x'"
proof (cases "msg_value m \<noteq> 0")
  case True
  with run obtain wrapped where "external X h (WethDeposit wrapped (msg_value m)) (s, x) = Inr (s', x')"
    by (auto simp: transferTokenToVault_def)
  then show ?thesis by (rule quiet_external [OF q, rotated]) simp
next
  case False
  with run show ?thesis by (auto simp: transferTokenToVault_def dest: quiet_calls(2) [OF q])
qed

lemma quiet_smartSafeTransfer:
  assumes q: "settles_quietly X" and run: "smartSafeTransfer X h to n (s, x) = Inr (s', x')"
  shows "s' = s \<and> same_views X x x'"
proof (cases "vc_getWrappedNativeAddr (vault_config_of X s) x = Inr (vaultToken s)")
  case True
  with run obtain rel t y rel' u z where run: "safe_transfer X h (vaultToken s) rel n (s, x) = Inr (t, y)"
      "external X h (RelayerWithdraw rel' n) (t, y) = Inr (u, z)"
      "safe_transferETH X h to n (u, z) = Inr (s', x')"
    by (auto simp: smartSafeTransfer_def)
  then show ?thesis
    using quiet_calls(1) [OF q run(1)] quiet_external [OF q _ run(2)] quiet_calls(3) [OF q run(3)]
    by (auto intro: same_views_trans)
next
  case False
  with run show ?thesis by (auto simp: smartSafeTransfer_def dest: quiet_calls(1) [OF q] split: if_splits)
qed

lemma quiet_fairLaunchDeposit:
  assumes q: "settles_quietly X" and run: "fairLaunchDeposit X h m i n (s, x) = Inr (s', x')"
  shows "s' = s \<and> same_views X x x'"
proof (cases "n > 0")
  case True
  with run obtain t y fl where run: "external X h (DebtMint (debtToken s) (this m) n) (s, x) = Inr (t, y)"
      "external X h (FairLaunchDeposit fl (pos_owner (positions t i)) (fairLaunchPoolId t) n) (t, y) = Inr (s', x')"
    by (auto simp: fairLaunchDeposit_def)
  show ?thesis using quiet_external [OF q _ run(1)] quiet_external [OF q _ run(2)]
    by (auto intro: same_views_trans)
qed (use run in \<open>simp add: fairLaunchDeposit_def\<close>)

lemma quiet_fairLaunchWithdraw:
  assumes q: "settles_quietly X" and run: "fairLaunchWithdraw X h m i (s, x) = Inr (s', x')"
  shows "s' = s \<and> same_views X x x'"
  using fairLaunchWithdraw_cases [OF run]
proof
  assume "\<exists>fl a k n b j t y. external X h (FairLaunchWithdraw fl a k n) (s, x) = Inr (t, y) \<and>
    external X h (DebtBurn b (this m) j) (t, y) = Inr (s', x')"
  then obtain fl a k n b j t y where run: "external X h (FairLaunchWithdraw fl a k n) (s, x) = Inr (t, y)"
      "external X h (DebtBurn b (this m) j) (t, y) = Inr (s', x')"
    by blast
  show ?thesis using quiet_external [OF q _ run(1)] quiet_external [OF q _ run(2)]
    by (auto intro: same_views_trans)
qed simp

lemma quiet_work_return:
  "settles_quietly X \<Longrightarrow> work_return X h m got paid (s, x) = Inr (s', x') \<Longrightarrow> s' = s \<and> same_views X x x'"
  by (auto simp: work_return_def Let_def split: if_splits dest: quiet_smartSafeTransfer)

section \<open>The debt that work leaves\<close>

definition healthy :: "('b, 'x) vault_ext \<Rightarrow> nat \<Rightarrow> ('b, 'x) vault_state \<Rightarrow> nat \<Rightarrow> bool" where
  "healthy X i = (\<lambda>(s, x) debt. \<exists>least health factor.
     vc_minDebtSize (vault_config_of X s) x = Inr least \<and> least \<le> debt \<and>
     v_health X (pos_worker (positions s i)) i x = Inr health \<and>
     vc_workFactor (vault_config_of X s) (pos_worker (positions s i)) debt x = Inr factor \<and>
     debt * 10000 \<le> health * factor)"

lemma healthy_same:
  assumes "healthy X i (s, x) debt" and "vaultConfig s' = vaultConfig s"
    and "pos_worker (positions s' i) = pos_worker (positions s i)" and "same_views X x x'"
  shows "healthy X i (s', x') debt"
  using assms by (simp add: healthy_def same_views_def vault_config_of_def)

definition debt_bounded :: "safe_math \<Rightarrow> nat \<Rightarrow> 'b vault \<Rightarrow> nat \<Rightarrow> bool" where
  "debt_bounded M i s debt \<longleftrightarrow> (\<forall>v. debtShareToVal M s (debtShare (positions s i)) = Inr v \<longrightarrow> v \<le> debt)"

lemma debt_bounded_updates [simp]:
  "debt_bounded M i (s\<lparr>vault_base := b\<rparr>) = debt_bounded M i s"
  "debt_bounded M i (s\<lparr>POSITION_ID := j, STRATEGY := a\<rparr>) = debt_bounded M i s"
  by (simp_all add: debt_bounded_def debtShareToVal_def fun_eq_iff)

lemma healthy_updates [simp]: "healthy X i (s\<lparr>vault_base := b\<rparr>, x) = healthy X i (s, x)"
  by (simp add: healthy_def vault_config_of_def)

text \<open>The shares entered for a debt are worth at most that debt.\<close>

lemma addDebt_bounded:
  assumes M: "safe_math_ok M" and inv: "debt_inv s" and none: "debtShare (positions s i) = 0"
    and run: "addDebt M i n s = Inr s'"
  shows "debt_bounded M i s' n"
proof -
  let ?S = "vaultDebtShare s" and ?V = "vaultDebtVal s"
  from addDebt_state [OF M run] obtain share where share: "debtValToShare M s n = Inr share"
    and s': "s' = (setPosition i (\<lambda>p. p\<lparr>debtShare := debtShare (positions s i) + share\<rparr>) s)
      \<lparr>vaultDebtShare := ?S + share, vaultDebtVal := ?V + n\<rparr>" by blast
  have "share * ?V \<le> n * ?S \<and> (?S = 0 \<longrightarrow> share = n \<and> ?V = 0)"
    using share inv by (auto simp: debtValToShare_Inr [OF M] debt_inv_def split: if_splits)
  then have "share * (?V + n) \<le> n * (?S + share)" by (simp add: algebra_simps)
  then have "share * (?V + n) div (?S + share) \<le> n * (?S + share) div (?S + share)" by (rule div_le_mono)
  also have "\<dots> \<le> n" by simp
  finally show ?thesis by (auto simp: debt_bounded_def debtShareToVal_Inr [OF M] s' setPosition_def none split: if_splits)
qed

lemma work_debt_effect:
  assumes M: "safe_math_ok (v_math X)" and q: "settles_quietly X" and inv: "debt_inv s"
    and none: "debtShare (positions s i) = 0" and w: "pos_worker (positions s i) = w"
    and run: "work_debt X h m i w n (s, x) = Inr (s', x')"
  shows "vault_base s' = vault_base s \<and> lastAccrueTime s' = lastAccrueTime s \<and> vaultConfig s' = vaultConfig s \<and>
    pos_owner (positions s' i) = pos_owner (positions s i) \<and> pos_worker (positions s' i) = w \<and>
    (debtShare (positions s' i) = 0 \<or> debt_bounded (v_math X) i s' n \<and> healthy X i (s', x') n)"
proof (cases "n > 0")
  case True
  with run obtain least health factor t k where steps: "vc_minDebtSize (vault_config_of X s) x = Inr least" "least \<le> n"
      "v_health X w i x = Inr health" "vc_workFactor (vault_config_of X s) w n x = Inr factor"
      "work_guard (v_math X) health n factor = Inr ()" "addDebt (v_math X) i n s = Inr t"
      "fairLaunchDeposit X h m i k (t, x) = Inr (s', x')"
    by (auto simp: work_debt_def)
  have views: "s' = t" "same_views X x x'" using quiet_fairLaunchDeposit [OF q steps(7)] by simp_all
  from addDebt_state [OF M steps(6)] obtain share where
    t: "t = (setPosition i (\<lambda>p. p\<lparr>debtShare := debtShare (positions s i) + share\<rparr>) s)
      \<lparr>vaultDebtShare := vaultDebtShare s + share, vaultDebtVal := vaultDebtVal s + n\<rparr>" by blast
  have "healthy X i (s, x) n"
    using steps(1-5) by (auto simp: healthy_def w guards_iff [OF M])
  then have "healthy X i (s', x') n"
    by (rule healthy_same) (simp_all add: views t setPosition_def)
  moreover have "debt_bounded (v_math X) i s' n"
    using addDebt_bounded [OF M inv none steps(6)] by (simp add: views)
  ultimately show ?thesis by (simp add: views(1)) (simp add: t setPosition_def w)
next
  case False
  with run have "s' = s" "x' = x" by (simp_all add: work_debt_def)
  then show ?thesis by (simp add: none w)
qed

lemma removeDebt_none:
  assumes M: "safe_math_ok M" and run: "removeDebt M i s = Inr (n, s')"
  shows "debtShare (positions s' i) = 0 \<and> vault_base s' = vault_base s \<and> vaultConfig s' = vaultConfig s \<and>
    lastAccrueTime s' = lastAccrueTime s \<and> pos_owner (positions s' j) = pos_owner (positions s j) \<and>
    pos_worker (positions s' j) = pos_worker (positions s j)"
  using removeDebt_state [OF M run] by (auto simp: setPosition_def)

lemma work_position_effect:
  assumes q: "settles_quietly X" and run: "work_position X h m i w (s, x) = Inr (j, s', x')"
  shows "(i \<noteq> 0 \<longrightarrow> j = i) \<and> pos_owner (positions s' j) = sender m \<and> pos_worker (positions s' j) = w \<and>
    vault_base s' = vault_base s \<and> lastAccrueTime s' = lastAccrueTime s \<and> same_views X x x'"
proof (cases "i = 0")
  case True
  with run show ?thesis by (auto simp: work_position_def Let_def setPosition_def)
next
  case False
  with run have "fairLaunchWithdraw X h m i (s, x) = Inr (s', x')" "j = i"
      "pos_worker (positions s i) = w" "pos_owner (positions s i) = sender m"
    by (auto simp: work_position_def Let_def)
  then show ?thesis using quiet_fairLaunchWithdraw [OF q] by blast
qed

lemma same_debts_inv:
  assumes "same_debts s s'" and "debt_inv s"
  shows "debt_inv s'"
proof -
  have "debtShare (positions s' i) = debtShare (positions s i)" for i
    using assms(1) by (simp add: same_debts_def same_positions_def)
  then show ?thesis using assms by (simp add: debt_inv_def borrowers_def same_debts_def)
qed

lemma work_body_effect:
  assumes M: "safe_math_ok (v_math X)" and q: "settles_quietly X" and h: "keeps (locked_same X E) h"
    and lock: "E (vault_base s)" and inv: "debt_inv s"
    and h': "keeps (\<lambda>s s'. safe_math_ok (v_math X) \<longrightarrow> debt_inv s \<longrightarrow> debt_inv s') h"
    and run: "work_body X h m i w amount loan maxReturn d (s, x) = Inr (s', x')"
  shows "\<exists>j debt. (i \<noteq> 0 \<longrightarrow> j = i) \<and> lastAccrueTime s' = lastAccrueTime s \<and>
    pos_owner (positions s' j) = sender m \<and> pos_worker (positions s' j) = w \<and>
    (debtShare (positions s' j) = 0 \<or> debt_bounded (v_math X) j s' debt \<and> healthy X j (s', x') debt)"
proof -
  from run obtain j t y strategy removed debt sent n got u v z p c k l where steps:
      "work_position X h m i w (s, x) = Inr (j, t, y)"
      "removeDebt (v_math X) j (t\<lparr>POSITION_ID := j, STRATEGY := strategy\<rparr>) = Inr (removed, u)"
      "work_exec X h m j w sent debt d (u, y) = Inr (got, v, z)"
      "work_debt X h m j w n (v, z) = Inr (p, c)"
      "work_return X h m got k (p, c) = Inr (l, x')"
      "s' = l\<lparr>POSITION_ID := NO_ID, STRATEGY := NO_ADDRESS\<rparr>"
    by (auto simp: work_body_def Let_def)
  have t: "i \<noteq> 0 \<longrightarrow> j = i" "pos_owner (positions t j) = sender m" "pos_worker (positions t j) = w"
      "vault_base t = vault_base s" "lastAccrueTime t = lastAccrueTime s"
    using work_position_effect [OF q steps(1)] by blast+
  have "debt_inv t" using debts.work_position_kept [OF h' steps(1)] M inv by blast
  then have "debt_inv (t\<lparr>POSITION_ID := j, STRATEGY := strategy\<rparr>)" by simp
  then have inv_u: "debt_inv u" by (rule removeDebt_debts [OF M _ steps(2)])
  have u: "debtShare (positions u j) = 0" "pos_owner (positions u j) = sender m" "pos_worker (positions u j) = w"
      "vault_base u = vault_base s" "lastAccrueTime u = lastAccrueTime s"
    using removeDebt_none [OF M steps(2), of j] t by simp_all
  have uv: "same_debts u v" using lockedD [OF lock.work_exec [OF h steps(3)]] lock u(4) by simp
  have v: "debtShare (positions v j) = 0" "pos_owner (positions v j) = sender m" "pos_worker (positions v j) = w"
      "lastAccrueTime v = lastAccrueTime s"
    using uv u by (simp_all add: same_debts_def same_positions_def)
  have p: "lastAccrueTime p = lastAccrueTime s" "pos_owner (positions p j) = sender m" "pos_worker (positions p j) = w"
      "debtShare (positions p j) = 0 \<or> debt_bounded (v_math X) j p n \<and> healthy X j (p, c) n"
    using work_debt_effect [OF M q same_debts_inv [OF uv inv_u] v(1,3) steps(4)] v by simp_all
  have l: "l = p" "same_views X c x'" using quiet_work_return [OF q steps(5)] by simp_all
  have "healthy X j (s', x') n" if "healthy X j (p, c) n"
    by (rule healthy_same [OF that _ _ l(2)]) (simp_all add: steps(6) l(1))
  moreover have "debt_bounded (v_math X) j s' n" if "debt_bounded (v_math X) j p n"
    using that by (simp add: steps(6) l(1))
  ultimately show ?thesis using t(1) p by (intro exI [of _ j] exI [of _ n]) (auto simp: steps(6) l(1))
qed

section \<open>No liquidation in the same block\<close>

text \<open>The factor of liquidation is never below the factor of opening, whatever the debt.\<close>

definition factors_ordered :: "('b, 'x) vault_ext \<Rightarrow> bool" where
  "factors_ordered X \<longleftrightarrow> (\<forall>a w debt debt' x f k. vc_workFactor (v_config_at X a) w debt x = Inr f \<longrightarrow>
     vc_killFactor (v_config_at X a) w debt' x = Inr k \<longrightarrow> f \<le> k)"

lemma kill_body_debt: "kill_body X h m i (s, x) = Inr y \<Longrightarrow> 0 < debtShare (positions s i)"
  by (auto simp: kill_body_def Let_def)

lemma healthy_not_killed:
  assumes M: "safe_math_ok (v_math X)" and q: "settles_quietly X" and F: "factors_ordered X"
    and debt: "debt_bounded (v_math X) i s debt" "healthy X i (s, x) debt"
  shows "kill_body X h m i (s, x) \<noteq> Inr y"
proof
  assume "kill_body X h m i (s, x) = Inr y"
  then obtain t z v u health k where pos: "0 < debtShare (positions s i)" and steps:
      "fairLaunchWithdraw X h m i (s, x) = Inr (t, z)" "removeDebt (v_math X) i t = Inr (v, u)"
      "v_health X (pos_worker (positions u i)) i z = Inr health"
      "vc_killFactor (vault_config_of X u) (pos_worker (positions u i)) v z = Inr k"
      "kill_guard (v_math X) health v k = Inr ()"
    by (auto simp: kill_body_def Let_def)
  have t: "t = s" "same_views X x z" using quiet_fairLaunchWithdraw [OF q steps(1)] by simp_all
  have u: "pos_worker (positions u i) = pos_worker (positions s i)" "vaultConfig u = vaultConfig s"
    using removeDebt_none [OF M steps(2), of i] by (simp_all add: t)
  have "debtShareToVal (v_math X) s (debtShare (positions s i)) = Inr v"
    using removeDebt_state [OF M steps(2)] pos by (simp add: t)
  then have le: "v \<le> debt" using debt(1) by (simp add: debt_bounded_def)
  from debt(2) obtain health' factor where ok: "v_health X (pos_worker (positions s i)) i x = Inr health'"
      "vc_workFactor (vault_config_of X s) (pos_worker (positions s i)) debt x = Inr factor"
      "debt * 10000 \<le> health' * factor"
    by (auto simp: healthy_def)
  have same: "health' = health" using steps(3) ok(1) t(2) by (simp add: u same_views_def)
  have "vc_workFactor (v_config_at X (vaultConfig s)) (pos_worker (positions s i)) debt z = Inr factor"
    using ok(2) t(2) by (simp add: same_views_def vault_config_of_def)
  then have "factor \<le> k" using F steps(4) unfolding factors_ordered_def by (simp add: u vault_config_of_def)
  then have "health * factor \<le> health * k" by (rule mult_le_mono2)
  moreover have "health * k < v * 10000" using steps(5) by (simp add: guards_iff [OF M])
  ultimately show False using ok(3) le unfolding same by linarith
qed

lemma accrue_again: "block_timestamp m \<le> lastAccrueTime s \<Longrightarrow> accrue X m n (s, x) = Inr (s, x)"
  by (simp add: accrue_def)

text \<open>
  C2: A farmer's \<open>work\<close> that succeeds leaves its position with no debt, or with a debt of at least the
  configured minimum that the work factor allows at the worker's valuation; the position belongs to the caller and
  to the worker that was named; and a liquidation of it that runs directly on the state \<open>work\<close> left, with no
  transaction in between and at the same block timestamp, fails.  The worker may call back at will.  The
  hypotheses are that the tokens and FairLaunch make no calls back and do not change what the checks read, and
  that the kill factor is not below the work factor, which \<open>WorkerConfig.setConfigs\<close> does not enforce.
\<close>

theorem work_leaves_a_safe_position:
  assumes M: "safe_math_ok (v_math X)" and B: "base_ok X E" and q: "settles_quietly X" and F: "factors_ordered X"
    and reach: "vault_reach X (s, x)"
    and run: "perform depth X m (Work i w amount loan maxReturn d) (s, x) = Inr (s', x')"
  shows "\<exists>j debt. (i \<noteq> 0 \<longrightarrow> j = i) \<and> pos_owner (positions s' j) = sender m \<and> pos_worker (positions s' j) = w \<and>
    (debtShare (positions s' j) = 0 \<or> debt_bounded (v_math X) j s' debt \<and> healthy X j (s', x') debt) \<and>
    (\<forall>depth' m' y. block_timestamp m' = block_timestamp m \<longrightarrow> perform depth' X m' (Kill j) (s', x') \<noteq> Inr y)"
proof -
  from run obtain n where depth: "depth = Suc n" by (cases depth) auto
  let ?h = "\<lambda>a v. perform n X (m\<lparr>sender := a, msg_value := v\<rparr>)"
  from run obtain t y u z b v where steps: "transferTokenToVault X ?h m amount (s, x) = Inr (t, y)"
      "accrue X m amount (t, y) = Inr (u, z)" "v_enter X (vault_base u) = Inr b"
      "work_body X ?h m i w amount loan maxReturn d (u\<lparr>vault_base := b\<rparr>, z) = Inr (v, x')"
      "s' = v\<lparr>vault_base := v_leave X (vault_base v)\<rparr>"
    by (auto simp: depth vault_call_def vault_work_def nonReentrant_def)
  have "debt_inv s" using reach_debts [OF reach M] by simp
  then have "debt_inv t" using debts.transferTokenToVault [OF handler_debts steps(1)] M by blast
  then have inv: "debt_inv (u\<lparr>vault_base := b\<rparr>)" using accrue_debts [OF M _ steps(2)] by simp
  have time: "block_timestamp m \<le> lastAccrueTime u" using accrue_state [OF M steps(2)] by auto
  have "E (vault_base (u\<lparr>vault_base := b\<rparr>))" using base_ok_laws(1) [OF B steps(3)] by simp
  from work_body_effect [OF M q handler_locked [OF B M] this inv handler_debts steps(4)] obtain j debt where
    j: "i \<noteq> 0 \<longrightarrow> j = i" "lastAccrueTime v = lastAccrueTime u" "pos_owner (positions v j) = sender m"
      "pos_worker (positions v j) = w"
      "debtShare (positions v j) = 0 \<or> debt_bounded (v_math X) j v debt \<and> healthy X j (v, x') debt"
    by auto
  have safe: "debtShare (positions (s'\<lparr>vault_base := b\<rparr>) j) = 0 \<or>
      debt_bounded (v_math X) j (s'\<lparr>vault_base := b\<rparr>) debt \<and> healthy X j (s'\<lparr>vault_base := b\<rparr>, x') debt" for b
    using j(5) by (simp add: steps(5))
  have "perform depth' X m' (Kill j) (s', x') \<noteq> Inr y"
    if m': "block_timestamp m' = block_timestamp m" for depth' m' y
  proof
    assume kill: "perform depth' X m' (Kill j) (s', x') = Inr y"
    then obtain n' where depth': "depth' = Suc n'" by (cases depth') auto
    have "accrue X m' 0 (s', x') = Inr (s', x')"
      by (rule accrue_again) (use time m' in \<open>simp add: steps(5) j(2)\<close>)
    with kill obtain c r where run: "kill_body X (\<lambda>a v. perform n' X (m'\<lparr>sender := a, msg_value := v\<rparr>)) m' j
        (s'\<lparr>vault_base := c\<rparr>, x') = Inr r"
      by (auto simp: depth' vault_call_def vault_kill_def nonReentrant_def)
    have "debt_bounded (v_math X) j (s'\<lparr>vault_base := c\<rparr>) debt" "healthy X j (s'\<lparr>vault_base := c\<rparr>, x') debt"
      using safe [of c] kill_body_debt [OF run] by simp_all
    from healthy_not_killed [OF M q F this] run show False by blast
  qed
  then show ?thesis using j safe [of "vault_base s'"] by (intro exI [of _ j] exI [of _ debt]) (simp add: steps(5))
qed

lemma plain_vault_quiet [simp]: "settles_quietly plain_vault"
  unfolding settles_quietly_def
proof (intro allI impI)
  fix s :: "(bool \<times> nat) vault" and c x
  assume "settlement c"
  then show "case v_call plain_vault s c x of Finished y \<Rightarrow> same_views plain_vault x y | Reverted e \<Rightarrow> True
      | CallsBack a v op z k \<Rightarrow> False"
    by (cases c) (simp_all add: plain_vault_def same_views_def plain_config_def)
qed

lemma plain_vault_ordered [simp]: "factors_ordered plain_vault"
  by (simp add: factors_ordered_def plain_vault_def plain_config_def)

theorem work_leaves_a_safe_position_witness:
  "\<exists>j. pos_owner (positions sample_lent j) = ''F'' \<and>
     (\<forall>y. perform 1 plain_vault (vault_msg_of ''Z'' 1000) (Kill j) (sample_lent, 200000000000000000) \<noteq> Inr y)"
proof -
  from work_leaves_a_safe_position [OF plain_vault_ok plain_vault_quiet plain_vault_ordered sample_reach(2) sample_steps(3)]
  obtain j where j: "pos_owner (positions sample_lent j) = sender (vault_msg_of ''F'' 1000)"
    "\<forall>depth' m' y. block_timestamp m' = block_timestamp (vault_msg_of ''F'' 1000) \<longrightarrow>
       perform depth' plain_vault m' (Kill j) (sample_lent, 200000000000000000) \<noteq> Inr y"
    by (elim exE conjE) (rule that)
  have "block_timestamp (vault_msg_of ''Z'' 1000) = block_timestamp (vault_msg_of ''F'' 1000)"
    by (simp add: vault_msg_of_def)
  with j(2) have "\<forall>y. perform 1 plain_vault (vault_msg_of ''Z'' 1000) (Kill j) (sample_lent, 200000000000000000) \<noteq> Inr y"
    by blast
  moreover have "pos_owner (positions sample_lent j) = ''F''" using j(1) by (simp add: vault_msg_of_def)
  ultimately show ?thesis by blast
qed

end
