(* ===== verification/Vault_Lenders.thy ===== *)
theory Vault_Lenders
  imports Vault_Health
begin

text \<open>
  What the lenders of \<open>Vault.sol\<close> keep: the tokens a share can be redeemed for (\<open>withdraw_amount\<close>) never
  fall when somebody deposits or withdraws, and a deposit cannot be taken out with a profit.
\<close>

section \<open>The price of a share\<close>

lemma withdraw_amount_Inr:
  assumes M: "safe_math_ok (v_math X)"
  shows "withdraw_amount X m n (s, x) = Inr p \<longleftrightarrow> (\<exists>T. totalToken X m (s, x) = Inr T \<and>
    n * T \<le> uint_max \<and> 0 < totalSupply X s \<and> p = n * T div totalSupply X s)"
  by (auto simp: withdraw_amount_def safe_math_iff [OF M])

lemma totalToken_Inr:
  assumes M: "safe_math_ok (v_math X)"
  shows "totalToken X m (s, x) = Inr T \<longleftrightarrow> (\<exists>b. v_balanceOf X (vaultToken s) (this m) x = Inr b \<and>
    b + vaultDebtVal s \<le> uint_max \<and> reservePool s \<le> b + vaultDebtVal s \<and> T = b + vaultDebtVal s - reservePool s)"
  by (auto simp: totalToken_def Let_def safe_math_iff [OF M])

text \<open>Comparing two prices, rounded down: \<open>T / S \<le> T' / S'\<close>.\<close>

lemma price_le:
  fixes T S T' S' q :: nat
  assumes "T * S' \<le> T' * S" and "0 < S'"
  shows "q * T div S \<le> q * T' div S'"
proof (cases "S = 0")
  case False
  let ?k = "q * T div S"
  have "?k * S * S' \<le> q * T * S'" by simp
  also have "\<dots> \<le> q * (T' * S)" using assms(1) by (simp add: mult.assoc)
  finally have "?k * S' * S \<le> q * T' * S" by (simp add: ac_simps)
  then have "?k * S' \<le> q * T'" using False by simp
  then show ?thesis using assms(2) by (simp add: less_eq_div_iff_mult_less_eq)
qed simp

section \<open>Deposits\<close>

lemma deposit_internal_effect:
  assumes M: "safe_math_ok (v_math X)" and B: "base_ok X E"
    and run: "deposit_internal X m n (s, x) = Inr (s', x')"
  shows "\<exists>T share b. totalToken X m (s, x) = Inr (T + n) \<and> x' = x \<and> s' = s\<lparr>vault_base := b\<rparr> \<and>
    share = (if T = 0 then n else n * totalSupply X s div T) \<and> totalSupply X s' = totalSupply X s + share \<and>
    0 < totalSupply X s'"
proof -
  from run obtain total r share b where total: "totalToken X m (s, x) = Inr total" "sm_sub (v_math X) total n = Inr r"
    and steps:
      "(if r = 0 then Inr n else bindE (sm_mul (v_math X) n (totalSupply X s)) (\<lambda>p. sm_div (v_math X) p r)) = Inr share"
      "v_mint X (sender m) share (vault_base s) = Inr b" "totalSupply X (s\<lparr>vault_base := b\<rparr>) > 10 ^ 17"
      "(s\<lparr>vault_base := b\<rparr>, x) = (s', x')"
    unfolding deposit_internal_def Let_def prod.case bindE_eq_Inr require_eq_Inr sum.inject by (elim exE conjE) (rule that)
  from steps(4) have s': "s' = s\<lparr>vault_base := b\<rparr>" "x' = x" by simp_all
  have "share = (if r = 0 then n else n * totalSupply X s div r)"
    using steps(1) by (simp add: safe_math_iff [OF M] split: if_splits)
  moreover have "totalSupply X s' = totalSupply X s + share"
    using base_ok_laws(3) [OF B steps(2)] by (simp add: s' totalSupply_def)
  moreover have "totalToken X m (s, x) = Inr (r + n)" using total by (simp add: safe_math_iff(2) [OF M])
  moreover have "0 < totalSupply X s'" using steps(3) by (simp add: s')
  ultimately show ?thesis using s' by blast
qed

lemma totalSupply_base [simp]: "totalSupply X (s\<lparr>vault_base := b\<rparr>) = v_totalSupply X b"
  by (simp add: totalSupply_def)

lemma totalToken_base [simp]: "totalToken X m (s\<lparr>vault_base := b\<rparr>, x) = totalToken X m (s, x)"
  by (simp add: totalToken_def)

text \<open>The shares of a deposit are at most its part of the tokens.\<close>

lemma deposit_share:
  fixes T S n :: nat
  assumes "share = (if T = 0 then n else n * S div T)"
  shows "share * T \<le> n * S" and "share * (T + n) \<le> n * (S + share)"
proof -
  show *: "share * T \<le> n * S" using assms by simp
  then show "share * (T + n) \<le> n * (S + share)" by (simp add: algebra_simps)
qed

text \<open>
  Tokens that bring the vault \<open>a\<close> exactly what is paid in, by a transfer from others or by wrapping ether; a
  payment leaves alone what the configuration says of the interest rate and the share of the reserve.
\<close>

definition collects_exactly :: "('b, 'x) vault_ext \<Rightarrow> address \<Rightarrow> bool" where
  "collects_exactly X a \<longleftrightarrow> (\<forall>s tok from n x y.
     v_call X s (TransferFrom tok from a n) x = Finished y \<and> from \<noteq> a \<or> v_call X s (WethDeposit tok n) x = Finished y \<longrightarrow>
       (\<exists>b. v_balanceOf X tok a x = Inr b \<and> v_balanceOf X tok a y = Inr (b + n)) \<and>
       (\<forall>c debt b. vc_getInterestRate (v_config_at X c) debt b y = vc_getInterestRate (v_config_at X c) debt b x \<and>
          vc_getReservePoolBps (v_config_at X c) y = vc_getReservePoolBps (v_config_at X c) x))"

lemma quiet_outcome:
  assumes q: "settles_quietly X" and c: "settlement c" and run: "external X h c (s, x) = Inr (s', x')"
  shows "v_call X s c x = Finished x'"
proof -
  from q c have "case v_call X s c x of Finished y \<Rightarrow> same_views X x y | Reverted e \<Rightarrow> True
      | CallsBack a v op z k \<Rightarrow> False"
    by (simp add: settles_quietly_def)
  then show ?thesis using run by (auto simp: external_def split: run.splits)
qed

lemma transferTokenToVault_collects:
  assumes q: "settles_quietly X" and C: "collects_exactly X (this m)" and other: "sender m \<noteq> this m"
    and run: "transferTokenToVault X h m n (s, x) = Inr (t, y)"
  shows "\<exists>b. v_balanceOf X (vaultToken s) (this m) x = Inr b \<and> v_balanceOf X (vaultToken s) (this m) y = Inr (b + n)"
    and "vc_getInterestRate (v_config_at X c) debt k y = vc_getInterestRate (v_config_at X c) debt k x"
    and "vc_getReservePoolBps (v_config_at X c) y = vc_getReservePoolBps (v_config_at X c) x"
proof -
  have "v_call X s (TransferFrom (vaultToken s) (sender m) (this m) n) x = Finished y \<or>
      v_call X s (WethDeposit (vaultToken s) n) x = Finished y"
  proof (cases "msg_value m = 0")
    case True
    then have "external X h (TransferFrom (vaultToken s) (sender m) (this m) n) (s, x) = Inr (t, y)"
      using run by (simp add: transferTokenToVault_def safe_transferFrom_def)
    then have "v_call X s (TransferFrom (vaultToken s) (sender m) (this m) n) x = Finished y"
      by (rule quiet_outcome [OF q, rotated]) simp
    then show ?thesis ..
  next
    case False
    then have "external X h (WethDeposit (vaultToken s) n) (s, x) = Inr (t, y)"
      using run by (auto simp: transferTokenToVault_def)
    then have "v_call X s (WethDeposit (vaultToken s) n) x = Finished y"
      by (rule quiet_outcome [OF q, rotated]) simp
    then show ?thesis ..
  qed
  then have "(\<exists>b. v_balanceOf X (vaultToken s) (this m) x = Inr b \<and> v_balanceOf X (vaultToken s) (this m) y = Inr (b + n)) \<and>
      (\<forall>c debt b. vc_getInterestRate (v_config_at X c) debt b y = vc_getInterestRate (v_config_at X c) debt b x \<and>
        vc_getReservePoolBps (v_config_at X c) y = vc_getReservePoolBps (v_config_at X c) x)"
    using C other unfolding collects_exactly_def by blast
  then show "\<exists>b. v_balanceOf X (vaultToken s) (this m) x = Inr b \<and> v_balanceOf X (vaultToken s) (this m) y = Inr (b + n)"
    "vc_getInterestRate (v_config_at X c) debt k y = vc_getInterestRate (v_config_at X c) debt k x"
    "vc_getReservePoolBps (v_config_at X c) y = vc_getReservePoolBps (v_config_at X c) x"
    by blast+
qed

text \<open>The interest is that of the balance before the payment.\<close>

lemma accrue_before_payment:
  assumes M: "safe_math_ok (v_math X)" and q: "settles_quietly X" and C: "collects_exactly X (this m)"
    and other: "sender m \<noteq> this m" and pay: "transferTokenToVault X h m n (s, x) = Inr (s, y)"
    and acc: "accrue X m n (s, y) = Inr (u, z)"
  shows "accrue X m 0 (s, x) = Inr (u, x)"
proof -
  note P = transferTokenToVault_collects [OF q C other pay]
  from P(1) obtain b where b: "v_balanceOf X (vaultToken s) (this m) x = Inr b"
    "v_balanceOf X (vaultToken s) (this m) y = Inr (b + n)" by blast
  have "sm_sub (v_math X) (b + n) n = Inr b" "sm_sub (v_math X) b 0 = Inr b" by (simp_all add: safe_math_iff [OF M])
  then have "pendingInterest X m n (s, y) = pendingInterest X m 0 (s, x)"
    by (simp add: pendingInterest_def Let_def b P(2,3) vault_config_of_def)
  then show ?thesis using acc by (auto simp: accrue_def Let_def P(3) vault_config_of_def split: if_splits)
qed

text \<open>
  C18: A deposit is paid for and fair to both sides, with tokens that bring the vault exactly what is paid in
  and make no calls back.
  The tokens the shares stand for grow by exactly the amount, from what they are after the interest up to now; the
  shares minted can be redeemed at once for at most the amount paid in; and every other holding of shares
  can be redeemed afterwards for at least as much as before.
\<close>

theorem deposit_is_fair:
  assumes M: "safe_math_ok (v_math X)" and B: "base_ok X E" and q: "settles_quietly X"
    and C: "collects_exactly X (this m)" and other: "sender m \<noteq> this m"
    and run: "perform depth X m (Deposit n) (s, x) = Inr (s', x')"
  shows "\<exists>t T. accrue X m 0 (s, x) = Inr (t, x) \<and> totalToken X m (t, x) = Inr T \<and>
    totalToken X m (s', x') = Inr (T + n) \<and> totalSupply X s \<le> totalSupply X s' \<and>
    (\<forall>p. withdraw_amount X m (totalSupply X s' - totalSupply X s) (s', x') = Inr p \<longrightarrow> p \<le> n) \<and>
    (\<forall>k v p. withdraw_amount X m k (t, x) = Inr v \<longrightarrow> withdraw_amount X m k (s', x') = Inr p \<longrightarrow> v \<le> p)"
proof -
  from run obtain d where depth: "depth = Suc d" by (cases depth) auto
  let ?h = "\<lambda>a v. perform d X (m\<lparr>sender := a, msg_value := v\<rparr>)"
  from run obtain r y u z b v where steps: "transferTokenToVault X ?h m n (s, x) = Inr (r, y)"
      "accrue X m n (r, y) = Inr (u, z)" "v_enter X (vault_base u) = Inr b"
      "deposit_internal X m n (u\<lparr>vault_base := b\<rparr>, z) = Inr (v, x')" "s' = v\<lparr>vault_base := v_leave X (vault_base v)\<rparr>"
    by (auto simp: depth vault_call_def vault_deposit_def nonReentrant_def)
  have r: "r = s" using quiet_transferTokenToVault [OF q steps(1)] by simp
  have before: "accrue X m 0 (s, x) = Inr (u, x)"
    by (rule accrue_before_payment [OF M q C other]) (use steps(1,2) in \<open>simp_all add: r\<close>)
  have z: "z = y" and tok: "vaultToken u = vaultToken s" using accrue_state [OF M steps(2)] by (auto simp: r)
  have S: "v_totalSupply X b = totalSupply X s" "totalSupply X u = totalSupply X s"
    using base_ok_laws(1) [OF B steps(3)] accrue_base [OF steps(2)] by (simp_all add: totalSupply_def r)
  have "\<exists>T share c. totalToken X m (u, y) = Inr (T + n) \<and> x' = y \<and> v = u\<lparr>vault_base := c\<rparr> \<and>
      share = (if T = 0 then n else n * totalSupply X s div T) \<and> totalSupply X v = totalSupply X s + share \<and>
      0 < totalSupply X v"
    using deposit_internal_effect [OF M B steps(4)] unfolding totalToken_base totalSupply_base S z by simp
  then obtain T share c where T:
      "totalToken X m (u, y) = Inr (T + n)" "x' = y" "v = u\<lparr>vault_base := c\<rparr>"
      "share = (if T = 0 then n else n * totalSupply X s div T)" "totalSupply X v = totalSupply X s + share"
      "0 < totalSupply X v"
    by (elim exE conjE) (rule that)
  from transferTokenToVault_collects(1) [OF q C other steps(1)] obtain bal where
    "v_balanceOf X (vaultToken s) (this m) x = Inr bal" "v_balanceOf X (vaultToken s) (this m) y = Inr (bal + n)" by blast
  with T(1) have T0: "totalToken X m (u, x) = Inr T" by (auto simp: totalToken_Inr [OF M] tok)
  have S': "totalSupply X s' = totalSupply X s + share" "0 < totalSupply X s'"
    using T(5,6) base_ok_laws(2) [OF B] by (simp_all add: steps(5) totalSupply_def)
  have T': "totalToken X m (s', x') = Inr (T + n)" using T(1) by (simp add: steps(5) T(2,3))
  note part = deposit_share [OF T(4)]
  have "p \<le> n" if "withdraw_amount X m (totalSupply X s' - totalSupply X s) (s', x') = Inr p" for p
  proof -
    have "p = share * (T + n) div (totalSupply X s + share)"
      using that T' by (simp add: withdraw_amount_Inr [OF M] S'(1))
    also have "\<dots> \<le> n * (totalSupply X s + share) div (totalSupply X s + share)" using part(2) by (rule div_le_mono)
    also have "\<dots> \<le> n" by simp
    finally show ?thesis .
  qed
  moreover have "w \<le> p" if "withdraw_amount X m k (u, x) = Inr w" "withdraw_amount X m k (s', x') = Inr p" for k w p
  proof -
    have "T * totalSupply X s' \<le> (T + n) * totalSupply X s" using part(1) by (simp add: S'(1) algebra_simps)
    from price_le [OF this S'(2), of k] that T' T0 show ?thesis by (simp add: withdraw_amount_Inr [OF M] S(2))
  qed
  ultimately show ?thesis using before T0 T' S'(1) by auto
qed

section \<open>Withdrawals\<close>

text \<open>
  Tokens that move exactly what is asked for, from the vault \<open>a\<close> to others; unwrapping and sending ether leave
  the token balance of the vault alone, and the relayer is not the vault.
\<close>

definition pays_exactly :: "('b, 'x) vault_ext \<Rightarrow> address \<Rightarrow> bool" where
  "pays_exactly X a \<longleftrightarrow> (\<forall>s tok to n r c x y b.
     (v_call X s (Transfer tok to n) x = Finished y \<longrightarrow> to \<noteq> a \<longrightarrow> v_balanceOf X tok a x = Inr b \<longrightarrow>
        n \<le> b \<and> v_balanceOf X tok a y = Inr (b - n)) \<and>
     (v_call X s (RelayerWithdraw r n) x = Finished y \<or> v_call X s (SendETH to n) x = Finished y \<longrightarrow>
        v_balanceOf X tok a y = v_balanceOf X tok a x) \<and>
     vc_getWNativeRelayer (v_config_at X c) x \<noteq> Inr a)"

lemma safe_transfer_pays:
  assumes q: "settles_quietly X" and P: "pays_exactly X a" and to: "to \<noteq> a"
    and bal: "v_balanceOf X tok a x = Inr b" and run: "safe_transfer X h tok to n (s, x) = Inr (s', x')"
  shows "n \<le> b \<and> v_balanceOf X tok a x' = Inr (b - n)"
proof -
  have "external X h (Transfer tok to n) (s, x) = Inr (s', x')" using run by (simp add: safe_transfer_def)
  then have "v_call X s (Transfer tok to n) x = Finished x'" by (rule quiet_outcome [OF q, rotated]) simp
  then show ?thesis using P to bal unfolding pays_exactly_def by blast
qed

lemma smartSafeTransfer_pays:
  assumes q: "settles_quietly X" and P: "pays_exactly X a" and to: "to \<noteq> a"
    and bal: "v_balanceOf X (vaultToken s) a x = Inr b" and run: "smartSafeTransfer X h to n (s, x) = Inr (s', x')"
  shows "n \<le> b \<and> v_balanceOf X (vaultToken s) a x' = Inr (b - n)"
proof (cases "vc_getWrappedNativeAddr (vault_config_of X s) x = Inr (vaultToken s)")
  case True
  with run obtain rel t y rel' u z where rel: "vc_getWNativeRelayer (vault_config_of X s) x = Inr rel"
    and steps: "safe_transfer X h (vaultToken s) rel n (s, x) = Inr (t, y)"
      "external X h (RelayerWithdraw rel' n) (t, y) = Inr (u, z)"
      "safe_transferETH X h to n (u, z) = Inr (s', x')"
    by (auto simp: smartSafeTransfer_def)
  have "rel \<noteq> a" using P rel unfolding pays_exactly_def vault_config_of_def by blast
  from safe_transfer_pays [OF q P this bal steps(1)] have one: "n \<le> b \<and> v_balanceOf X (vaultToken s) a y = Inr (b - n)" .
  have "v_call X t (RelayerWithdraw rel' n) y = Finished z" by (rule quiet_outcome [OF q _ steps(2)]) simp
  then have two: "v_balanceOf X (vaultToken s) a z = v_balanceOf X (vaultToken s) a y"
    using P unfolding pays_exactly_def by blast
  have "external X h (SendETH to n) (u, z) = Inr (s', x')" using steps(3) by (simp add: safe_transferETH_def)
  then have "v_call X u (SendETH to n) z = Finished x'" by (rule quiet_outcome [OF q, rotated]) simp
  then have "v_balanceOf X (vaultToken s) a x' = v_balanceOf X (vaultToken s) a z"
    using P unfolding pays_exactly_def by blast
  then show ?thesis using one two by simp
next
  case False
  with run have "safe_transfer X h (vaultToken s) to n (s, x) = Inr (s', x')"
    by (auto simp: smartSafeTransfer_def split: if_splits)
  then show ?thesis by (rule safe_transfer_pays [OF q P to bal])
qed

lemma withdraw_body_effect:
  assumes M: "safe_math_ok (v_math X)" and B: "base_ok X E" and q: "settles_quietly X"
    and P: "pays_exactly X (this m)" and m: "sender m \<noteq> this m"
    and run: "withdraw_body X h m n (s, x) = Inr (s', x')"
  shows "\<exists>T amount. totalToken X m (s, x) = Inr T \<and> withdraw_amount X m n (s, x) = Inr amount \<and>
    totalSupply X s' + n = totalSupply X s \<and> 0 < totalSupply X s' \<and> amount \<le> T \<and>
    (\<forall>T'. totalToken X m (s', x') = Inr T' \<longrightarrow> T' = T - amount)"
proof -
  from run obtain amount b t z where steps: "withdraw_amount X m n (s, x) = Inr amount"
      "v_burn X (sender m) n (vault_base s) = Inr b"
      "smartSafeTransfer X h (sender m) amount (s\<lparr>vault_base := b\<rparr>, x) = Inr (t, z)"
      "totalSupply X t > 10 ^ 17" "(t, z) = (s', x')"
    unfolding withdraw_body_def prod.case bindE_eq_Inr require_eq_Inr sum.inject split_paired_Ex by (elim exE conjE) (rule that)
  have s': "s' = s\<lparr>vault_base := b\<rparr>" "z = x'" "t = s'" using quiet_smartSafeTransfer [OF q steps(3)] steps(5) by simp_all
  have S: "totalSupply X s' + n = totalSupply X s"
    using base_ok_laws(4) [OF B steps(2)] by (simp add: s'(1) totalSupply_def)
  from steps(1) obtain T where T: "totalToken X m (s, x) = Inr T" "amount = n * T div totalSupply X s"
    unfolding withdraw_amount_Inr [OF M] by (elim exE conjE) (rule that)
  from T(1) obtain bal where bal: "v_balanceOf X (vaultToken s) (this m) x = Inr bal" "T = bal + vaultDebtVal s - reservePool s"
    unfolding totalToken_Inr [OF M] by (elim exE conjE) (rule that)
  have "amount \<le> bal \<and> v_balanceOf X (vaultToken s) (this m) x' = Inr (bal - amount)"
    using smartSafeTransfer_pays [OF q P m _ steps(3)] bal(1) by (simp add: s'(2))
  then have "T' = T - amount" if "totalToken X m (s', x') = Inr T'" for T'
    using that bal(2) by (simp add: totalToken_Inr [OF M] s'(1))
  moreover have "amount \<le> T"
  proof -
    have "amount \<le> totalSupply X s * T div totalSupply X s" unfolding T(2) using S by (intro div_le_mono) simp
    also have "\<dots> \<le> T" by simp
    finally show ?thesis .
  qed
  moreover have "0 < totalSupply X s'" using steps(4) by (simp add: s'(3))
  ultimately show ?thesis using T(1) steps(1) S by blast
qed

text \<open>
  C19: A withdrawal burns the shares it is asked for and pays their part of the vault at the price after the
  interest up to now; with tokens that move exact amounts, every other holding can be redeemed afterwards
  for at least as much as before.
\<close>

theorem withdraw_is_fair:
  assumes M: "safe_math_ok (v_math X)" and B: "base_ok X E" and q: "settles_quietly X"
    and P: "pays_exactly X (this m)" and m: "sender m \<noteq> this m"
    and run: "perform depth X m (Withdraw n) (s, x) = Inr (s', x')"
  shows "\<exists>t amount T. accrue X m 0 (s, x) = Inr (t, x) \<and> withdraw_amount X m n (t, x) = Inr amount \<and>
    totalSupply X s' + n = totalSupply X s \<and> totalToken X m (t, x) = Inr T \<and>
    (\<forall>T'. totalToken X m (s', x') = Inr T' \<longrightarrow> T' + amount = T) \<and>
    (\<forall>k v p. withdraw_amount X m k (t, x) = Inr v \<longrightarrow> withdraw_amount X m k (s', x') = Inr p \<longrightarrow> v \<le> p)"
proof -
  from run obtain d where depth: "depth = Suc d" by (cases depth) auto
  let ?h = "\<lambda>a v. perform d X (m\<lparr>sender := a, msg_value := v\<rparr>)"
  from run obtain t y b v where steps: "accrue X m 0 (s, x) = Inr (t, y)" "v_enter X (vault_base t) = Inr b"
      "withdraw_body X ?h m n (t\<lparr>vault_base := b\<rparr>, y) = Inr (v, x')" "s' = v\<lparr>vault_base := v_leave X (vault_base v)\<rparr>"
    by (auto simp: depth vault_call_def vault_withdraw_def nonReentrant_def)
  have y: "y = x" using accrue_state [OF M steps(1)] by simp
  have S: "v_totalSupply X b = totalSupply X s" "totalSupply X t = totalSupply X s"
    using base_ok_laws(1) [OF B steps(2)] accrue_base [OF steps(1)] by (simp_all add: totalSupply_def)
  have same: "withdraw_amount X m k (t\<lparr>vault_base := b\<rparr>, x) = withdraw_amount X m k (t, x)" for k
    by (simp add: withdraw_amount_def S)
  have S': "totalSupply X s' = totalSupply X v" using base_ok_laws(2) [OF B] by (simp add: steps(4) totalSupply_def)
  from withdraw_body_effect [OF M B q P m steps(3)] obtain T amount where T: "totalToken X m (t, x) = Inr T"
      "withdraw_amount X m n (t, x) = Inr amount" "totalSupply X s' + n = totalSupply X s" "0 < totalSupply X s'"
      "amount \<le> T" "\<forall>T'. totalToken X m (v, x') = Inr T' \<longrightarrow> T' = T - amount"
    unfolding y same totalToken_base totalSupply_base S S' [symmetric] by (elim exE conjE) (rule that)
  have T': "T' = T - amount" if "totalToken X m (s', x') = Inr T'" for T' using T(6) that by (simp add: steps(4))
  have "v' \<le> p" if "withdraw_amount X m k (t, x) = Inr v'" "withdraw_amount X m k (s', x') = Inr p" for k v' p
  proof -
    have "amount * totalSupply X s \<le> n * T" using T(1,2) by (simp add: withdraw_amount_Inr [OF M] S)
    then have "T * totalSupply X s' + amount * totalSupply X s \<le> T * totalSupply X s'+ n * T" by simp
    also have "\<dots> = T * totalSupply X s" by (simp add: T(3) [symmetric] algebra_simps)
    finally have "T * totalSupply X s' \<le> (T - amount) * totalSupply X s" by (simp add: diff_mult_distrib)
    from price_le [OF this T(4), of k] show ?thesis
      using that T(1) by (auto simp: withdraw_amount_Inr [OF M] S dest: T')
  qed
  moreover have "T' + amount = T" if "totalToken X m (s', x') = Inr T'" for T' using T' [OF that] T(5) by simp
  ultimately show ?thesis using steps(1) T(1-3) unfolding y by blast
qed

section \<open>Witnesses\<close>

lemma plain_vault_collects: "collects_exactly plain_vault ''V''"
  by (auto simp: collects_exactly_def plain_vault_def plain_config_def)

text \<open>A second lender comes while half of the tokens are lent out.\<close>

definition sample_joined :: "(bool \<times> nat) vault" where
  "sample_joined = sample_lent\<lparr>vault_base := (False, 500000000000000000)\<rparr>"

lemma sample_deposit:
  "perform 1 plain_vault (vault_msg_of ''G'' 1000) (Deposit 100000000000000000) (sample_lent, 200000000000000000) =
     Inr (sample_joined, 300000000000000000)"
  by (simp add: vault_run vault_deposit_def deposit_internal_def sample_open_def sample_funded_def sample_lent_def
    sample_joined_def setPosition_def)

theorem deposit_is_fair_witness:
  "\<exists>T. totalToken plain_vault (vault_msg_of ''G'' 1000) (sample_lent, 200000000000000000) = Inr T \<and>
    totalToken plain_vault (vault_msg_of ''G'' 1000) (sample_joined, 300000000000000000) = Inr (T + 100000000000000000) \<and>
    (\<forall>v p. withdraw_amount plain_vault (vault_msg_of ''G'' 1000) 400000000000000000 (sample_lent, 200000000000000000) = Inr v \<longrightarrow>
       withdraw_amount plain_vault (vault_msg_of ''G'' 1000) 400000000000000000 (sample_joined, 300000000000000000) = Inr p \<longrightarrow> v \<le> p)"
proof -
  have "collects_exactly plain_vault (this (vault_msg_of ''G'' 1000))"
      "sender (vault_msg_of ''G'' 1000) \<noteq> this (vault_msg_of ''G'' 1000)"
    by (simp_all add: vault_msg_of_def plain_vault_collects)
  from deposit_is_fair [OF plain_vault_ok plain_vault_quiet this sample_deposit] obtain t T where
    "accrue plain_vault (vault_msg_of ''G'' 1000) 0 (sample_lent, 200000000000000000) = Inr (t, 200000000000000000)"
    and T: "totalToken plain_vault (vault_msg_of ''G'' 1000) (t, 200000000000000000) = Inr T"
    "totalToken plain_vault (vault_msg_of ''G'' 1000) (sample_joined, 300000000000000000) = Inr (T + 100000000000000000)"
    "\<forall>k v p. withdraw_amount plain_vault (vault_msg_of ''G'' 1000) k (t, 200000000000000000) = Inr v \<longrightarrow>
       withdraw_amount plain_vault (vault_msg_of ''G'' 1000) k (sample_joined, 300000000000000000) = Inr p \<longrightarrow> v \<le> p"
    by (elim exE conjE) (rule that)
  moreover have "accrue plain_vault (vault_msg_of ''G'' 1000) 0 (sample_lent, 200000000000000000) =
      Inr (sample_lent, 200000000000000000)"
    by (rule accrue_again) (simp add: vault_msg_of_def sample_lent_def sample_funded_def sample_open_def setPosition_def)
  ultimately have "t = sample_lent" by simp
  with T show ?thesis by blast
qed

lemma plain_vault_pays: "pays_exactly plain_vault ''V''"
  by (simp add: pays_exactly_def plain_vault_def plain_config_def)

definition sample_left :: "(bool \<times> nat) vault" where
  "sample_left = sample_funded\<lparr>vault_base := (False, 300000000000000000)\<rparr>"

lemma sample_withdraw:
  "perform 1 plain_vault (vault_msg_of ''L'' 1000) (Withdraw 100000000000000000) (sample_funded, 400000000000000000) =
     Inr (sample_left, 300000000000000000)"
  by (simp add: vault_run vault_withdraw_def withdraw_body_def withdraw_amount_def smartSafeTransfer_def
    sample_open_def sample_funded_def sample_left_def)

theorem withdraw_is_fair_witness:
  "\<exists>t amount. accrue plain_vault (vault_msg_of ''L'' 1000) 0 (sample_funded, 400000000000000000) = Inr (t, 400000000000000000) \<and>
    withdraw_amount plain_vault (vault_msg_of ''L'' 1000) 100000000000000000 (t, 400000000000000000) = Inr amount"
proof -
  have "pays_exactly plain_vault (this (vault_msg_of ''L'' 1000))" "sender (vault_msg_of ''L'' 1000) \<noteq> this (vault_msg_of ''L'' 1000)"
    by (simp_all add: vault_msg_of_def plain_vault_pays)
  from withdraw_is_fair [OF plain_vault_ok plain_vault_quiet this sample_withdraw] show ?thesis by blast
qed

end
