(* ===== verification/Interest_Model.thy ===== *)
theory Interest_Model
  imports Vault_Lenders
begin

text \<open>
  The interest of the vaults: the three models of \<open>contracts/6/protocol/interestmodels\<close>, which are one
  function with different constants, the contract \<open>configs/BasicVaultConfig.sol\<close> through which a vault
  reads its model and its risk parameters, and what the vault accrues with them.
\<close>

section \<open>Three slopes\<close>

record slopes =
  CEIL_SLOPE_1 :: nat
  CEIL_SLOPE_2 :: nat
  CEIL_SLOPE_3 :: nat
  MAX_INTEREST_SLOPE_1 :: nat
  MAX_INTEREST_SLOPE_2 :: nat
  MAX_INTEREST_SLOPE_3 :: nat

definition triple_slope :: slopes where
  "triple_slope = \<lparr>CEIL_SLOPE_1 = 50 * 10 ^ 18, CEIL_SLOPE_2 = 90 * 10 ^ 18, CEIL_SLOPE_3 = 100 * 10 ^ 18,
     MAX_INTEREST_SLOPE_1 = 20 * 10 ^ 16, MAX_INTEREST_SLOPE_2 = 20 * 10 ^ 16, MAX_INTEREST_SLOPE_3 = 150 * 10 ^ 16\<rparr>"

definition high_slope :: slopes where
  "high_slope = \<lparr>CEIL_SLOPE_1 = 40 * 10 ^ 18, CEIL_SLOPE_2 = 95 * 10 ^ 18, CEIL_SLOPE_3 = 100 * 10 ^ 18,
     MAX_INTEREST_SLOPE_1 = 4 * 10 ^ 16, MAX_INTEREST_SLOPE_2 = 8 * 10 ^ 16, MAX_INTEREST_SLOPE_3 = 100 * 10 ^ 16\<rparr>"

definition low_slope :: slopes where
  "low_slope = \<lparr>CEIL_SLOPE_1 = 40 * 10 ^ 18, CEIL_SLOPE_2 = 95 * 10 ^ 18, CEIL_SLOPE_3 = 100 * 10 ^ 18,
     MAX_INTEREST_SLOPE_1 = 3 * 10 ^ 16, MAX_INTEREST_SLOPE_2 = 6 * 10 ^ 16, MAX_INTEREST_SLOPE_3 = 100 * 10 ^ 16\<rparr>"

definition days_365 :: nat where "days_365 = 365 * 24 * 60 * 60"

definition slope_rate :: "safe_math \<Rightarrow> slopes \<Rightarrow> nat \<Rightarrow> nat result" where
  "slope_rate M p utilization =
     (if utilization < CEIL_SLOPE_1 p
      then bindE (sm_mul M utilization (MAX_INTEREST_SLOPE_1 p)) (\<lambda>a.
           bindE (sm_div M a (CEIL_SLOPE_1 p)) (\<lambda>r. Inr (r div days_365)))
      else if utilization < CEIL_SLOPE_2 p then Inr (MAX_INTEREST_SLOPE_2 p div days_365)
      else if utilization < CEIL_SLOPE_3 p
      then bindE (sm_sub M utilization (CEIL_SLOPE_2 p)) (\<lambda>u.
           bindE (sm_sub M (MAX_INTEREST_SLOPE_3 p) (MAX_INTEREST_SLOPE_2 p)) (\<lambda>d.
           bindE (sm_mul M u d) (\<lambda>a.
           bindE (sm_sub M (CEIL_SLOPE_3 p) (CEIL_SLOPE_2 p)) (\<lambda>w.
           bindE (sm_div M a w) (\<lambda>r.
           Inr (((MAX_INTEREST_SLOPE_2 p + r) mod 2 ^ 256) div days_365))))))
      else Inr (MAX_INTEREST_SLOPE_3 p div days_365))"

definition slopes_getInterestRate :: "safe_math \<Rightarrow> slopes \<Rightarrow> nat \<Rightarrow> nat \<Rightarrow> nat result" where
  "slopes_getInterestRate M p debt floating =
     (if debt = 0 \<and> floating = 0 then Inr 0
      else bindE (sm_add M debt floating) (\<lambda>total.
           bindE (sm_mul M debt (100 * 10 ^ 18)) (\<lambda>a.
           bindE (sm_div M a total) (slope_rate M p))))"

text \<open>What makes the rate a non-decreasing function of the utilization.\<close>

definition slopes_ok :: "slopes \<Rightarrow> bool" where
  "slopes_ok p \<longleftrightarrow> 0 < CEIL_SLOPE_1 p \<and> CEIL_SLOPE_1 p \<le> CEIL_SLOPE_2 p \<and> CEIL_SLOPE_2 p < CEIL_SLOPE_3 p \<and>
     MAX_INTEREST_SLOPE_1 p \<le> MAX_INTEREST_SLOPE_2 p \<and> MAX_INTEREST_SLOPE_2 p \<le> MAX_INTEREST_SLOPE_3 p \<and>
     MAX_INTEREST_SLOPE_3 p \<le> uint_max"

lemma models_ok [simp]: "slopes_ok triple_slope" "slopes_ok high_slope" "slopes_ok low_slope"
  by (simp_all add: slopes_ok_def triple_slope_def high_slope_def low_slope_def uint_max_def)

text \<open>The rate per year of a utilization.\<close>

definition yearly :: "slopes \<Rightarrow> nat \<Rightarrow> nat" where
  "yearly p u = (if u < CEIL_SLOPE_1 p then u * MAX_INTEREST_SLOPE_1 p div CEIL_SLOPE_1 p
     else if u < CEIL_SLOPE_2 p then MAX_INTEREST_SLOPE_2 p
     else if u < CEIL_SLOPE_3 p then MAX_INTEREST_SLOPE_2 p +
       (u - CEIL_SLOPE_2 p) * (MAX_INTEREST_SLOPE_3 p - MAX_INTEREST_SLOPE_2 p) div (CEIL_SLOPE_3 p - CEIL_SLOPE_2 p)
     else MAX_INTEREST_SLOPE_3 p)"

lemma part_le: "u \<le> w \<Longrightarrow> 0 < w \<Longrightarrow> u * m div w \<le> (m :: nat)"
  using div_le_mono [of "u * m" "w * m" w] by simp

lemma yearly_le:
  assumes "slopes_ok p"
  shows "yearly p u \<le> MAX_INTEREST_SLOPE_3 p"
proof -
  have "u * MAX_INTEREST_SLOPE_1 p div CEIL_SLOPE_1 p \<le> MAX_INTEREST_SLOPE_1 p" if "u < CEIL_SLOPE_1 p"
    by (rule part_le) (use that in simp_all)
  moreover have "(u - CEIL_SLOPE_2 p) * (MAX_INTEREST_SLOPE_3 p - MAX_INTEREST_SLOPE_2 p) div (CEIL_SLOPE_3 p - CEIL_SLOPE_2 p)
      \<le> MAX_INTEREST_SLOPE_3 p - MAX_INTEREST_SLOPE_2 p" if "u < CEIL_SLOPE_3 p"
    by (rule part_le) (use that assms in \<open>simp_all add: slopes_ok_def\<close>)
  ultimately show ?thesis using assms by (fastforce simp: yearly_def slopes_ok_def)
qed

lemma yearly_mono:
  assumes ok: "slopes_ok p" and le: "u \<le> v"
  shows "yearly p u \<le> yearly p v"
proof -
  let ?a = "CEIL_SLOPE_1 p" and ?b = "CEIL_SLOPE_2 p" and ?c = "CEIL_SLOPE_3 p"
  let ?m = "MAX_INTEREST_SLOPE_1 p" and ?n = "MAX_INTEREST_SLOPE_2 p" and ?k = "MAX_INTEREST_SLOPE_3 p"
  consider "?c \<le> v" | "v < ?a" | "v < ?b" "?a \<le> v" | "v < ?c" "?b \<le> v" by linarith
  then show ?thesis
  proof cases
    case 1
    then show ?thesis using yearly_le [OF ok, of u] ok by (simp add: yearly_def slopes_ok_def)
  next
    case 2
    then show ?thesis using le by (simp add: yearly_def div_le_mono)
  next
    case 3
    have "u * ?m div ?a \<le> ?m" if "u < ?a" by (rule part_le) (use that in simp_all)
    then show ?thesis using 3 le ok by (auto simp: yearly_def slopes_ok_def intro: order_trans)
  next
    case 4
    have one: "u * ?m div ?a \<le> ?m" if "u < ?a" by (rule part_le) (use that in simp_all)
    have two: "(u - ?b) * (?k - ?n) div (?c - ?b) \<le> (v - ?b) * (?k - ?n) div (?c - ?b)"
      by (intro div_le_mono mult_le_mono1 diff_le_mono le)
    show ?thesis
    proof (cases "u < ?b")
      case True
      then show ?thesis using one 4 ok by (auto simp: yearly_def slopes_ok_def intro: trans_le_add1 order_trans)
    next
      case False
      then show ?thesis using two 4 le ok by (simp add: yearly_def slopes_ok_def)
    qed
  qed
qed

lemma slope_rate_Inr:
  assumes M: "safe_math_ok M" and ok: "slopes_ok p" and run: "slope_rate M p u = Inr r"
  shows "r = yearly p u div days_365"
proof (cases "CEIL_SLOPE_2 p \<le> u \<and> u < CEIL_SLOPE_3 p")
  case True
  then have y: "yearly p u = MAX_INTEREST_SLOPE_2 p +
      (u - CEIL_SLOPE_2 p) * (MAX_INTEREST_SLOPE_3 p - MAX_INTEREST_SLOPE_2 p) div (CEIL_SLOPE_3 p - CEIL_SLOPE_2 p)"
    using ok by (simp add: yearly_def slopes_ok_def)
  have "yearly p u < 2 ^ 256" using yearly_le [OF ok, of u] ok by (simp add: slopes_ok_def uint_max_def)
  then have "yearly p u mod 2 ^ 256 = yearly p u" by simp
  moreover have "r = (yearly p u mod 2 ^ 256) div days_365"
    using run True ok by (auto simp: y slope_rate_def safe_math_iff [OF M] slopes_ok_def)
  ultimately show ?thesis by simp
next
  case False
  with run show ?thesis by (auto simp: slope_rate_def yearly_def safe_math_iff [OF M] split: if_splits)
qed

definition utilization :: "nat \<Rightarrow> nat \<Rightarrow> nat" where
  "utilization debt floating = 100 * 10 ^ 18 * debt div (debt + floating)"

lemma rate_Inr:
  assumes M: "safe_math_ok M" and ok: "slopes_ok p" and run: "slopes_getInterestRate M p debt floating = Inr r"
  shows "r = yearly p (utilization debt floating) div days_365"
proof (cases "debt = 0 \<and> floating = 0")
  case True
  with run ok show ?thesis by (simp add: slopes_getInterestRate_def utilization_def yearly_def slopes_ok_def)
next
  case False
  with run have "slope_rate M p (utilization debt floating) = Inr r"
    by (auto simp: slopes_getInterestRate_def utilization_def safe_math_iff [OF M] mult.commute)
  then show ?thesis by (rule slope_rate_Inr [OF M ok])
qed

lemma utilization_mono:
  assumes "debt \<le> debt'" and "floating' \<le> floating"
  shows "utilization debt floating \<le> utilization debt' floating'"
proof (cases "debt' + floating' = 0")
  case True
  with assms show ?thesis by (simp add: utilization_def)
next
  case False
  have "debt * floating' \<le> debt' * floating" using assms by (rule mult_le_mono)
  then have "debt * (debt' + floating') \<le> debt' * (debt + floating)" by (simp add: algebra_simps)
  with False show ?thesis unfolding utilization_def by (intro price_le) simp_all
qed

text \<open>More debt or less money left never lowers the rate, and no rate exceeds the last slope.\<close>

lemma rate_mono:
  assumes "safe_math_ok M" and "slopes_ok p" and "debt \<le> debt'" and "floating' \<le> floating"
    and "slopes_getInterestRate M p debt floating = Inr r" and "slopes_getInterestRate M p debt' floating' = Inr r'"
  shows "r \<le> r' \<and> r' \<le> MAX_INTEREST_SLOPE_3 p div days_365"
  using rate_Inr [OF assms(1,2,5)] rate_Inr [OF assms(1,2,6)]
    yearly_mono [OF assms(2) utilization_mono [OF assms(3,4)]] yearly_le [OF assms(2)]
  by (simp add: div_le_mono)

section \<open>The configuration of a vault\<close>

record basic_config =
  bc_minDebtSize :: nat
  bc_reservePoolBps :: nat
  bc_closeBps :: nat
  bc_killBps :: nat
  bc_workers :: "address \<Rightarrow> address"
  bc_interestModel :: address
  bc_wrappedNative :: address
  bc_wNativeRelayer :: address
  bc_fairLaunch :: address
  bc_maxKillBps :: nat

text \<open>The contracts it reads: its owner, the worker configurations and the interest models at an address.\<close>

record 'x bvc_ext =
  bvc_isOwner :: "address \<Rightarrow> 'x \<Rightarrow> bool"
  bvc_rate :: "address \<Rightarrow> nat \<Rightarrow> nat \<Rightarrow> nat result"
  bvc_acceptDebt :: "address \<Rightarrow> address \<Rightarrow> 'x \<Rightarrow> bool result"
  bvc_workFactor :: "address \<Rightarrow> address \<Rightarrow> nat \<Rightarrow> 'x \<Rightarrow> nat result"
  bvc_killFactor :: "address \<Rightarrow> address \<Rightarrow> nat \<Rightarrow> 'x \<Rightarrow> nat result"

definition bvc_params ::
  "nat \<Rightarrow> nat \<Rightarrow> nat \<Rightarrow> nat \<Rightarrow> address \<Rightarrow> address \<Rightarrow> address \<Rightarrow> address \<Rightarrow> basic_config \<Rightarrow> basic_config result" where
  "bvc_params least reserve close kill irm native relayer fairLaunch c =
     bindE (require (kill \<le> bc_maxKillBps c) ''BasicVaultConfig::setParams: kill bps exceeded max kill bps'') (\<lambda>_.
     Inr (c\<lparr>bc_minDebtSize := least, bc_reservePoolBps := reserve, bc_closeBps := close, bc_killBps := kill,
       bc_interestModel := irm, bc_wrappedNative := native, bc_wNativeRelayer := relayer, bc_fairLaunch := fairLaunch\<rparr>))"

definition bvc_setParams where
  "bvc_setParams Y m least reserve close kill irm native relayer fairLaunch = (\<lambda>(c, x).
     bindE (require (bvc_isOwner Y (sender m) x) ''Ownable: caller is not the owner'') (\<lambda>_.
     bindE (bvc_params least reserve close kill irm native relayer fairLaunch c) (\<lambda>c. Inr (c, x))))"

text \<open>The initializer makes its caller the owner before it sets the parameters.\<close>

definition bvc_initialize where
  "bvc_initialize least reserve close kill irm native relayer fairLaunch =
     bvc_params least reserve close kill irm native relayer fairLaunch
       \<lparr>bc_minDebtSize = 0, bc_reservePoolBps = 0, bc_closeBps = 0, bc_killBps = 0, bc_workers = (\<lambda>_. zero_address),
        bc_interestModel = zero_address, bc_wrappedNative = zero_address, bc_wNativeRelayer = zero_address,
        bc_fairLaunch = zero_address, bc_maxKillBps = 500\<rparr>"

definition bvc_setWorkers ::
  "'x bvc_ext \<Rightarrow> vault_msg \<Rightarrow> address list \<Rightarrow> address list \<Rightarrow> basic_config \<times> 'x \<Rightarrow> (basic_config \<times> 'x) result" where
  "bvc_setWorkers Y m addrs configs = (\<lambda>(c, x).
     bindE (require (bvc_isOwner Y (sender m) x) ''Ownable: caller is not the owner'') (\<lambda>_.
     bindE (require (length addrs = length configs) ''BasicVaultConfig::setWorkers: bad length'') (\<lambda>_.
     Inr (c\<lparr>bc_workers := foldl (\<lambda>w idx. w(addrs ! idx := configs ! idx)) (bc_workers c) [0 ..< length addrs]\<rparr>, x))))"

definition basic_view :: "'x bvc_ext \<Rightarrow> basic_config \<Rightarrow> 'x ivault_config" where
  "basic_view Y c =
     \<lparr>vc_minDebtSize = (\<lambda>x. Inr (bc_minDebtSize c)),
      vc_getInterestRate = (\<lambda>debt floating x. bvc_rate Y (bc_interestModel c) debt floating),
      vc_getWrappedNativeAddr = (\<lambda>x. Inr (bc_wrappedNative c)), vc_getWNativeRelayer = (\<lambda>x. Inr (bc_wNativeRelayer c)),
      vc_getFairLaunchAddr = (\<lambda>x. Inr (bc_fairLaunch c)), vc_getReservePoolBps = (\<lambda>x. Inr (bc_reservePoolBps c)),
      vc_getCloseBps = (\<lambda>x. Inr (bc_closeBps c)), vc_getKillBps = (\<lambda>x. Inr (bc_killBps c)),
      vc_isWorker = (\<lambda>w x. Inr (bc_workers c w \<noteq> zero_address)),
      vc_acceptDebt = (\<lambda>w. bvc_acceptDebt Y (bc_workers c w) w),
      vc_workFactor = (\<lambda>w. bvc_workFactor Y (bc_workers c w) w),
      vc_killFactor = (\<lambda>w. bvc_killFactor Y (bc_workers c w) w)\<rparr>"

text \<open>The reward for a liquidation stays within its cap.\<close>

lemma kill_bps_capped:
  shows "bvc_initialize l r cl k i n w f = Inr c \<Longrightarrow> bc_killBps c \<le> bc_maxKillBps c \<and> bc_maxKillBps c = 500"
    and "bvc_setParams Y m l r cl k i n w f (c, x) = Inr (c', x') \<Longrightarrow> bc_killBps c' \<le> bc_maxKillBps c' \<and> bc_maxKillBps c' = bc_maxKillBps c"
    and "bvc_setWorkers Y m as bs (c, x) = Inr (c', x') \<Longrightarrow> bc_killBps c' = bc_killBps c \<and> bc_maxKillBps c' = bc_maxKillBps c"
  by (auto simp: bvc_initialize_def bvc_params_def bvc_setParams_def bvc_setWorkers_def)

lemma scale_150: "10 ^ 18 * a \<le> 150 * 10 ^ 16 * v \<Longrightarrow> 2 * a \<le> 3 * v" for a v :: nat
  by simp

text \<open>
  C21: The interest of a vault is bounded by its model: with a \<open>BasicVaultConfig\<close> that names one of
  the three slope models, each accrual adds at most the highest rate of the model on the debt for the seconds
  passed, so at most 150% in a year, never lowers the debt, and accrues nothing on no debt; the reserve gets
  its share in basis points of what was added.
\<close>

theorem interest_is_bounded:
  assumes M: "safe_math_ok (v_math X)"
    and config: "vault_config_of X s = basic_view Y c"
    and model: "bvc_rate Y (bc_interestModel c) = slopes_getInterestRate (v_math X) p"
    and p: "p \<in> {triple_slope, high_slope, low_slope}"
    and run: "accrue X m n (s, x) = Inr (s', x')"
  shows "\<exists>added. vaultDebtVal s' = vaultDebtVal s + added \<and>
    10 ^ 18 * added \<le> MAX_INTEREST_SLOPE_3 p div days_365 * vaultDebtVal s * (block_timestamp m - lastAccrueTime s) \<and>
    reservePool s' = reservePool s + added * bc_reservePoolBps c div 10000 \<and>
    (block_timestamp m - lastAccrueTime s \<le> days_365 \<longrightarrow> 2 * added \<le> 3 * vaultDebtVal s)"
proof (cases "block_timestamp m > lastAccrueTime s")
  case False
  with run show ?thesis by (simp add: accrue_def)
next
  case True
  have ok: "slopes_ok p" using p by auto
  let ?V = "vaultDebtVal s" and ?t = "block_timestamp m - lastAccrueTime s"
  from True run obtain floating rate where rate: "slopes_getInterestRate (v_math X) p ?V floating = Inr rate"
    and s': "vaultDebtVal s' = ?V + rate * ?V * ?t div 10 ^ 18"
      "reservePool s' = reservePool s + rate * ?V * ?t div 10 ^ 18 * bc_reservePoolBps c div 10000"
    by (auto simp: accrue_def pendingInterest_def Let_def safe_math_iff [OF M] config basic_view_def model)
  let ?added = "rate * ?V * ?t div 10 ^ 18"
  have le: "rate \<le> MAX_INTEREST_SLOPE_3 p div days_365" using rate_mono [OF M ok le_refl le_refl rate rate] by simp
  have "10 ^ 18 * ?added \<le> rate * ?V * ?t" by simp
  also have "\<dots> \<le> MAX_INTEREST_SLOPE_3 p div days_365 * ?V * ?t" using le by simp
  finally have bound: "10 ^ 18 * ?added \<le> MAX_INTEREST_SLOPE_3 p div days_365 * ?V * ?t" .
  have "2 * ?added \<le> 3 * ?V" if t: "?t \<le> days_365"
  proof -
    have "MAX_INTEREST_SLOPE_3 p div days_365 * days_365 \<le> MAX_INTEREST_SLOPE_3 p" by simp
    also have "\<dots> \<le> 150 * 10 ^ 16" using p by (auto simp: triple_slope_def high_slope_def low_slope_def)
    finally have year: "MAX_INTEREST_SLOPE_3 p div days_365 * days_365 \<le> 150 * 10 ^ 16" .
    have "MAX_INTEREST_SLOPE_3 p div days_365 * ?V * ?t \<le> MAX_INTEREST_SLOPE_3 p div days_365 * ?V * days_365"
      using t by (rule mult_le_mono2)
    also have "\<dots> = MAX_INTEREST_SLOPE_3 p div days_365 * days_365 * ?V" by simp
    also have "\<dots> \<le> 150 * 10 ^ 16 * ?V" using year by (rule mult_le_mono1)
    finally have "MAX_INTEREST_SLOPE_3 p div days_365 * ?V * ?t \<le> 150 * 10 ^ 16 * ?V" .
    from order_trans [OF bound this] show ?thesis by (rule scale_150)
  qed
  then show ?thesis using s' bound by (intro exI [of _ ?added]) simp
qed

text \<open>The concrete vault with a configuration whose model has three slopes, a year later.\<close>

definition sample_bvc :: "nat bvc_ext" where
  "sample_bvc = \<lparr>bvc_isOwner = (\<lambda>a x. True), bvc_rate = (\<lambda>a. slopes_getInterestRate checked_math triple_slope),
     bvc_acceptDebt = (\<lambda>a w x. Inr True), bvc_workFactor = (\<lambda>a w d x. Inr 5500), bvc_killFactor = (\<lambda>a w d x. Inr 7000)\<rparr>"

definition sample_basic :: basic_config where
  "sample_basic = \<lparr>bc_minDebtSize = 1000, bc_reservePoolBps = 1000, bc_closeBps = 0, bc_killBps = 500,
     bc_workers = (\<lambda>_. ''WC''), bc_interestModel = ''IM'', bc_wrappedNative = ''WBNB'', bc_wNativeRelayer = ''R'',
     bc_fairLaunch = ''FL'', bc_maxKillBps = 500\<rparr>"

definition sloped_vault :: "(bool \<times> nat, nat) vault_ext" where
  "sloped_vault = plain_vault\<lparr>v_config_at := (\<lambda>_. basic_view sample_bvc sample_basic)\<rparr>"

lemma sloped_accrue:
  "\<exists>t. accrue sloped_vault (vault_msg_of ''Z'' 31537000) 0 (sample_lent, 200000000000000000) = Inr (t, 200000000000000000)"
  by (simp add: vault_run vault_config_of_def sloped_vault_def basic_view_def sample_bvc_def sample_basic_def
    slopes_getInterestRate_def slope_rate_def triple_slope_def days_365_def pendingInterest_def
    sample_lent_def sample_funded_def sample_open_def setPosition_def)

theorem interest_is_bounded_witness:
  "\<exists>t. accrue sloped_vault (vault_msg_of ''Z'' 31537000) 0 (sample_lent, 200000000000000000) = Inr (t, 200000000000000000) \<and>
     vaultDebtVal t \<le> 500000000000000000"
proof -
  from sloped_accrue obtain t where run: "accrue sloped_vault (vault_msg_of ''Z'' 31537000) 0 (sample_lent, 200000000000000000) =
      Inr (t, 200000000000000000)" by blast
  have M: "safe_math_ok (v_math sloped_vault)"
    and config: "vault_config_of sloped_vault sample_lent = basic_view sample_bvc sample_basic"
    and model: "bvc_rate sample_bvc (bc_interestModel sample_basic) = slopes_getInterestRate (v_math sloped_vault) triple_slope"
    by (simp_all add: sloped_vault_def plain_vault_def vault_config_of_def sample_bvc_def sample_basic_def)
  have "triple_slope \<in> {triple_slope, high_slope, low_slope}" by simp
  from interest_is_bounded [OF M config model this run] obtain added where
    added: "vaultDebtVal t = vaultDebtVal sample_lent + added"
    "block_timestamp (vault_msg_of ''Z'' 31537000) - lastAccrueTime sample_lent \<le> days_365 \<longrightarrow> 2 * added \<le> 3 * vaultDebtVal sample_lent"
    by (elim exE conjE) (rule that)
  have "vaultDebtVal t \<le> 500000000000000000"
    using added by (simp add: vault_msg_of_def sample_lent_def sample_funded_def sample_open_def days_365_def setPosition_def)
  then show ?thesis using run by blast
qed

end
