(* ===== verification/Worker_Contract.thy ===== *)
theory Worker_Contract
  imports Interest_Model
begin

text \<open>
  \<open>contracts/6/protocol/workers/PancakeswapV2Worker.sol\<close>: the farm of a vault.  A position owns shares of the LP
  tokens that the worker has staked in the MasterChef; \<open>work\<close> takes its LP tokens out, lets a
  strategy trade them and stakes what comes back.  The MasterChef, tokens, pair, router and strategies, and
  OpenZeppelin's \<open>Ownable\<close> and \<open>SafeMath\<close>, are the fields of \<open>worker_ext\<close>, acting on a world \<open>'x\<close>.  These
  calls do not change the worker's own storage: \<open>work\<close>, \<open>liquidate\<close> and \<open>reinvest\<close> are \<open>nonReentrant\<close>, the other
  functions belong to the owner.  \<open>migrateLP\<close> of \<open>PancakeswapV2WorkerMigrate\<close> is not modelled.
\<close>

section \<open>State\<close>

record worker =
  masterChef :: address
  wk_factory :: address
  wk_router :: address
  wk_lpToken :: address
  wNative :: address
  baseToken :: address
  farmingToken :: address
  cake :: address
  operator :: address
  wk_pid :: nat
  shares :: "nat \<Rightarrow> nat"
  okStrats :: "address \<Rightarrow> bool"
  wk_totalShare :: nat
  addStrat :: address
  liqStrat :: address
  reinvestBountyBps :: nat
  maxReinvestBountyBps :: nat
  okReinvestors :: "address \<Rightarrow> bool"
  fee :: nat
  feeDenom :: nat

record 'x worker_ext =
  w_math :: safe_math
  w_isOwner :: "address \<Rightarrow> 'x \<Rightarrow> bool"
  w_staked :: "address \<Rightarrow> nat \<Rightarrow> address \<Rightarrow> 'x \<Rightarrow> nat result"
  w_poolLp :: "address \<Rightarrow> nat \<Rightarrow> 'x \<Rightarrow> address result"
  w_cake :: "address \<Rightarrow> 'x \<Rightarrow> address result"
  w_stake :: "address \<Rightarrow> nat \<Rightarrow> nat \<Rightarrow> 'x \<Rightarrow> 'x result"
  w_unstake :: "address \<Rightarrow> nat \<Rightarrow> nat \<Rightarrow> 'x \<Rightarrow> 'x result"
  w_balanceOf :: "address \<Rightarrow> address \<Rightarrow> 'x \<Rightarrow> nat result"
  w_transfer :: "address \<Rightarrow> address \<Rightarrow> nat \<Rightarrow> 'x \<Rightarrow> (bool \<times> 'x) result"
  w_safeTransfer :: "address \<Rightarrow> address \<Rightarrow> nat \<Rightarrow> 'x \<Rightarrow> 'x result"
  w_safeApprove :: "address \<Rightarrow> address \<Rightarrow> nat \<Rightarrow> 'x \<Rightarrow> 'x result"
  w_execute :: "address \<Rightarrow> address \<Rightarrow> nat \<Rightarrow> call_data \<Rightarrow> 'x \<Rightarrow> 'x result"
  w_swap :: "address \<Rightarrow> nat \<Rightarrow> nat \<Rightarrow> address list \<Rightarrow> address \<Rightarrow> nat \<Rightarrow> 'x \<Rightarrow> 'x result"
  w_decode :: "call_data \<Rightarrow> (address \<times> call_data) result"
  w_encode_zero :: call_data
  w_totalSupply :: "address \<Rightarrow> 'x \<Rightarrow> nat result"
  w_getReserves :: "address \<Rightarrow> 'x \<Rightarrow> (nat \<times> nat) result"
  w_token0 :: "address \<Rightarrow> 'x \<Rightarrow> address result"
  w_token1 :: "address \<Rightarrow> 'x \<Rightarrow> address result"
  w_WETH :: "address \<Rightarrow> 'x \<Rightarrow> address result"
  w_routerFactory :: "address \<Rightarrow> 'x \<Rightarrow> address result"

type_synonym 'x worker_state = "worker \<times> 'x"

definition worker_initialize ::
  "'x worker_ext \<Rightarrow> address \<Rightarrow> address \<Rightarrow> address \<Rightarrow> address \<Rightarrow> nat \<Rightarrow> address \<Rightarrow> address \<Rightarrow> nat \<Rightarrow> 'x \<Rightarrow> worker result" where
  "worker_initialize X op base chef rt pid add liq bounty x =
     bindE (w_WETH X rt x) (\<lambda>weth.
     bindE (w_routerFactory X rt x) (\<lambda>fac.
     bindE (w_poolLp X chef pid x) (\<lambda>lp.
     bindE (w_token0 X lp x) (\<lambda>t0.
     bindE (w_token1 X lp x) (\<lambda>t1.
     bindE (w_cake X chef x) (\<lambda>ck.
     let farming = (if t0 = base then t1 else t0) in
     bindE (require (bounty \<le> 500)
       ''PancakeswapV2Worker::initialize: reinvestBountyBps exceeded maxReinvestBountyBps'') (\<lambda>_.
     bindE (w_token0 X lp x) (\<lambda>t0.
     bindE (w_token1 X lp x) (\<lambda>t1.
     bindE (require ((farming = t0 \<or> farming = t1) \<and> (base = t0 \<or> base = t1))
       ''PancakeswapV2Worker::initialize: LP underlying not match with farm & base token'') (\<lambda>_.
     Inr \<lparr>masterChef = chef, wk_factory = fac, wk_router = rt, wk_lpToken = lp, wNative = weth, baseToken = base,
       farmingToken = farming, cake = ck, operator = op, wk_pid = pid, shares = (\<lambda>_. 0),
       okStrats = (\<lambda>_. False)(add := True, liq := True), wk_totalShare = 0, addStrat = add, liqStrat = liq,
       reinvestBountyBps = bounty, maxReinvestBountyBps = 500, okReinvestors = (\<lambda>_. False),
       fee = 9975, feeDenom = 10000\<rparr>))))))))))"

section \<open>Shares and LP tokens\<close>

definition shareToBalance :: "'x worker_ext \<Rightarrow> vault_msg \<Rightarrow> nat \<Rightarrow> 'x worker_state \<Rightarrow> nat result" where
  "shareToBalance X m share = (\<lambda>(s, x).
     if wk_totalShare s = 0 then Inr share
     else bindE (w_staked X (masterChef s) (wk_pid s) (this m) x) (\<lambda>totalBalance.
          bindE (sm_mul (w_math X) share totalBalance) (\<lambda>p. sm_div (w_math X) p (wk_totalShare s))))"

definition balanceToShare :: "'x worker_ext \<Rightarrow> vault_msg \<Rightarrow> nat \<Rightarrow> 'x worker_state \<Rightarrow> nat result" where
  "balanceToShare X m balance = (\<lambda>(s, x).
     if wk_totalShare s = 0 then Inr balance
     else bindE (w_staked X (masterChef s) (wk_pid s) (this m) x) (\<lambda>totalBalance.
          bindE (sm_mul (w_math X) balance (wk_totalShare s)) (\<lambda>p. sm_div (w_math X) p totalBalance)))"

definition addShare :: "'x worker_ext \<Rightarrow> vault_msg \<Rightarrow> nat \<Rightarrow> 'x worker_state \<Rightarrow> 'x worker_state result" where
  "addShare X m i = (\<lambda>(s, x). let M = w_math X in
     bindE (w_balanceOf X (wk_lpToken s) (this m) x) (\<lambda>balance.
     if balance > 0
     then bindE (w_safeApprove X (wk_lpToken s) (masterChef s) uint_max x) (\<lambda>x.
          bindE (balanceToShare X m balance (s, x)) (\<lambda>share.
          bindE (w_stake X (masterChef s) (wk_pid s) balance x) (\<lambda>x.
          bindE (sm_add M (shares s i) share) (\<lambda>own.
          bindE (sm_add M (wk_totalShare s) share) (\<lambda>total.
          bindE (w_safeApprove X (wk_lpToken s) (masterChef s) 0 x) (\<lambda>x.
          Inr (s\<lparr>shares := (shares s)(i := own), wk_totalShare := total\<rparr>, x)))))))
     else Inr (s, x)))"

definition removeShare :: "'x worker_ext \<Rightarrow> vault_msg \<Rightarrow> nat \<Rightarrow> 'x worker_state \<Rightarrow> 'x worker_state result" where
  "removeShare X m i = (\<lambda>(s, x). let share = shares s i in
     if share > 0
     then bindE (shareToBalance X m share (s, x)) (\<lambda>balance.
          bindE (w_unstake X (masterChef s) (wk_pid s) balance x) (\<lambda>x.
          bindE (sm_sub (w_math X) (wk_totalShare s) share) (\<lambda>total.
          Inr (s\<lparr>wk_totalShare := total, shares := (shares s)(i := 0)\<rparr>, x))))
     else Inr (s, x))"

section \<open>Value of a position\<close>

definition getMktSellAmount :: "safe_math \<Rightarrow> worker \<Rightarrow> nat \<Rightarrow> nat \<Rightarrow> nat \<Rightarrow> nat result" where
  "getMktSellAmount M s aIn rIn rOut = (if aIn = 0 then Inr 0
     else bindE (require (rIn > 0 \<and> rOut > 0) ''PancakeswapV2Worker::getMktSellAmount: bad reserve values'') (\<lambda>_.
          bindE (sm_mul M aIn (fee s)) (\<lambda>aInWithFee.
          bindE (sm_mul M aInWithFee rOut) (\<lambda>numerator.
          bindE (bindE (sm_mul M rIn (feeDenom s)) (\<lambda>r. sm_add M r aInWithFee)) (\<lambda>denominator.
          if denominator = 0 then Inl (Revert ''invalid opcode'') else Inr (numerator div denominator))))))"

definition worker_health :: "'x worker_ext \<Rightarrow> vault_msg \<Rightarrow> nat \<Rightarrow> 'x worker_state \<Rightarrow> nat result" where
  "worker_health X m i = (\<lambda>(s, x). let M = w_math X in
     bindE (shareToBalance X m (shares s i) (s, x)) (\<lambda>lpBalance.
     bindE (w_totalSupply X (wk_lpToken s) x) (\<lambda>lpSupply.
     bindE (w_getReserves X (wk_lpToken s) x) (\<lambda>(r0, r1).
     bindE (w_token0 X (wk_lpToken s) x) (\<lambda>t0.
     let (totalBase, totalFarming) = (if t0 = baseToken s then (r0, r1) else (r1, r0)) in
     bindE (bindE (sm_mul M lpBalance totalBase) (\<lambda>p. sm_div M p lpSupply)) (\<lambda>userBase.
     bindE (bindE (sm_mul M lpBalance totalFarming) (\<lambda>p. sm_div M p lpSupply)) (\<lambda>userFarming.
     bindE (sm_sub M totalFarming userFarming) (\<lambda>rIn.
     bindE (sm_sub M totalBase userBase) (\<lambda>rOut.
     bindE (getMktSellAmount M s userFarming rIn rOut) (\<lambda>sold. sm_add M sold userBase))))))))))"

section \<open>The operator's calls\<close>

text \<open>All base tokens that the worker holds go to one address.\<close>

definition send_all_base :: "'x worker_ext \<Rightarrow> vault_msg \<Rightarrow> address \<Rightarrow> 'x worker_state \<Rightarrow> 'x result" where
  "send_all_base X m to = (\<lambda>(s, x).
     bindE (w_balanceOf X (baseToken s) (this m) x) (\<lambda>n. w_safeTransfer X (baseToken s) to n x))"

definition worker_work ::
  "'x worker_ext \<Rightarrow> vault_msg \<Rightarrow> nat \<Rightarrow> address \<Rightarrow> nat \<Rightarrow> call_data \<Rightarrow> 'x worker_state \<Rightarrow> 'x worker_state result" where
  "worker_work X m i user debt data = (\<lambda>(s, x).
     bindE (require (sender m = operator s) ''PancakeswapV2Worker::onlyOperator: not operator'') (\<lambda>_.
     bindE (removeShare X m i (s, x)) (\<lambda>(s, x).
     bindE (w_decode X data) (\<lambda>(strat, ext).
     bindE (require (okStrats s strat) ''PancakeswapV2Worker::work: unapproved work strategy'') (\<lambda>_.
     bindE (w_balanceOf X (wk_lpToken s) (this m) x) (\<lambda>lp.
     bindE (w_transfer X (wk_lpToken s) strat lp x) (\<lambda>(sent, x).
     bindE (require sent ''PancakeswapV2Worker::work: unable to transfer lp to strat'') (\<lambda>_.
     bindE (send_all_base X m strat (s, x)) (\<lambda>x.
     bindE (w_execute X strat user debt ext x) (\<lambda>x.
     bindE (addShare X m i (s, x)) (\<lambda>(s, x).
     bindE (send_all_base X m (sender m) (s, x)) (\<lambda>x. Inr (s, x)))))))))))))"

definition worker_liquidate :: "'x worker_ext \<Rightarrow> vault_msg \<Rightarrow> nat \<Rightarrow> 'x worker_state \<Rightarrow> 'x worker_state result" where
  "worker_liquidate X m i = (\<lambda>(s, x).
     bindE (require (sender m = operator s) ''PancakeswapV2Worker::onlyOperator: not operator'') (\<lambda>_.
     bindE (removeShare X m i (s, x)) (\<lambda>(s, x).
     bindE (w_balanceOf X (wk_lpToken s) (this m) x) (\<lambda>lp.
     bindE (w_transfer X (wk_lpToken s) (liqStrat s) lp x) (\<lambda>(_, x).
     bindE (w_execute X (liqStrat s) zero_address 0 (w_encode_zero X) x) (\<lambda>x.
     bindE (send_all_base X m (sender m) (s, x)) (\<lambda>x. Inr (s, x))))))))"

section \<open>Reinvesting the reward\<close>

definition reinvest_path :: "worker \<Rightarrow> address list" where
  "reinvest_path s = (if baseToken s = wNative s then [cake s, wNative s] else [cake s, wNative s, baseToken s])"

definition worker_reinvest :: "'x worker_ext \<Rightarrow> vault_msg \<Rightarrow> 'x worker_state \<Rightarrow> 'x worker_state result" where
  "worker_reinvest X m = (\<lambda>(s, x). let M = w_math X in
     bindE (require (sender m = tx_origin m) ''PancakeswapV2Worker::onlyEOA: not eoa'') (\<lambda>_.
     bindE (require (okReinvestors s (sender m)) ''PancakeswapV2Worker::onlyReinvestor: not reinvestor'') (\<lambda>_.
     bindE (w_safeApprove X (cake s) (wk_router s) uint_max x) (\<lambda>x.
     bindE (w_safeApprove X (wk_lpToken s) (masterChef s) uint_max x) (\<lambda>x.
     bindE (w_unstake X (masterChef s) (wk_pid s) 0 x) (\<lambda>x.
     bindE (w_balanceOf X (cake s) (this m) x) (\<lambda>reward.
     if reward = 0 then Inr (s, x)
     else bindE (sm_mul M reward (reinvestBountyBps s)) (\<lambda>b. let bounty = b div 10000 in
          bindE (if bounty > 0 then w_safeTransfer X (cake s) (sender m) bounty x else Inr x) (\<lambda>x.
          bindE (sm_sub M reward bounty) (\<lambda>rest.
          bindE (w_swap X (wk_router s) rest 0 (reinvest_path s) (this m) (block_timestamp m) x) (\<lambda>x.
          bindE (send_all_base X m (addStrat s) (s, x)) (\<lambda>x.
          bindE (w_execute X (addStrat s) zero_address 0 (w_encode_zero X) x) (\<lambda>x.
          bindE (w_balanceOf X (wk_lpToken s) (this m) x) (\<lambda>lp.
          bindE (w_stake X (masterChef s) (wk_pid s) lp x) (\<lambda>x.
          bindE (w_safeApprove X (cake s) (wk_router s) 0 x) (\<lambda>x.
          bindE (w_safeApprove X (wk_lpToken s) (masterChef s) 0 x) (\<lambda>x.
          Inr (s, x))))))))))))))))))"

section \<open>The owner's calls\<close>

definition worker_onlyOwner :: "'x worker_ext \<Rightarrow> vault_msg \<Rightarrow> 'x \<Rightarrow> unit result" where
  "worker_onlyOwner X m x = require (w_isOwner X (sender m) x) ''Ownable: caller is not the owner''"

definition setReinvestBountyBps :: "'x worker_ext \<Rightarrow> vault_msg \<Rightarrow> nat \<Rightarrow> 'x worker_state \<Rightarrow> 'x worker_state result" where
  "setReinvestBountyBps X m n = (\<lambda>(s, x).
     bindE (worker_onlyOwner X m x) (\<lambda>_.
     bindE (require (n \<le> maxReinvestBountyBps s)
       ''PancakeswapV2Worker::setReinvestBountyBps: _reinvestBountyBps exceeded maxReinvestBountyBps'') (\<lambda>_.
     Inr (s\<lparr>reinvestBountyBps := n\<rparr>, x))))"

definition setMaxReinvestBountyBps :: "'x worker_ext \<Rightarrow> vault_msg \<Rightarrow> nat \<Rightarrow> 'x worker_state \<Rightarrow> 'x worker_state result" where
  "setMaxReinvestBountyBps X m n = (\<lambda>(s, x).
     bindE (worker_onlyOwner X m x) (\<lambda>_.
     bindE (require (n \<ge> reinvestBountyBps s)
       ''PancakeswapV2Worker::setMaxReinvestBountyBps: _maxReinvestBountyBps lower than reinvestBountyBps'') (\<lambda>_.
     Inr (s\<lparr>maxReinvestBountyBps := n\<rparr>, x))))"

definition setStrategyOk :: "'x worker_ext \<Rightarrow> vault_msg \<Rightarrow> address list \<Rightarrow> bool \<Rightarrow> 'x worker_state \<Rightarrow> 'x worker_state result" where
  "setStrategyOk X m strats isOk = (\<lambda>(s, x).
     bindE (worker_onlyOwner X m x) (\<lambda>_.
     Inr (s\<lparr>okStrats := fold (\<lambda>a f. f(a := isOk)) strats (okStrats s)\<rparr>, x)))"

definition setReinvestorOk :: "'x worker_ext \<Rightarrow> vault_msg \<Rightarrow> address list \<Rightarrow> bool \<Rightarrow> 'x worker_state \<Rightarrow> 'x worker_state result" where
  "setReinvestorOk X m reinvestors isOk = (\<lambda>(s, x).
     bindE (worker_onlyOwner X m x) (\<lambda>_.
     Inr (s\<lparr>okReinvestors := fold (\<lambda>a f. f(a := isOk)) reinvestors (okReinvestors s)\<rparr>, x)))"

definition setCriticalStrategies :: "'x worker_ext \<Rightarrow> vault_msg \<Rightarrow> address \<Rightarrow> address \<Rightarrow> 'x worker_state \<Rightarrow> 'x worker_state result" where
  "setCriticalStrategies X m add liq = (\<lambda>(s, x).
     bindE (worker_onlyOwner X m x) (\<lambda>_. Inr (s\<lparr>addStrat := add, liqStrat := liq\<rparr>, x)))"

section \<open>Calls\<close>

datatype worker_call =
    WorkCall nat address nat call_data
  | LiquidateCall nat
  | ReinvestCall
  | SetBounty nat
  | SetMaxBounty nat
  | SetStrategyOk "address list" bool
  | SetReinvestorOk "address list" bool
  | SetCritical address address

fun worker_perform :: "'x worker_ext \<Rightarrow> vault_msg \<Rightarrow> worker_call \<Rightarrow> 'x worker_state \<Rightarrow> 'x worker_state result" where
  "worker_perform X m (WorkCall i user debt data) = worker_work X m i user debt data"
| "worker_perform X m (LiquidateCall i) = worker_liquidate X m i"
| "worker_perform X m ReinvestCall = worker_reinvest X m"
| "worker_perform X m (SetBounty n) = setReinvestBountyBps X m n"
| "worker_perform X m (SetMaxBounty n) = setMaxReinvestBountyBps X m n"
| "worker_perform X m (SetStrategyOk ss b) = setStrategyOk X m ss b"
| "worker_perform X m (SetReinvestorOk rs b) = setReinvestorOk X m rs b"
| "worker_perform X m (SetCritical a l) = setCriticalStrategies X m a l"

end
