(* ===== verification/Worker_Shares.thy ===== *)
theory Worker_Shares
  imports Worker_Contract
begin

text \<open>
  What \<open>PancakeswapV2Worker\<close> promises to the positions of a vault: the shares of the positions add up to the
  total (\<open>share_inv\<close>), a call for one position takes no LP token from another, and the quote that
  \<open>health\<close> computes is what the pair pays.
\<close>

section \<open>What a call does to the shares\<close>

definition share_inv :: "worker \<Rightarrow> bool" where
  "share_inv s \<longleftrightarrow> finite {i. shares s i \<noteq> 0} \<and> (\<Sum>i | shares s i \<noteq> 0. shares s i) = wk_totalShare s"

definition set_share :: "nat \<Rightarrow> nat \<Rightarrow> worker \<Rightarrow> worker" where
  "set_share i v s = s\<lparr>shares := (shares s)(i := v), wk_totalShare := wk_totalShare s - shares s i + v\<rparr>"

lemma set_share_same [simp]: "shares s i \<le> wk_totalShare s \<Longrightarrow> set_share i (shares s i) s = s"
  by (simp add: set_share_def)

lemma share_le_total: "share_inv s \<Longrightarrow> shares s i \<le> wk_totalShare s"
  by (cases "shares s i = 0") (auto simp: share_inv_def dest: member_le_sum [where i = i and f = "shares s", rotated 2])

lemma share_inv_set_share:
  assumes "share_inv s"
  shows "share_inv (set_share i v s)"
proof -
  have fin: "finite {j. shares s j \<noteq> 0}" and sum: "(\<Sum>j | shares s j \<noteq> 0. shares s j) = wk_totalShare s"
    using assms by (simp_all add: share_inv_def)
  have new: "shares (set_share i v s) = (shares s)(i := v)"
    and total: "wk_totalShare (set_share i v s) = wk_totalShare s - shares s i + v"
    by (simp_all add: set_share_def)
  show ?thesis
    unfolding share_inv_def new total
    using support_sum_update [OF fin, of i v, unfolded sum] share_le_total [OF assms, of i] by linarith
qed

lemma shares_set_share [simp]:
  "shares (set_share i v s) = (shares s)(i := v)"
  "masterChef (set_share i v s) = masterChef s" "wk_pid (set_share i v s) = wk_pid s"
  "reinvestBountyBps (set_share i v s) = reinvestBountyBps s"
  "maxReinvestBountyBps (set_share i v s) = maxReinvestBountyBps s"
  "operator (set_share i v s) = operator s"
  by (simp_all add: set_share_def)

lemma set_share_twice [simp]:
  "shares s i \<le> wk_totalShare s \<Longrightarrow> set_share i w (set_share i v s) = set_share i w s"
  by (simp add: set_share_def)

lemma removeShare_effect:
  assumes M: "safe_math_ok (w_math X)" and le: "shares s i \<le> wk_totalShare s"
    and run: "removeShare X m i (s, x) = Inr (s', x')"
  shows "s' = set_share i 0 s \<and> (if shares s i = 0 then x' = x else
    \<exists>n. shareToBalance X m (shares s i) (s, x) = Inr n \<and> w_unstake X (masterChef s) (wk_pid s) n x = Inr x')"
proof (cases "shares s i = 0")
  case True
  then show ?thesis using run set_share_same [OF le] by (simp add: removeShare_def)
next
  case False
  then show ?thesis using run
    by (auto simp: removeShare_def Let_def set_share_def safe_math_iff [OF M])
qed

lemma addShare_effect:
  assumes M: "safe_math_ok (w_math X)" and le: "shares s i \<le> wk_totalShare s"
    and run: "addShare X m i (s, x) = Inr (s', x')"
  obtains (None) "s' = s" "x' = x"
    | (Added) n y z v where "w_safeApprove X (wk_lpToken s) (masterChef s) uint_max x = Inr y"
        "balanceToShare X m n (s, y) = Inr v" "w_stake X (masterChef s) (wk_pid s) n y = Inr z"
        "w_safeApprove X (wk_lpToken s) (masterChef s) 0 z = Inr x'" "s' = set_share i (shares s i + v) s"
proof -
  from run obtain n where n: "w_balanceOf X (wk_lpToken s) (this m) x = Inr n" by (auto simp: addShare_def Let_def)
  show thesis
  proof (cases "n > 0")
    case False
    with run n show thesis by (intro None) (simp_all add: addShare_def)
  next
    case True
    then have run: "bindE (w_safeApprove X (wk_lpToken s) (masterChef s) uint_max x) (\<lambda>y.
        bindE (balanceToShare X m n (s, y)) (\<lambda>v. bindE (w_stake X (masterChef s) (wk_pid s) n y) (\<lambda>z.
        bindE (sm_add (w_math X) (shares s i) v) (\<lambda>own. bindE (sm_add (w_math X) (wk_totalShare s) v) (\<lambda>total.
        bindE (w_safeApprove X (wk_lpToken s) (masterChef s) 0 z) (\<lambda>z.
        Inr (s\<lparr>shares := (shares s)(i := own), wk_totalShare := total\<rparr>, z))))))) = Inr (s', x')"
      using run n by (simp add: addShare_def Let_def)
    show thesis
      using run unfolding bindE_eq_Inr safe_math_iff [OF M] sum.inject prod.inject
      by (elim exE conjE) (rule Added, assumption+, use le in \<open>simp_all add: set_share_def\<close>)
  qed
qed

section \<open>Relations kept by every call\<close>

text \<open>The contracts a worker calls, other than the MasterChef.\<close>

inductive outside :: "'x worker_ext \<Rightarrow> 'x \<Rightarrow> 'x \<Rightarrow> bool" for X where
  "w_transfer X tok to n x = Inr (b, y) \<Longrightarrow> outside X x y"
| "w_safeTransfer X tok to n x = Inr y \<Longrightarrow> outside X x y"
| "w_safeApprove X tok to n x = Inr y \<Longrightarrow> outside X x y"
| "w_execute X strat user debt d x = Inr y \<Longrightarrow> outside X x y"
| "w_swap X rt n least path to t x = Inr y \<Longrightarrow> outside X x y"

text \<open>The position that a call works on.\<close>

fun worked_on :: "worker_call \<Rightarrow> nat option" where
  "worked_on (WorkCall i user debt d) = Some i"
| "worked_on (LiquidateCall i) = Some i"
| "worked_on c = None"

text \<open>A call that works on a position \<open>i\<close> is covered when \<open>allowed i\<close>.\<close>

locale worker_relation =
  fixes R :: "'x worker_state \<Rightarrow> 'x worker_state \<Rightarrow> bool" and X :: "'x worker_ext" and m :: vault_msg
    and allowed :: "nat \<Rightarrow> bool"
  assumes same: "R st st"
    and trans: "R st st' \<Longrightarrow> R st' st'' \<Longrightarrow> R st st''"
    and elsewhere: "outside X x y \<Longrightarrow> R (s, x) (s, y)"
    and removed: "allowed i \<Longrightarrow> removeShare X m i st = Inr st' \<Longrightarrow> R st st'"
    and added: "allowed i \<Longrightarrow> addShare X m i st = Inr st' \<Longrightarrow> R st st'"
    and staked: "w_stake X (masterChef s) (wk_pid s) n x = Inr y \<Longrightarrow> R (s, x) (s, y)"
    and harvested: "w_unstake X (masterChef s) (wk_pid s) 0 x = Inr y \<Longrightarrow> R (s, x) (s, y)"
    and bounty: "n \<le> maxReinvestBountyBps s \<Longrightarrow> R (s, x) (s\<lparr>reinvestBountyBps := n\<rparr>, x)"
    and max_bounty: "reinvestBountyBps s \<le> n \<Longrightarrow> R (s, x) (s\<lparr>maxReinvestBountyBps := n\<rparr>, x)"
    and whitelists: "R (s, x) (s\<lparr>okStrats := f\<rparr>, x)" "R (s, x) (s\<lparr>okReinvestors := f\<rparr>, x)"
    and critical: "R (s, x) (s\<lparr>addStrat := a, liqStrat := l\<rparr>, x)"
begin

lemma send_all: "send_all_base X m to (s, x) = Inr y \<Longrightarrow> R (s, x) (s, y)"
  by (auto simp: send_all_base_def intro: elsewhere [OF outside.intros(2)])

lemma work_kept:
  assumes run: "worker_work X m i user debt d (s, x) = Inr st'" and ok: "allowed i"
  shows "R (s, x) st'"
proof -
  from run obtain s1 x1 strat ext n b x2 x3 x4 s5 x5 x6 where
      run: "removeShare X m i (s, x) = Inr (s1, x1)" "w_transfer X (wk_lpToken s1) strat n x1 = Inr (b, x2)"
      "send_all_base X m strat (s1, x2) = Inr x3" "w_execute X strat user debt ext x3 = Inr x4"
      "addShare X m i (s1, x4) = Inr (s5, x5)" "send_all_base X m (sender m) (s5, x5) = Inr x6"
    and st': "st' = (s5, x6)"
    by (auto simp: worker_work_def split_def)
  have "R (s, x) (s1, x2)"
    by (rule trans [OF removed [OF ok run(1)] elsewhere [OF outside.intros(1) [OF run(2)]]])
  moreover have "R (s1, x2) (s1, x4)"
    by (rule trans [OF send_all [OF run(3)] elsewhere [OF outside.intros(4) [OF run(4)]]])
  moreover have "R (s1, x4) (s5, x6)" by (rule trans [OF added [OF ok run(5)] send_all [OF run(6)]])
  ultimately show ?thesis unfolding st' by (rule trans [OF trans])
qed

lemma liquidate_kept:
  assumes run: "worker_liquidate X m i (s, x) = Inr st'" and ok: "allowed i"
  shows "R (s, x) st'"
proof -
  from run obtain s1 x1 n b x2 x3 x4 where
      run: "removeShare X m i (s, x) = Inr (s1, x1)" "w_transfer X (wk_lpToken s1) (liqStrat s1) n x1 = Inr (b, x2)"
      "w_execute X (liqStrat s1) zero_address 0 (w_encode_zero X) x2 = Inr x3" "send_all_base X m (sender m) (s1, x3) = Inr x4"
    and st': "st' = (s1, x4)"
    by (auto simp: worker_liquidate_def split_def)
  have "R (s, x) (s1, x2)"
    by (rule trans [OF removed [OF ok run(1)] elsewhere [OF outside.intros(1) [OF run(2)]]])
  moreover have "R (s1, x2) (s1, x4)"
    by (rule trans [OF elsewhere [OF outside.intros(4) [OF run(3)]] send_all [OF run(4)]])
  ultimately show ?thesis unfolding st' by (rule trans)
qed

lemma reinvest_kept:
  assumes run: "worker_reinvest X m (s, x) = Inr st'"
  shows "R (s, x) st'"
proof -
  from run obtain x1 x2 x3 reward where
      run1: "w_safeApprove X (cake s) (wk_router s) uint_max x = Inr x1"
      "w_safeApprove X (wk_lpToken s) (masterChef s) uint_max x1 = Inr x2"
      "w_unstake X (masterChef s) (wk_pid s) 0 x2 = Inr x3" "w_balanceOf X (cake s) (this m) x3 = Inr reward"
    by (auto simp: worker_reinvest_def Let_def)
  have start: "R (s, x) (s, x3)"
    by (rule trans [OF trans [OF elsewhere [OF outside.intros(3) [OF run1(1)]] elsewhere [OF outside.intros(3) [OF run1(2)]]]
          harvested [OF run1(3)]])
  show ?thesis
  proof (cases "reward = 0")
    case True
    then have "st' = (s, x3)" using run run1 by (auto simp: worker_reinvest_def Let_def)
    then show ?thesis using start by simp
  next
    case False
    then obtain bounty x4 rest x5 x6 x7 lp x8 x9 x10 where
        run2: "(if bounty > 0 then w_safeTransfer X (cake s) (sender m) bounty x3 else Inr x3) = Inr x4"
        "w_swap X (wk_router s) rest 0 (reinvest_path s) (this m) (block_timestamp m) x4 = Inr x5"
        "send_all_base X m (addStrat s) (s, x5) = Inr x6"
        "w_execute X (addStrat s) zero_address 0 (w_encode_zero X) x6 = Inr x7"
        "w_stake X (masterChef s) (wk_pid s) lp x7 = Inr x8"
        "w_safeApprove X (cake s) (wk_router s) 0 x8 = Inr x9"
        "w_safeApprove X (wk_lpToken s) (masterChef s) 0 x9 = Inr x10"
      and st': "st' = (s, x10)"
      using run run1 by (fastforce simp: worker_reinvest_def Let_def)
    have "R (s, x3) (s, x4)" using run2(1) by (auto intro: same elsewhere [OF outside.intros(2)] split: if_splits)
    moreover have "R (s, x4) (s, x6)" by (rule trans [OF elsewhere [OF outside.intros(5) [OF run2(2)]] send_all [OF run2(3)]])
    moreover have "R (s, x6) (s, x8)" by (rule trans [OF elsewhere [OF outside.intros(4) [OF run2(4)]] staked [OF run2(5)]])
    moreover have "R (s, x8) (s, x10)"
      by (rule trans [OF elsewhere [OF outside.intros(3) [OF run2(6)]] elsewhere [OF outside.intros(3) [OF run2(7)]]])
    ultimately show ?thesis unfolding st' by (rule trans [OF start trans [OF _ trans [OF _ trans]]])
  qed
qed

lemma owner_kept:
  "setReinvestBountyBps X m n st = Inr st' \<Longrightarrow> R st st'"
  "setMaxReinvestBountyBps X m n st = Inr st' \<Longrightarrow> R st st'"
  "setStrategyOk X m as b st = Inr st' \<Longrightarrow> R st st'"
  "setReinvestorOk X m as b st = Inr st' \<Longrightarrow> R st st'"
  "setCriticalStrategies X m a l st = Inr st' \<Longrightarrow> R st st'"
  by (cases st; auto simp: setReinvestBountyBps_def setMaxReinvestBountyBps_def setStrategyOk_def setReinvestorOk_def
      setCriticalStrategies_def bounty max_bounty whitelists critical)+

lemma perform_kept:
  assumes "worker_perform X m c (s, x) = Inr st'"
    and "\<And>i. worked_on c = Some i \<Longrightarrow> allowed i"
  shows "R (s, x) st'"
  using assms by (cases c) (auto intro: work_kept liquidate_kept reinvest_kept owner_kept)

end

section \<open>The books\<close>

definition worker_inv :: "worker \<Rightarrow> bool" where
  "worker_inv s \<longleftrightarrow> share_inv s \<and> reinvestBountyBps s \<le> maxReinvestBountyBps s"

lemma share_inv_updates [simp]:
  "share_inv (s\<lparr>reinvestBountyBps := n\<rparr>) = share_inv s" "share_inv (s\<lparr>maxReinvestBountyBps := n\<rparr>) = share_inv s"
  "share_inv (s\<lparr>okStrats := f\<rparr>) = share_inv s" "share_inv (s\<lparr>okReinvestors := f\<rparr>) = share_inv s"
  "share_inv (s\<lparr>addStrat := a, liqStrat := l\<rparr>) = share_inv s"
  by (simp_all add: share_inv_def)

lemma add_share_inv:
  assumes "safe_math_ok (w_math X)" "share_inv s" "addShare X m i (s, x) = Inr (s', x')"
  shows "share_inv s' \<and> (\<exists>v. s' = set_share i v s)"
  using addShare_effect [OF assms(1) share_le_total [OF assms(2)] assms(3)]
  by cases (use assms(2) share_inv_set_share set_share_same [OF share_le_total] in \<open>metis\<close>)+

lemma remove_share_inv:
  assumes "safe_math_ok (w_math X)" "share_inv s" "removeShare X m i (s, x) = Inr (s', x')"
  shows "share_inv s' \<and> s' = set_share i 0 s"
  using removeShare_effect [OF assms(1) share_le_total [OF assms(2)] assms(3)] assms(2)
  by (simp add: share_inv_set_share)

interpretation books: worker_relation
  "\<lambda>st st'. safe_math_ok (w_math X) \<longrightarrow> worker_inv (fst st) \<longrightarrow> worker_inv (fst st')" X m "\<lambda>_. True"
  for X :: "'x worker_ext" and m :: vault_msg
proof (unfold_locales, goal_cases)
  case (4 i st st')
  then show ?case by (cases st, cases st') (auto simp: worker_inv_def dest: remove_share_inv)
next
  case (5 i st st')
  then show ?case by (cases st, cases st') (auto simp: worker_inv_def dest: add_share_inv)
qed (auto simp: worker_inv_def)

text \<open>Only calls for position \<open>j\<close> change its shares; nobody but the operator makes them.\<close>

interpretation others: worker_relation
  "\<lambda>st st'. safe_math_ok (w_math X) \<longrightarrow> share_inv (fst st) \<longrightarrow>
     share_inv (fst st') \<and> (\<forall>j. \<not> allowed j \<longrightarrow> shares (fst st') j = shares (fst st) j)" X m allowed
  for X :: "'x worker_ext" and m :: vault_msg and allowed :: "nat \<Rightarrow> bool"
proof (unfold_locales, goal_cases)
  case (4 i st st')
  then show ?case by (cases st, cases st') (auto dest!: remove_share_inv)
next
  case (5 i st st')
  then show ?case by (cases st, cases st') (auto dest!: add_share_inv)
qed auto

section \<open>What a position is worth in LP tokens\<close>

text \<open>
  The MasterChef counts for the worker at address \<open>a\<close> what it deposits and withdraws itself, and no call of
  another contract changes that.
\<close>

definition chef_counts :: "'x worker_ext \<Rightarrow> address \<Rightarrow> bool" where
  "chef_counts X a \<longleftrightarrow> (\<forall>chef pid x b. w_staked X chef pid a x = Inr b \<longrightarrow>
     (\<forall>n y. w_stake X chef pid n x = Inr y \<longrightarrow> w_staked X chef pid a y = Inr (b + n)) \<and>
     (\<forall>n y. w_unstake X chef pid n x = Inr y \<longrightarrow> n \<le> b \<and> w_staked X chef pid a y = Inr (b - n)) \<and>
     (\<forall>y. outside X x y \<longrightarrow> w_staked X chef pid a y = Inr b))"

text \<open>Position \<open>j\<close> keeps its shares, and the price of a share does not fall.\<close>

definition no_worse :: "'x worker_ext \<Rightarrow> vault_msg \<Rightarrow> nat \<Rightarrow> 'x worker_state \<Rightarrow> 'x worker_state \<Rightarrow> bool" where
  "no_worse X m j st st' \<longleftrightarrow> share_inv (fst st) \<and> 0 < shares (fst st) j \<longrightarrow>
     share_inv (fst st') \<and> shares (fst st') j = shares (fst st) j \<and>
     (\<forall>b. w_staked X (masterChef (fst st)) (wk_pid (fst st)) (this m) (snd st) = Inr b \<longrightarrow>
       (\<exists>b'. w_staked X (masterChef (fst st')) (wk_pid (fst st')) (this m) (snd st') = Inr b' \<and>
         b * wk_totalShare (fst st') \<le> b' * wk_totalShare (fst st)))"

lemma total_positive: "share_inv s \<Longrightarrow> 0 < shares s j \<Longrightarrow> 0 < wk_totalShare s"
  using share_le_total [of s j] by linarith

lemma price_trans:
  fixes b T b1 T1 b2 T2 :: nat
  assumes "b * T1 \<le> b1 * T" and "b1 * T2 \<le> b2 * T1" and "0 < T1"
  shows "b * T2 \<le> b2 * T"
proof -
  have "T1 * (b * T2) = b * T1 * T2" by simp
  also have "\<dots> \<le> b1 * T * T2" using assms(1) by (rule mult_le_mono1)
  also have "\<dots> = b1 * T2 * T" by simp
  also have "\<dots> \<le> b2 * T1 * T" using assms(2) by (rule mult_le_mono1)
  also have "\<dots> = T1 * (b2 * T)" by simp
  finally show ?thesis using assms(3) by simp
qed

lemma remove_no_worse:
  assumes M: "safe_math_ok (w_math X)" and chef: "chef_counts X (this m)" and ij: "i \<noteq> j"
    and run: "removeShare X m i (s, x) = Inr (s', x')"
  shows "no_worse X m j (s, x) (s', x')"
proof -
  { fix b assume inv: "share_inv s" and pos: "0 < shares s j"
      and b: "w_staked X (masterChef s) (wk_pid s) (this m) x = Inr b"
    let ?T = "wk_totalShare s" and ?sh = "shares s i"
    note le = share_le_total [OF inv, of i] and T = total_positive [OF inv pos]
    note s' = removeShare_effect [OF M le run]
    have T': "wk_totalShare s' = ?T - ?sh" using s' by (simp add: set_share_def)
    have "\<exists>b'. w_staked X (masterChef s) (wk_pid s) (this m) x' = Inr b' \<and> b * wk_totalShare s' \<le> b' * ?T"
    proof (cases "?sh = 0")
      case True
      then show ?thesis using s' b by (simp add: set_share_def)
    next
      case False
      with s' obtain n where n: "shareToBalance X m ?sh (s, x) = Inr n"
        and un: "w_unstake X (masterChef s) (wk_pid s) n x = Inr x'" by auto
      have n': "n = ?sh * b div ?T" using n b T by (auto simp: shareToBalance_def safe_math_iff [OF M])
      have nb: "n \<le> b" "w_staked X (masterChef s) (wk_pid s) (this m) x' = Inr (b - n)"
        using chef b un unfolding chef_counts_def by blast+
      have "n * ?T \<le> b * ?sh" by (simp add: n' mult.commute)
      then have "b * (?T - ?sh) \<le> (b - n) * ?T" by (simp add: diff_mult_distrib diff_mult_distrib2)
      then show ?thesis using nb by (simp add: T')
    qed }
  then show ?thesis
    using remove_share_inv [OF M _ run] ij by (auto simp: no_worse_def)
qed

lemma add_no_worse:
  assumes M: "safe_math_ok (w_math X)" and chef: "chef_counts X (this m)" and ij: "i \<noteq> j"
    and run: "addShare X m i (s, x) = Inr (s', x')"
  shows "no_worse X m j (s, x) (s', x')"
proof -
  { fix b assume inv: "share_inv s" and pos: "0 < shares s j"
      and b: "w_staked X (masterChef s) (wk_pid s) (this m) x = Inr b"
    let ?T = "wk_totalShare s"
    note le = share_le_total [OF inv, of i] and T = total_positive [OF inv pos]
    from M le run have "\<exists>b'. w_staked X (masterChef s) (wk_pid s) (this m) x' = Inr b' \<and> b * wk_totalShare s' \<le> b' * ?T"
    proof (cases rule: addShare_effect)
      case None
      then show ?thesis using b by simp
    next
      case (Added n y z v)
      have y: "w_staked X (masterChef s) (wk_pid s) (this m) y = Inr b"
        and "w_staked X (masterChef s) (wk_pid s) (this m) z = Inr (b + n)"
        and x': "w_staked X (masterChef s) (wk_pid s) (this m) x' = Inr (b + n)"
        using chef b Added(1,3,4) outside.intros(3) unfolding chef_counts_def by metis+
      have "v = n * ?T div b" using Added(2) y T by (auto simp: balanceToShare_def safe_math_iff [OF M])
      then have "b * v \<le> n * ?T" by simp
      then show ?thesis using x' le by (simp add: Added(5) set_share_def algebra_simps)
    qed }
  then show ?thesis
    using add_share_inv [OF M _ run] ij by (auto simp: no_worse_def)
qed

lemma no_worse_trans:
  assumes 1: "no_worse X m j st st'" and 2: "no_worse X m j st' st''"
  shows "no_worse X m j st st''"
  unfolding no_worse_def
proof (intro impI, elim conjE, intro conjI allI impI)
  assume inv: "share_inv (fst st)" and pos: "0 < shares (fst st) j"
  with 1 have inv': "share_inv (fst st')" and sh: "shares (fst st') j = shares (fst st) j"
    by (simp_all add: no_worse_def)
  then have pos': "0 < shares (fst st') j" using pos by simp
  show "share_inv (fst st'')" and "shares (fst st'') j = shares (fst st) j"
    using 2 inv' pos' sh by (simp_all add: no_worse_def)
  fix b assume "w_staked X (masterChef (fst st)) (wk_pid (fst st)) (this m) (snd st) = Inr b"
  then obtain b1 where b1: "w_staked X (masterChef (fst st')) (wk_pid (fst st')) (this m) (snd st') = Inr b1"
      "b * wk_totalShare (fst st') \<le> b1 * wk_totalShare (fst st)"
    using 1 inv pos by (auto simp: no_worse_def)
  then obtain b2 where b2: "w_staked X (masterChef (fst st'')) (wk_pid (fst st'')) (this m) (snd st'') = Inr b2"
      "b1 * wk_totalShare (fst st'') \<le> b2 * wk_totalShare (fst st')"
    using 2 inv' pos' by (auto simp: no_worse_def)
  show "\<exists>b'. w_staked X (masterChef (fst st'')) (wk_pid (fst st'')) (this m) (snd st'') = Inr b' \<and>
      b * wk_totalShare (fst st'') \<le> b' * wk_totalShare (fst st)"
    using b2(1) price_trans [OF b1(2) b2(2) total_positive [OF inv' pos']] by blast
qed

interpretation no_worse: worker_relation
  "\<lambda>st st'. safe_math_ok (w_math X) \<longrightarrow> chef_counts X (this m) \<longrightarrow> no_worse X m j st st'" X m "\<lambda>i. i \<noteq> j"
  for X :: "'x worker_ext" and m :: vault_msg and j :: nat
proof (unfold_locales, goal_cases)
  case (2 st st' st'')
  then show ?case by (auto intro: no_worse_trans)
next
  case (3 x y s)
  then have "\<And>chef pid b. chef_counts X (this m) \<Longrightarrow> w_staked X chef pid (this m) x = Inr b \<Longrightarrow>
      w_staked X chef pid (this m) y = Inr b"
    unfolding chef_counts_def by blast
  then show ?case by (simp add: no_worse_def)
next
  case (4 i st st')
  then show ?case by (cases st, cases st') (simp add: remove_no_worse)
next
  case (5 i st st')
  then show ?case by (cases st, cases st') (simp add: add_no_worse)
next
  case (6 s n x y)
  then have "\<And>b. chef_counts X (this m) \<Longrightarrow> w_staked X (masterChef s) (wk_pid s) (this m) x = Inr b \<Longrightarrow>
      w_staked X (masterChef s) (wk_pid s) (this m) y = Inr (b + n)"
    unfolding chef_counts_def by blast
  then show ?case by (simp add: no_worse_def)
next
  case (7 s x y)
  then have "\<And>b. chef_counts X (this m) \<Longrightarrow> w_staked X (masterChef s) (wk_pid s) (this m) x = Inr b \<Longrightarrow>
      w_staked X (masterChef s) (wk_pid s) (this m) y = Inr (b - 0)"
    unfolding chef_counts_def by blast
  then show ?case by (simp add: no_worse_def)
qed (auto simp: no_worse_def)

section \<open>Workers in use\<close>

text \<open>What is set once: the configuration and the operator.\<close>

definition same_config :: "worker \<Rightarrow> worker \<Rightarrow> bool" where
  "same_config s s' \<longleftrightarrow> s'\<lparr>shares := shares s, wk_totalShare := wk_totalShare s, okStrats := okStrats s, addStrat := addStrat s,
     liqStrat := liqStrat s, reinvestBountyBps := reinvestBountyBps s, maxReinvestBountyBps := maxReinvestBountyBps s,
     okReinvestors := okReinvestors s\<rparr> = s"

lemma same_config_iff:
  "same_config s s' \<longleftrightarrow> masterChef s' = masterChef s \<and> wk_factory s' = wk_factory s \<and> wk_router s' = wk_router s \<and>
     wk_lpToken s' = wk_lpToken s \<and> wNative s' = wNative s \<and> baseToken s' = baseToken s \<and>
     farmingToken s' = farmingToken s \<and> cake s' = cake s \<and> operator s' = operator s \<and> wk_pid s' = wk_pid s \<and>
     fee s' = fee s \<and> feeDenom s' = feeDenom s"
  by (cases s, cases s') (auto simp: same_config_def)

lemma share_calls_config:
  "removeShare X m i st = Inr st' \<Longrightarrow> same_config (fst st) (fst st')"
  "addShare X m i st = Inr st' \<Longrightarrow> same_config (fst st) (fst st')"
  by (cases st, cases st'; auto simp: removeShare_def addShare_def Let_def same_config_iff split: if_splits)+

interpretation config: worker_relation "\<lambda>st st'. same_config (fst st) (fst st')" X m "\<lambda>_. True"
  for X :: "'x worker_ext" and m :: vault_msg
  by unfold_locales (auto simp: share_calls_config, auto simp: same_config_iff)

inductive worker_reach :: "'x worker_ext \<Rightarrow> 'x worker_state \<Rightarrow> bool" for X where
  deployed: "worker_initialize X op base chef rt pid add liq bps x = Inr s \<Longrightarrow> worker_reach X (s, x)"
| called: "worker_reach X st \<Longrightarrow> worker_perform X m c st = Inr st' \<Longrightarrow> worker_reach X st'"
| elsewhere: "worker_reach X (s, x) \<Longrightarrow> worker_reach X (s, y)"

lemma initialized_inv:
  "worker_initialize X op base chef rt pid add liq bps x = Inr s \<Longrightarrow> worker_inv s \<and> fee s = 9975 \<and> feeDenom s = 10000"
  by (auto simp: worker_initialize_def Let_def worker_inv_def share_inv_def)

lemma reach_inv:
  assumes "worker_reach X st" and M: "safe_math_ok (w_math X)"
  shows "worker_inv (fst st) \<and> fee (fst st) = 9975 \<and> feeDenom (fst st) = 10000"
  using assms(1)
proof induction
  case (deployed op base chef rt pid add liq bps x s)
  then show ?case by (simp add: initialized_inv)
next
  case (called st m c st')
  obtain s x where st: "st = (s, x)" by (cases st)
  have "same_config (fst st) (fst st')"
    using config.perform_kept [OF called(2) [unfolded st]] by (simp add: st)
  moreover have "worker_inv (fst st')"
    using books.perform_kept [OF called(2) [unfolded st]] called(3) M by (simp add: st)
  ultimately show ?case using called(3) by (simp add: same_config_iff)
qed simp

lemma reach_shares: "worker_reach X (s, x) \<Longrightarrow> safe_math_ok (w_math X) \<Longrightarrow> share_inv s"
  using reach_inv by (fastforce simp: worker_inv_def)

lemma operator_only:
  "worker_perform X m c (s, x) = Inr st' \<Longrightarrow> worked_on c = Some i \<Longrightarrow> sender m = operator s"
  by (cases c) (auto simp: worker_work_def worker_liquidate_def)

text \<open>
  C20: whatever the strategies, tokens and the MasterChef do, the shares of the positions add up to the total,
  the bounty stays within its maximum, and a call changes the shares of a position only if the operator makes
  it for that position.
\<close>
theorem worker_books:
  assumes M: "safe_math_ok (w_math X)" and reach: "worker_reach X (s, x)"
    and run: "worker_perform X m c (s, x) = Inr (s', x')"
  shows "finite {i. shares s' i \<noteq> 0} \<and> (\<Sum>i | shares s' i \<noteq> 0. shares s' i) = wk_totalShare s' \<and>
    reinvestBountyBps s' \<le> maxReinvestBountyBps s' \<and>
    (\<forall>i. shares s' i \<noteq> shares s i \<longrightarrow> worked_on c = Some i \<and> sender m = operator s)"
proof -
  have "worker_inv s'" using reach_inv [OF worker_reach.called [OF reach run] M] by simp
  moreover have "worked_on c = Some i \<and> sender m = operator s" if "shares s' i \<noteq> shares s i" for i
  proof -
    have "worked_on c = Some i"
      using others.perform_kept [OF run, of "\<lambda>j. worked_on c = Some j"] M reach_shares [OF reach M] that by auto
    then show ?thesis using operator_only [OF run] by simp
  qed
  ultimately show ?thesis by (simp add: worker_inv_def share_inv_def)
qed

text \<open>
  C9: no call takes LP tokens from a position it does not work on: the tokens that its shares stand for
  can still be computed and are at least as many as before, also when the other position is liquidated, when the
  strategy returns nothing, and through every rounding.
\<close>
theorem other_positions_keep_their_lp:
  assumes M: "safe_math_ok (w_math X)" and chef: "chef_counts X (this m)" and reach: "worker_reach X (s, x)"
    and run: "worker_perform X m c (s, x) = Inr (s', x')" and other: "worked_on c \<noteq> Some j"
    and before: "shareToBalance X m (shares s j) (s, x) = Inr n" and owns: "0 < shares s j"
    and fits: "\<And>b. w_staked X (masterChef s') (wk_pid s') (this m) x' = Inr b \<Longrightarrow> shares s' j * b \<le> uint_max"
  shows "\<exists>n'. shareToBalance X m (shares s' j) (s', x') = Inr n' \<and> n \<le> n'"
proof -
  note inv = reach_shares [OF reach M]
  have "no_worse X m j (s, x) (s', x')"
    using no_worse.perform_kept [OF run] other M chef by auto
  then have inv': "share_inv s'" and sh: "shares s' j = shares s j"
    and price: "\<And>b. w_staked X (masterChef s) (wk_pid s) (this m) x = Inr b \<Longrightarrow>
      \<exists>b'. w_staked X (masterChef s') (wk_pid s') (this m) x' = Inr b' \<and> b * wk_totalShare s' \<le> b' * wk_totalShare s"
    using inv owns by (auto simp: no_worse_def)
  have T: "0 < wk_totalShare s" "0 < wk_totalShare s'"
    using total_positive [OF inv owns] total_positive [OF inv', of j] sh owns by simp_all
  from before T obtain b where b: "w_staked X (masterChef s) (wk_pid s) (this m) x = Inr b"
    and n: "n = shares s j * b div wk_totalShare s"
    by (auto simp: shareToBalance_def safe_math_iff [OF M])
  from price [OF b] obtain b' where b': "w_staked X (masterChef s') (wk_pid s') (this m) x' = Inr b'"
    and le: "b * wk_totalShare s' \<le> b' * wk_totalShare s" by blast
  have "shareToBalance X m (shares s' j) (s', x') = Inr (shares s j * b' div wk_totalShare s')"
    using T b' fits [OF b'] sh by (simp add: shareToBalance_def safe_math_iff [OF M])
  then show ?thesis using price_le [OF le T(2), of "shares s j"] by (simp add: n)
qed

section \<open>Health\<close>

text \<open>
  What a Pancake pair with reserves \<open>rIn\<close> and \<open>rOut\<close> pays for \<open>a\<close> tokens: it accepts a swap when the product of
  the balances, less 25 basis points of the input, is not below the product of the reserves.
\<close>

definition pair_accepts :: "nat \<Rightarrow> nat \<Rightarrow> nat \<Rightarrow> nat \<Rightarrow> bool" where
  "pair_accepts a rIn rOut out \<longleftrightarrow> out \<le> rOut \<and>
     rIn * rOut * 10000 * 10000 \<le> (10000 * (rIn + a) - 25 * a) * (10000 * (rOut - out))"

lemma pair_accepts_iff:
  assumes "0 < rIn"
  shows "pair_accepts a rIn rOut out \<longleftrightarrow> out \<le> a * 9975 * rOut div (rIn * 10000 + a * 9975)"
proof -
  let ?D = "rIn * 10000 + a * 9975"
  have D: "10000 * (rIn + a) - 25 * a = ?D" by simp
  have "out \<le> a * 9975 * rOut div ?D \<longleftrightarrow> out * ?D \<le> a * 9975 * rOut"
    using assms by (simp add: less_eq_div_iff_mult_less_eq)
  also have "\<dots> \<longleftrightarrow> pair_accepts a rIn rOut out"
  proof (cases "out \<le> rOut")
    case True
    then obtain k where k: "rOut = out + k" using le_Suc_ex by blast
    have "rIn * rOut * 10000 * 10000 \<le> ?D * (10000 * k) \<longleftrightarrow> 10000 * (rIn * rOut * 10000) \<le> 10000 * (?D * k)"
      by (simp add: ac_simps)
    also have "\<dots> \<longleftrightarrow> rIn * rOut * 10000 \<le> ?D * k" by (simp only: mult_le_cancel1) simp
    also have "\<dots> \<longleftrightarrow> out * ?D \<le> a * 9975 * rOut" by (simp add: k algebra_simps)
    finally have "rIn * rOut * 10000 * 10000 \<le> ?D * (10000 * k) \<longleftrightarrow> out * ?D \<le> a * 9975 * rOut" .
    moreover have "rOut - out = k" using k by simp
    ultimately show ?thesis using True unfolding pair_accepts_def D by (simp only: simp_thms)
  next
    case False
    have "a * 9975 * rOut \<le> rOut * ?D" by (simp add: algebra_simps)
    also have "\<dots> < out * ?D" using False assms by simp
    finally have "\<not> out * ?D \<le> a * 9975 * rOut" by (simp only: not_le)
    then show ?thesis using False by (simp only: pair_accepts_def simp_thms)
  qed
  finally show ?thesis by simp
qed

lemma getMktSellAmount_Inr:
  assumes M: "safe_math_ok M" and run: "getMktSellAmount M s a rIn rOut = Inr out" and a: "0 < a"
    and fees: "fee s = 9975" "feeDenom s = 10000"
  shows "0 < rIn \<and> 0 < rOut \<and> out = a * 9975 * rOut div (rIn * 10000 + a * 9975)"
  using run a unfolding getMktSellAmount_def fees
  by (auto simp: safe_math_iff [OF M] split: if_splits)

lemma sell_below_reserve:
  fixes a rIn rOut :: nat
  assumes "0 < rIn" and "0 < rOut"
  shows "a * 9975 * rOut div (rIn * 10000 + a * 9975) < rOut"
proof -
  have "a * 9975 * rOut < rOut * (rIn * 10000 + a * 9975)" using assms by (simp add: algebra_simps)
  then show ?thesis using assms by (simp add: div_less_iff_less_mult)
qed

lemma worker_health_parts:
  assumes M: "safe_math_ok (w_math X)" and run: "worker_health X m i (s, x) = Inr h"
  obtains lp L r0 r1 t0 sold where
    "shareToBalance X m (shares s i) (s, x) = Inr lp" "w_totalSupply X (wk_lpToken s) x = Inr L"
    "w_getReserves X (wk_lpToken s) x = Inr (r0, r1)" "w_token0 X (wk_lpToken s) x = Inr t0"
    "let (B, F) = (if t0 = baseToken s then (r0, r1) else (r1, r0)); b = lp * B div L; f = lp * F div L
     in 0 < L \<and> f \<le> F \<and> b \<le> B \<and> getMktSellAmount (w_math X) s f (F - f) (B - b) = Inr sold \<and> h = sold + b"
proof -
  from run obtain lp L r0 r1 t0 where reads:
    "shareToBalance X m (shares s i) (s, x) = Inr lp" "w_totalSupply X (wk_lpToken s) x = Inr L"
    "w_getReserves X (wk_lpToken s) x = Inr (r0, r1)" "w_token0 X (wk_lpToken s) x = Inr t0"
    by (auto simp: worker_health_def Let_def)
  have "\<exists>sold. let (B, F) = (if t0 = baseToken s then (r0, r1) else (r1, r0)); b = lp * B div L; f = lp * F div L
     in 0 < L \<and> f \<le> F \<and> b \<le> B \<and> getMktSellAmount (w_math X) s f (F - f) (B - b) = Inr sold \<and> h = sold + b"
    using run reads by (auto simp: worker_health_def Let_def safe_math_iff [OF M] split: if_splits)
  then show thesis using that reads by blast
qed

text \<open>
  C14: \<open>health\<close> is what liquidating the position brings.  It is the position's part of the base tokens in the
  pool, plus the most the pair pays, out of the reserves that remain, for the position's part of the farming
  tokens: the pair accepts that amount and would not accept one unit more.  It never exceeds the pool's base tokens.
\<close>
theorem health_is_liquidation_value:
  assumes M: "safe_math_ok (w_math X)" and reach: "worker_reach X (s, x)"
    and run: "worker_health X m i (s, x) = Inr h"
  shows "\<exists>lp L r0 r1 t0 B F. shareToBalance X m (shares s i) (s, x) = Inr lp \<and> w_totalSupply X (wk_lpToken s) x = Inr L \<and>
    w_getReserves X (wk_lpToken s) x = Inr (r0, r1) \<and> w_token0 X (wk_lpToken s) x = Inr t0 \<and>
    (B, F) = (if t0 = baseToken s then (r0, r1) else (r1, r0)) \<and>
    (let b = lp * B div L; f = lp * F div L; sold = h - b
     in b \<le> h \<and> h \<le> B \<and> (if f = 0 then sold = 0 else
        pair_accepts f (F - f) (B - b) sold \<and> \<not> pair_accepts f (F - f) (B - b) (sold + 1)))"
proof -
  have fees: "fee s = 9975" "feeDenom s = 10000" using reach_inv [OF reach M] by simp_all
  from M run show ?thesis
  proof (cases rule: worker_health_parts)
    case (1 lp L r0 r1 t0 sold)
    obtain B F where BF: "(B, F) = (if t0 = baseToken s then (r0, r1) else (r1, r0))" by (metis surj_pair)
    define b f where "b = lp * B div L" and "f = lp * F div L"
    have parts: "f \<le> F" "b \<le> B" "getMktSellAmount (w_math X) s f (F - f) (B - b) = Inr sold" "h = sold + b"
      using 1(5) unfolding BF [symmetric] by (simp_all add: b_def f_def Let_def)
    have "sold \<le> B - b \<and> (if f = 0 then sold = 0 else
        pair_accepts f (F - f) (B - b) sold \<and> \<not> pair_accepts f (F - f) (B - b) (sold + 1))"
    proof (cases "f = 0")
      case True
      then show ?thesis using parts(3) by (simp add: getMktSellAmount_def)
    next
      case False
      then have "0 < F - f \<and> 0 < B - b \<and> sold = f * 9975 * (B - b) div ((F - f) * 10000 + f * 9975)"
        using getMktSellAmount_Inr [OF M parts(3) _ fees] by simp
      then show ?thesis
        using False sell_below_reserve [of "F - f" "B - b" f] by (simp add: pair_accepts_iff del: mult_Suc_right)
    qed
    then have "b \<le> h \<and> h \<le> B \<and> (if f = 0 then h - b = 0 else
        pair_accepts f (F - f) (B - b) (h - b) \<and> \<not> pair_accepts f (F - f) (B - b) (h - b + 1))"
      using parts(2,4) by (cases "f = 0") auto
    then have "let b = lp * B div L; f = lp * F div L; sold = h - b
       in b \<le> h \<and> h \<le> B \<and> (if f = 0 then sold = 0 else
          pair_accepts f (F - f) (B - b) sold \<and> \<not> pair_accepts f (F - f) (B - b) (sold + 1))"
      unfolding Let_def b_def f_def .
    with 1(1-4) BF show ?thesis
      by (intro exI [of _ lp] exI [of _ L] exI [of _ r0] exI [of _ r1] exI [of _ t0] exI [of _ B] exI [of _ F] conjI)
  qed
qed

text \<open>
  A liquidated position is gone: it has no share, its health is zero, and no call but \<open>work\<close> by the operator
  for this position gives it a share again.
\<close>
theorem liquidated_position_is_gone:
  assumes M: "safe_math_ok (w_math X)" and reach: "worker_reach X (s, x)"
    and run: "worker_liquidate X m i (s, x) = Inr (s', x')"
  shows "shares s' i = 0 \<and> (\<forall>k y h. worker_health X k i (s', y) = Inr h \<longrightarrow> h = 0) \<and>
    (\<forall>k c y s'' z. worker_perform X k c (s', y) = Inr (s'', z) \<longrightarrow> shares s'' i = 0 \<or>
       (\<exists>user debt d. c = WorkCall i user debt d) \<and> sender k = operator s)"
proof -
  note inv = reach_shares [OF reach M]
  have zero: "shares s' i = 0"
    using run by (auto simp: worker_liquidate_def split_def dest!: remove_share_inv [OF M inv])
  have reach': "worker_reach X (s', y)" for y
    by (rule worker_reach.elsewhere [OF worker_reach.called [OF reach, of m "LiquidateCall i"]]) (simp add: run)
  note inv' = reach_shares [OF reach' M]
  have op: "operator s' = operator s"
    using config.liquidate_kept [OF run] by (simp add: same_config_iff)
  have "h = 0" if "worker_health X k i (s', y) = Inr h" for k y h
    using M that
    by (cases rule: worker_health_parts)
      (auto simp: zero shareToBalance_def getMktSellAmount_def safe_math_iff [OF M] Let_def split: if_splits)
  moreover have "shares s'' i = 0 \<or> (\<exists>user debt d. c = WorkCall i user debt d) \<and> sender k = operator s"
    if call: "worker_perform X k c (s', y) = Inr (s'', z)" for k c y s'' z
  proof (cases "worked_on c = Some i")
    case True
    then show ?thesis using operator_only [OF call True] op
    proof (cases c)
      case (LiquidateCall j)
      then have "shares s'' i = 0" using True call
        by (auto simp: worker_liquidate_def split_def dest!: remove_share_inv [OF M inv'])
      then show ?thesis by simp
    qed (use True in simp_all)
  next
    case False
    then show ?thesis
      using others.perform_kept [OF call, of "\<lambda>j. worked_on c = Some j"] M inv' zero by auto
  qed
  ultimately show ?thesis using zero by blast
qed

section \<open>A concrete worker\<close>

text \<open>
  For the witnesses: the world counts the worker's staked LP tokens, the LP, base and CAKE tokens that it holds.
  The add strategy returns 90 LP tokens and the liquidation strategy 50 base tokens.
\<close>

type_synonym purse = "nat \<times> nat \<times> nat \<times> nat"

definition plain_worker :: "purse worker_ext" where
  "plain_worker = \<lparr>w_math = checked_math, w_isOwner = (\<lambda>a _. a = ''OWNER''),
     w_staked = (\<lambda>_ _ _ (st, _). Inr st), w_poolLp = (\<lambda>_ _ _. Inr ''LP''), w_cake = (\<lambda>_ _. Inr ''CAKE''),
     w_stake = (\<lambda>_ _ n (st, lp, r). if n \<le> lp then Inr (st + n, lp - n, r) else Inl (Revert ''stake'')),
     w_unstake = (\<lambda>_ _ n (st, lp, r). if n \<le> st then Inr (st - n, lp + n, r) else Inl (Revert ''unstake'')),
     w_balanceOf = (\<lambda>tok _ (_, lp, b, c). Inr (if tok = ''LP'' then lp else if tok = ''BASE'' then b else c)),
     w_transfer = (\<lambda>_ _ n (st, lp, r). Inr (True, st, lp - n, r)),
     w_safeTransfer = (\<lambda>tok _ n (st, lp, b, c). Inr (if tok = ''BASE'' then (st, lp, b - n, c) else (st, lp, b, c - n))),
     w_safeApprove = (\<lambda>_ _ _ x. Inr x),
     w_execute = (\<lambda>strat _ _ _ (st, lp, b, c). Inr (if strat = ''ADD'' then (st, lp + 90, b, c) else (st, lp, b + 50, c))),
     w_swap = (\<lambda>_ n _ _ _ _ (st, lp, b, c). Inr (st, lp, b + n, c - n)),
     w_decode = (\<lambda>d. Inr (''ADD'', d)), w_encode_zero = replicate 32 0, w_totalSupply = (\<lambda>_ _. Inr 1000),
     w_getReserves = (\<lambda>_ _. Inr (50000, 20000)), w_token0 = (\<lambda>_ _. Inr ''BASE''), w_token1 = (\<lambda>_ _. Inr ''FARM''),
     w_WETH = (\<lambda>_ _. Inr ''WBNB''), w_routerFactory = (\<lambda>_ _. Inr ''FACTORY'')\<rparr>"

lemma plain_worker_math [simp]: "safe_math_ok (w_math plain_worker)"
  by (simp add: plain_worker_def)

lemma plain_worker_chef: "chef_counts plain_worker a"
  by (auto simp: chef_counts_def plain_worker_def elim!: outside.cases split: prod.splits if_splits)

definition sample_fresh :: worker where
  "sample_fresh = \<lparr>masterChef = ''CHEF'', wk_factory = ''FACTORY'', wk_router = ''ROUTER'', wk_lpToken = ''LP'', wNative = ''WBNB'',
     baseToken = ''BASE'', farmingToken = ''FARM'', cake = ''CAKE'', operator = ''VAULT'', wk_pid = 7, shares = (\<lambda>_. 0),
     okStrats = (\<lambda>_. False)(''ADD'' := True, ''LIQ'' := True), wk_totalShare = 0, addStrat = ''ADD'', liqStrat = ''LIQ'',
     reinvestBountyBps = 300, maxReinvestBountyBps = 500, okReinvestors = (\<lambda>_. False), fee = 9975, feeDenom = 10000\<rparr>"

definition sample_farm :: worker where
  "sample_farm = sample_fresh\<lparr>shares := (\<lambda>_. 0)(1 := 90, 2 := 90), wk_totalShare := 180\<rparr>"

definition sample_closed :: worker where
  "sample_closed = sample_farm\<lparr>shares := (\<lambda>_. 0)(1 := 0, 2 := 90), wk_totalShare := 90\<rparr>"

lemmas worker_run = plain_worker_def checked_math_def uint_max_def vault_msg_of_def send_all_base_def
  shareToBalance_def balanceToShare_def addShare_def removeShare_def Let_def

lemma sample_worker_steps:
  "worker_initialize plain_worker ''VAULT'' ''BASE'' ''CHEF'' ''ROUTER'' 7 ''ADD'' ''LIQ'' 300 x = Inr sample_fresh"
  "worker_perform plain_worker (vault_msg_of ''VAULT'' 1000) (WorkCall 1 ''U'' 0 []) (sample_fresh, (0, 0, 0, 0)) =
     Inr (sample_fresh\<lparr>shares := (\<lambda>_. 0)(1 := 90), wk_totalShare := 90\<rparr>, (90, 0, 0, 0))"
  "worker_perform plain_worker (vault_msg_of ''VAULT'' 1000) (WorkCall 2 ''U'' 0 [])
     (sample_fresh\<lparr>shares := (\<lambda>_. 0)(1 := 90), wk_totalShare := 90\<rparr>, (90, 0, 0, 0)) = Inr (sample_farm, (180, 0, 0, 0))"
  "worker_liquidate plain_worker (vault_msg_of ''VAULT'' 1000) 1 (sample_farm, (200, 0, 0, 0)) = Inr (sample_closed, (100, 0, 0, 0))"
  by (simp add: worker_run worker_initialize_def sample_fresh_def)
    (simp_all add: worker_run worker_work_def worker_liquidate_def sample_fresh_def sample_farm_def sample_closed_def fun_eq_iff)

lemma sample_worker_reach: "worker_reach plain_worker (sample_farm, x)"
  by (rule worker_reach.elsewhere [OF worker_reach.called [OF worker_reach.called [OF worker_reach.deployed]]])
    (rule sample_worker_steps)+

lemma sample_liquidation:
  "worker_perform plain_worker (vault_msg_of ''VAULT'' 1000) (LiquidateCall 1) (sample_farm, (200, 0, 0, 0)) =
     Inr (sample_closed, (100, 0, 0, 0))"
  unfolding worker_perform.simps by (rule sample_worker_steps)

theorem worker_books_witness:
  "shares sample_closed 1 \<noteq> shares sample_farm 1 \<and> (\<Sum>i | shares sample_closed i \<noteq> 0. shares sample_closed i) = 90 \<and>
   sender (vault_msg_of ''VAULT'' 1000) = operator sample_farm"
proof -
  have ne: "shares sample_closed 1 \<noteq> shares sample_farm 1" by (simp add: sample_closed_def sample_farm_def)
  note books = worker_books [OF plain_worker_math sample_worker_reach sample_liquidation]
  have "wk_totalShare sample_closed = 90" by (simp add: sample_closed_def)
  moreover have "(\<Sum>i | shares sample_closed i \<noteq> 0. shares sample_closed i) = wk_totalShare sample_closed"
    by (rule conjunct1 [OF conjunct2 [OF books]])
  moreover have "sender (vault_msg_of ''VAULT'' 1000) = operator sample_farm"
    by (rule conjunct2 [OF mp [OF spec [OF conjunct2 [OF conjunct2 [OF conjunct2 [OF books]]]] ne]])
  ultimately show ?thesis using ne by (simp only: simp_thms)
qed

theorem other_positions_keep_their_lp_witness:
  "\<exists>n'. shareToBalance plain_worker (vault_msg_of ''VAULT'' 1000) (shares sample_closed 2) (sample_closed, (100, 0, 0, 0)) =
     Inr n' \<and> 100 \<le> n'"
proof (rule other_positions_keep_their_lp [OF plain_worker_math plain_worker_chef sample_worker_reach sample_liquidation])
  show "shareToBalance plain_worker (vault_msg_of ''VAULT'' 1000) (shares sample_farm 2) (sample_farm, (200, 0, 0, 0)) = Inr 100"
    by (simp add: worker_run sample_farm_def)
  show "shares sample_closed 2 * b \<le> uint_max"
    if "w_staked plain_worker (masterChef sample_closed) (wk_pid sample_closed) (this (vault_msg_of ''VAULT'' 1000)) (100, 0, 0, 0) = Inr b"
    for b using that by (simp add: worker_run sample_closed_def)
qed (simp_all add: sample_farm_def)

lemma sample_health:
  "worker_health plain_worker (vault_msg_of ''VAULT'' 1000) 1 (sample_farm, (200, 0, 0, 0)) = Inr 9489"
  by (simp add: worker_run worker_health_def getMktSellAmount_def sample_farm_def sample_fresh_def)

theorem health_is_liquidation_value_witness:
  "\<exists>B b :: nat. b \<le> 9489 \<and> 9489 \<le> B \<and> w_getReserves plain_worker ''LP'' (200, 0, 0, 0) = Inr (B, 20000)"
  using health_is_liquidation_value [OF plain_worker_math sample_worker_reach sample_health]
  by (auto simp: Let_def sample_farm_def sample_fresh_def plain_worker_def)

theorem liquidated_position_is_gone_witness:
  "shares sample_farm 1 = 90 \<and> shares sample_closed 1 = 0"
  using liquidated_position_is_gone [OF plain_worker_math sample_worker_reach sample_worker_steps(4)]
  by (simp add: sample_farm_def)

end
