(* ===== verification/Husky_Math.thy ===== *)
theory Husky_Math
  imports Complex_Main Solidity
begin

text \<open>
  \<open>contracts/6/utils/HuskyMath.sol\<close>: the integer square root the strategies compute with.  Its
  operations are those of \<open>uint256\<close> without SafeMath: sums and shifts wrap around, division by zero is
  an invalid opcode.  The theorem at the end answers the comment \<open>Seven iterations should be enough\<close>.
\<close>

section \<open>The function\<close>

definition wrap :: "nat \<Rightarrow> nat" where "wrap n = n mod 2 ^ 256"

definition raw_div :: "nat \<Rightarrow> nat \<Rightarrow> nat result" where
  "raw_div a b = (if b = 0 then Inl (Revert ''invalid opcode'') else Inr (a div b))"

text \<open>One of the six conditional shifts: \<open>xx\<close> by \<open>2 * j\<close> bits to the right, \<open>r\<close> by \<open>j\<close> to the left.\<close>

definition sqrt_shift :: "nat \<Rightarrow> nat \<times> nat \<Rightarrow> nat \<times> nat" where
  "sqrt_shift j = (\<lambda>(xx, r). if xx \<ge> 2 ^ (2 * j) then (xx div 2 ^ (2 * j), wrap (r * 2 ^ j)) else (xx, r))"

definition sqrt_guess :: "nat \<Rightarrow> nat" where
  "sqrt_guess x =
     (let st = (x, 1);
          st = sqrt_shift 64 st;
          st = sqrt_shift 32 st;
          st = sqrt_shift 16 st;
          st = sqrt_shift 8 st;
          st = sqrt_shift 4 st;
          (xx, r) = sqrt_shift 2 st
      in if xx \<ge> 8 then wrap (r * 2) else r)"

primrec newton :: "nat \<Rightarrow> nat \<Rightarrow> nat \<Rightarrow> nat result" where
  "newton 0 x r = Inr r"
| "newton (Suc n) x r = bindE (raw_div x r) (\<lambda>q. newton n x (wrap (r + q) div 2))"

definition husky_sqrt :: "nat \<Rightarrow> nat result" where
  "husky_sqrt x = (if x = 0 then Inr 0
     else bindE (newton 7 x (sqrt_guess x)) (\<lambda>r.
          bindE (raw_div x r) (\<lambda>r1. Inr (if r < r1 then r else r1))))"

section \<open>The first guess\<close>

definition guess_inv :: "nat \<Rightarrow> nat \<Rightarrow> nat \<times> nat \<Rightarrow> bool" where
  "guess_inv x k = (\<lambda>(xx, r). r = 2 ^ k \<and> xx = x div 4 ^ k \<and> 0 < xx)"

lemma wrap_small [simp]: "n < 2 ^ 256 \<Longrightarrow> wrap n = n"
  by (simp add: wrap_def)

lemma sqrt_shift_inv:
  assumes inv: "guess_inv x k st" and small: "fst st < 2 ^ (4 * j)" and k: "k + j < 256"
  shows "\<exists>k' \<le> k + j. guess_inv x k' (sqrt_shift j st) \<and> fst (sqrt_shift j st) < 2 ^ (2 * j)"
proof -
  obtain xx r where st: "st = (xx, r)" by (cases st)
  from inv have r: "r = 2 ^ k" and xx: "xx = x div 4 ^ k" "0 < xx" by (simp_all add: guess_inv_def st)
  show ?thesis
  proof (cases "xx \<ge> 2 ^ (2 * j)")
    case True
    have "(2::nat) ^ (k + j) < 2 ^ 256" using k by (intro power_strict_increasing) simp_all
    then have w: "wrap (r * 2 ^ j) = 2 ^ (k + j)" by (simp add: r power_add)
    have "xx div 2 ^ (2 * j) = x div 4 ^ (k + j)"
      by (simp add: xx(1) div_mult2_eq power_mult power_add)
    moreover have "0 < xx div 2 ^ (2 * j)" using True by (simp add: div_greater_zero_iff)
    moreover have "xx div 2 ^ (2 * j) < 2 ^ (2 * j)"
    proof -
      have "xx < 2 ^ (2 * j) * 2 ^ (2 * j)" using small by (simp add: st power_add [symmetric])
      then show ?thesis by (simp add: less_mult_imp_div_less)
    qed
    ultimately show ?thesis using True w
      by (intro exI [of _ "k + j"]) (simp add: sqrt_shift_def st guess_inv_def)
  next
    case False
    then show ?thesis using inv by (intro exI [of _ k]) (simp add: sqrt_shift_def st)
  qed
qed

definition guess_bound :: "nat \<Rightarrow> nat \<Rightarrow> nat \<Rightarrow> nat \<times> nat \<Rightarrow> bool" where
  "guess_bound x b n st \<longleftrightarrow> (\<exists>k \<le> b. guess_inv x k st) \<and> fst st < 2 ^ n"

lemma sqrt_shift_bound:
  assumes st: "guess_bound x b (4 * j) st" and "b' = b + j" "b' < 256" "n = 2 * j"
  shows "guess_bound x b' n (sqrt_shift j st)"
proof -
  from st obtain k where k: "k \<le> b" "guess_inv x k st" "fst st < 2 ^ (4 * j)" by (auto simp: guess_bound_def)
  from sqrt_shift_inv [OF k(2,3)] k(1) assms obtain k' where "k' \<le> k + j" "guess_inv x k' (sqrt_shift j st)"
      "fst (sqrt_shift j st) < 2 ^ (2 * j)" by auto
  then show ?thesis using k(1) assms by (auto simp: guess_bound_def intro: exI [of _ k'])
qed

lemma sqrt_guess_bounds:
  assumes x: "0 < x" "x < 2 ^ 256"
  shows "0 < sqrt_guess x \<and> sqrt_guess x * sqrt_guess x \<le> x \<and> x < 8 * (sqrt_guess x * sqrt_guess x) \<and> sqrt_guess x < 2 ^ 128"
proof -
  define s1 where "s1 = sqrt_shift 64 (x, 1)"
  define s2 where "s2 = sqrt_shift 32 s1"
  define s3 where "s3 = sqrt_shift 16 s2"
  define s4 where "s4 = sqrt_shift 8 s3"
  define s5 where "s5 = sqrt_shift 4 s4"
  have "guess_bound x 0 (4 * 64) (x, 1)" using x by (auto simp: guess_bound_def guess_inv_def)
  then have "guess_bound x 64 (4 * 32) s1" unfolding s1_def by (rule sqrt_shift_bound) simp_all
  then have "guess_bound x 96 (4 * 16) s2" unfolding s2_def by (rule sqrt_shift_bound) simp_all
  then have "guess_bound x 112 (4 * 8) s3" unfolding s3_def by (rule sqrt_shift_bound) simp_all
  then have "guess_bound x 120 (4 * 4) s4" unfolding s4_def by (rule sqrt_shift_bound) simp_all
  then have "guess_bound x 124 (4 * 2) s5" unfolding s5_def by (rule sqrt_shift_bound) simp_all
  then have "guess_bound x 126 (4 * 1) (sqrt_shift 2 s5)" by (rule sqrt_shift_bound) simp_all
  then obtain k where k: "k \<le> 126" "guess_inv x k (sqrt_shift 2 s5)" "fst (sqrt_shift 2 s5) < 16"
    by (auto simp: guess_bound_def)
  obtain xx r where st: "sqrt_shift 2 s5 = (xx, r)" by fastforce
  have r: "r = 2 ^ k" and xx: "xx = x div 4 ^ k" "0 < xx" "xx < 16" using k by (simp_all add: st guess_inv_def)
  have guess: "sqrt_guess x = (if xx \<ge> 8 then wrap (r * 2) else r)"
    using st by (simp add: sqrt_guess_def Let_def s5_def s4_def s3_def s2_def s1_def)
  have low: "xx * 4 ^ k \<le> x" unfolding xx(1) by simp
  have high: "x < (xx + 1) * 4 ^ k" unfolding xx(1) using dividend_less_div_times [of "4 ^ k" x] by simp
  have kk: "(2::nat) ^ k * 2 ^ k = 4 ^ k" by (simp add: power_mult_distrib [symmetric])
  have small: "(2::nat) ^ k \<le> 2 ^ 126" using k(1) by (intro power_increasing) simp_all
  show ?thesis
  proof (cases "xx \<ge> 8")
    case True
    then have g: "sqrt_guess x = 2 * 2 ^ k" using small by (simp add: guess r mult.commute)
    have "8 * 4 ^ k \<le> xx * 4 ^ k" using True by simp
    with low have "4 * 4 ^ k \<le> x" by linarith
    moreover have "(xx + 1) * 4 ^ k \<le> 16 * 4 ^ k" using xx(3) by (intro mult_le_mono1) simp
    then have "x < 8 * (4 * 4 ^ k)" using high by linarith
    moreover have sq: "sqrt_guess x * sqrt_guess x = 4 * 4 ^ k" by (simp add: g kk [symmetric])
    moreover have "sqrt_guess x < 2 ^ 128" "0 < sqrt_guess x" using small by (simp_all add: g)
    ultimately show ?thesis by (simp only: sq simp_thms)
  next
    case False
    then have g: "sqrt_guess x = 2 ^ k" by (simp add: guess r)
    have "1 * 4 ^ k \<le> xx * 4 ^ k" using xx(2) by (intro mult_le_mono1) simp
    with low have "4 ^ k \<le> x" by linarith
    moreover have "(xx + 1) * 4 ^ k \<le> 8 * 4 ^ k" using False by (intro mult_le_mono1) simp
    then have "x < 8 * 4 ^ k" using high by linarith
    ultimately show ?thesis using small by (simp add: g kk)
  qed
qed

section \<open>Newton's iteration\<close>

text \<open>One step of the iteration never falls below the root, and shrinks its relative error.\<close>

lemma newton_lower:
  fixes x r k :: nat
  assumes "0 < r" and "k * k \<le> x"
  shows "k \<le> (r + x div r) div 2"
proof (rule ccontr)
  assume "\<not> ?thesis"
  then have "r + x div r + 1 < 2 * k + 1" by simp
  then have sum: "r + (x div r + 1) \<le> 2 * k" by simp
  have "x < (x div r + 1) * r" using dividend_less_div_times [OF assms(1), of x] by simp
  moreover have "4 * ((x div r + 1) * r) \<le> (r + (x div r + 1)) * (r + (x div r + 1))"
  proof -
    have "4 * (a * b) \<le> (b + a) * (b + a)" for a b :: nat
    proof -
      have "0 \<le> (int a - int b) * (int a - int b)" by simp
      then have "int (4 * (a * b)) \<le> int ((b + a) * (b + a))" by (simp add: algebra_simps)
      then show ?thesis by (simp only: of_nat_le_iff)
    qed
    then show ?thesis .
  qed
  moreover have "(r + (x div r + 1)) * (r + (x div r + 1)) \<le> (2 * k) * (2 * k)" using sum by (rule mult_le_mono) (rule sum)
  ultimately show False using assms(2) by simp
qed

lemma real_div_le: "real (n div d) \<le> real n / real d"
proof (cases "d = 0")
  case False
  have "real (n div d * d) \<le> real n" by (simp only: of_nat_le_iff div_times_less_eq_dividend)
  then show ?thesis using False by (simp add: le_divide_eq)
qed simp

lemma newton_upper:
  fixes x r :: nat
  assumes "0 < r"
  shows "real ((r + x div r) div 2) \<le> (real r + real x / real r) / 2"
proof -
  have "real ((r + x div r) div 2) \<le> real (r + x div r) / 2" using real_div_le [of "r + x div r" 2] by simp
  also have "real (r + x div r) \<le> real r + real x / real r" using real_div_le [of x r] by simp
  finally show ?thesis by simp
qed

lemma newton_error:
  fixes r s e :: real
  assumes s: "1 \<le> s" and r: "1 \<le> r" "s - 1 < r" "r \<le> s + max (s * e) (1 / 2)" and e: "0 \<le> e" "e * e \<le> e' * (2 * (1 + e))"
  shows "(r + s * s / r) / 2 \<le> s + max (s * e') (1 / 2)"
proof -
  have eq: "(r + s * s / r) / 2 = s + (r - s) * (r - s) / (2 * r)" using r(1) by (simp add: field_simps)
  have half: "(r - s) * (r - s) / (2 * r) \<le> 1 / 2" if "\<bar>r - s\<bar> \<le> 1"
  proof -
    have "(r - s) * (r - s) \<le> 1 * 1" using that by (metis abs_ge_zero abs_mult_self_eq mult_mono zero_le_one)
    then show ?thesis using r(1) by (simp add: divide_le_eq)
  qed
  show ?thesis
  proof (cases "\<bar>r - s\<bar> \<le> 1")
    case True
    then show ?thesis using half unfolding eq by simp
  next
    case False
    then have d: "0 \<le> r - s" "r - s \<le> s * e" using r(2,3) by auto
    have "(r - s) * (r - s) \<le> (s * e) * (s * e)" using d by (intro mult_mono) simp_all
    moreover have "(r - s) * (r - s) * e \<le> (s * e) * (r - s) * e" using d e(1) by (intro mult_right_mono) simp_all
    ultimately have "(r - s) * (r - s) * (1 + e) \<le> s * (e * e) * r" by (simp add: algebra_simps)
    also have "\<dots> \<le> s * (e' * (2 * (1 + e))) * r" using s r(1) e(2) by (intro mult_right_mono mult_left_mono) simp_all
    also have "\<dots> = s * e' * (2 * r) * (1 + e)" by simp
    finally have "(r - s) * (r - s) \<le> s * e' * (2 * r)" using e(1) by (simp add: mult_le_cancel_right)
    then have "(r - s) * (r - s) / (2 * r) \<le> s * e'" using r(1) by (simp add: divide_le_eq)
    then show ?thesis unfolding eq by simp
  qed
qed

lemma newton_numbers:
  "100 * c \<le> 283 * a \<Longrightarrow> 100 * b + 283 * a \<le> 383 * c \<Longrightarrow> 0 \<le> a \<Longrightarrow> a + b \<le> 3.184 * c" for a b c :: real
  by simp

lemma newton_first:
  fixes r s :: real
  assumes "0 < r" "r \<le> s" "s * s < 8 * (r * r)"
  shows "(r + s * s / r) / 2 \<le> s + s * (592 / 1000)"
proof -
  have less: "s < 2.83 * r"
  proof (rule ccontr)
    assume "\<not> ?thesis"
    then have "(2.83 * r) * (2.83 * r) \<le> s * s" using assms(1,2) by (intro mult_mono) simp_all
    moreover have "0 < r * r" using assms(1) by simp
    ultimately show False using assms(3) by simp
  qed
  have "100 * (s * r) \<le> 283 * (r * r)" using mult_right_mono [OF less_imp_le [OF less], of r] assms(1) by simp
  moreover have "0 \<le> (s - r) * (283 * r - 100 * s)"
    using less assms(1,2) by (intro mult_nonneg_nonneg) simp_all
  then have "100 * (s * s) + 283 * (r * r) \<le> 383 * (s * r)" by (simp add: algebra_simps)
  ultimately have "r * r + s * s \<le> 3.184 * (s * r)" by (rule newton_numbers) simp
  then show ?thesis using assms(1) by (simp add: field_simps)
qed

section \<open>Seven iterations are enough\<close>

definition nstep :: "nat \<Rightarrow> nat \<Rightarrow> nat" where
  "nstep x r = (r + x div r) div 2"

lemma newton_nstep:
  "0 < r \<Longrightarrow> r + x div r < 2 ^ 256 \<Longrightarrow> newton (Suc n) x r = newton n x (nstep x r)"
  by (simp add: raw_div_def nstep_def)

text \<open>\<open>r\<close> is not below the root of \<open>x\<close>, and above it by at most the part \<open>e\<close> of it, or by a half.\<close>

definition near :: "nat \<Rightarrow> real \<Rightarrow> nat \<Rightarrow> bool" where
  "near x e r \<longleftrightarrow> 0 < r \<and> (\<forall>k. k * k \<le> x \<longrightarrow> k \<le> r) \<and>
     real r \<le> sqrt (real x) + max (sqrt (real x) * e) (1 / 2)"

lemma root_facts:
  fixes x :: nat
  assumes "0 < x" "x < 2 ^ 256"
  shows "1 \<le> sqrt (real x)" "sqrt (real x) * sqrt (real x) = real x" "sqrt (real x) \<le> 2 ^ 128"
proof -
  have "real x \<le> (2 ^ 128)\<^sup>2" using assms(2) by (simp add: less_imp_le)
  then show "sqrt (real x) \<le> 2 ^ 128" by (intro real_le_lsqrt) simp_all
qed (use assms in simp_all)

lemma near_step:
  assumes x: "0 < x" "x < 2 ^ 256" and near: "near x e r" and e: "0 \<le> e" "e \<le> 1" "e * e \<le> e' * (2 * (1 + e))"
  shows "newton (Suc n) x r = newton n x (nstep x r) \<and> near x e' (nstep x r)"
proof -
  let ?s = "sqrt (real x)"
  note s = root_facts [OF x]
  from near have r: "0 < r" "\<And>k. k * k \<le> x \<Longrightarrow> k \<le> r" "real r \<le> ?s + max (?s * e) (1 / 2)"
    by (simp_all add: near_def)
  have square: "x < (r + 1) * (r + 1)"
  proof (rule ccontr)
    assume "\<not> ?thesis"
    then have "r + 1 \<le> r" by (intro r(2)) simp
    then show False by simp
  qed
  have "(r + 1) * (r + 1) \<le> (2 * r) * (2 * r)" using r(1) by (intro mult_le_mono) simp_all
  then have "x div r \<le> 4 * r" using square by (metis (no_types, lifting) less_imp_le less_le_trans div_le_mono mult.assoc mult.left_commute mult_2 nonzero_mult_div_cancel_right not_less_iff_gr_or_eq numeral_Bit0_eq_double r(1))
  moreover have "?s * e \<le> ?s * 1" using s(1) e(2) by (intro mult_left_mono) simp_all
  then have "max (?s * e) (1 / 2) \<le> ?s" by (intro max.boundedI) (use s(1) in linarith)+
  then have "real r \<le> 2 ^ 128 + 2 ^ 128" using r(3) s(3) by linarith
  then have "real r \<le> real (2 ^ 129)" by simp
  then have "r \<le> 2 ^ 129" by (simp only: of_nat_le_iff)
  ultimately have small: "r + x div r < 2 ^ 256" by simp
  have "?s < real r + 1"
  proof (rule ccontr)
    assume "\<not> ?thesis"
    then have "(real r + 1) * (real r + 1) \<le> ?s * ?s" by (intro mult_mono) simp_all
    then have "real ((r + 1) * (r + 1)) \<le> real x" using s(2) by (simp add: algebra_simps)
    with square show False by (simp only: of_nat_le_iff)
  qed
  then have "(real r + ?s * ?s / real r) / 2 \<le> ?s + max (?s * e') (1 / 2)"
    using r(1,3) by (intro newton_error [OF s(1) _ _ _ e(1,3)]) simp_all
  then have "real (nstep x r) \<le> ?s + max (?s * e') (1 / 2)"
    using newton_upper [OF r(1), of x] s(2) by (simp add: nstep_def)
  moreover have "k \<le> nstep x r" if "k * k \<le> x" for k
    unfolding nstep_def by (rule newton_lower [OF r(1) that])
  moreover from this [of 1] x have "0 < nstep x r" by simp
  ultimately show ?thesis using newton_nstep [OF r(1) small] by (simp add: near_def)
qed

lemma near_first:
  assumes x: "0 < x" "x < 2 ^ 256"
  shows "newton (Suc n) x (sqrt_guess x) = newton n x (nstep x (sqrt_guess x)) \<and> near x (592 / 1000) (nstep x (sqrt_guess x))"
proof -
  let ?s = "sqrt (real x)" and ?r = "sqrt_guess x"
  note s = root_facts [OF x]
  from sqrt_guess_bounds [OF x] have r: "0 < ?r" "?r * ?r \<le> x" "x < 8 * (?r * ?r)" "?r < 2 ^ 128" by simp_all
  have "x div ?r \<le> 8 * ?r"
    using r(1,3) by (intro less_imp_le less_mult_imp_div_less) (simp add: mult.assoc)
  then have small: "?r + x div ?r < 2 ^ 256" using r(4) by simp
  have "real (?r * ?r) \<le> real x" using r(2) by (simp only: of_nat_le_iff)
  then have "real ?r \<le> ?s" by (intro real_le_rsqrt) (simp add: power2_eq_square)
  moreover have "real x < real (8 * (?r * ?r))" using r(3) by (simp only: of_nat_less_iff)
  ultimately have "(real ?r + ?s * ?s / real ?r) / 2 \<le> ?s + ?s * (592 / 1000)"
    using r(1) s(2) by (intro newton_first) simp_all
  moreover have "real (nstep x ?r) \<le> (real ?r + ?s * ?s / real ?r) / 2"
    using newton_upper [OF r(1), of x] by (simp add: nstep_def s(2))
  ultimately have "real (nstep x ?r) \<le> ?s + ?s * (592 / 1000)" by (rule order_trans [rotated])
  moreover have "?s * (592 / 1000) \<le> max (?s * (592 / 1000)) (1 / 2)" by (rule max.cobounded1)
  ultimately have "real (nstep x ?r) \<le> ?s + max (?s * (592 / 1000)) (1 / 2)" by linarith
  moreover have "k \<le> nstep x ?r" if "k * k \<le> x" for k
    unfolding nstep_def by (rule newton_lower [OF r(1) that])
  moreover from this [of 1] x have "0 < nstep x ?r" by simp
  ultimately show ?thesis using newton_nstep [OF r(1) small] by (simp add: near_def)
qed

lemma newton_seven:
  assumes x: "0 < x" "x < 2 ^ 256"
  shows "\<exists>r. newton 7 x (sqrt_guess x) = Inr r \<and> near x (2 / 10 ^ 41) r"
proof -
  note step = near_step [OF x]
  have n1: "newton 7 x (sqrt_guess x) = newton 6 x (nstep x (sqrt_guess x))" "near x (592 / 1000) (nstep x (sqrt_guess x))"
    using near_first [OF x, of 6] by simp_all
  define r1 where "r1 = nstep x (sqrt_guess x)"
  define r2 where "r2 = nstep x r1"
  define r3 where "r3 = nstep x r2"
  define r4 where "r4 = nstep x r3"
  define r5 where "r5 = nstep x r4"
  define r6 where "r6 = nstep x r5"
  have 2: "newton (Suc 5) x r1 = newton 5 x r2 \<and> near x (1102 / 10 ^ 4) r2"
    unfolding r2_def by (rule step [OF n1(2) [folded r1_def]]) simp_all
  then have 3: "newton (Suc 4) x r2 = newton 4 x r3 \<and> near x (547 / 10 ^ 5) r3"
    unfolding r3_def by (intro step [of "1102 / 10 ^ 4"]) simp_all
  then have 4: "newton (Suc 3) x r3 = newton 3 x r4 \<and> near x (149 / 10 ^ 7) r4"
    unfolding r4_def by (intro step [of "547 / 10 ^ 5"]) simp_all
  then have 5: "newton (Suc 2) x r4 = newton 2 x r5 \<and> near x (112 / 10 ^ 12) r5"
    unfolding r5_def by (intro step [of "149 / 10 ^ 7"]) simp_all
  then have 6: "newton (Suc 1) x r5 = newton 1 x r6 \<and> near x (63 / 10 ^ 22) r6"
    unfolding r6_def by (intro step [of "112 / 10 ^ 12"]) simp_all
  then have 7: "newton (Suc 0) x r6 = newton 0 x (nstep x r6) \<and> near x (2 / 10 ^ 41) (nstep x r6)"
    by (intro step [of "63 / 10 ^ 22"]) simp_all
  have "newton 7 x (sqrt_guess x) = newton 6 x r1" using n1(1) by (simp add: r1_def)
  also have "\<dots> = newton 5 x r2" using 2 by (simp del: newton.simps)
  also have "\<dots> = newton 4 x r3" using 3 by (simp del: newton.simps)
  also have "\<dots> = newton 3 x r4" using 4 by (simp del: newton.simps)
  also have "\<dots> = newton 2 x r5" using 5 by (simp del: newton.simps)
  also have "\<dots> = newton 1 x r6" using 6 by (simp add: numeral_2_eq_2 del: newton.simps)
  also have "\<dots> = newton 0 x (nstep x r6)" using 7 by (simp del: newton.simps)
  finally have "newton 7 x (sqrt_guess x) = newton 0 x (nstep x r6)" .
  then show ?thesis using 7 by (intro exI [of _ "nstep x r6"]) simp
qed

lemma floor_root: "\<exists>k. k * k \<le> x \<and> x < (k + 1) * (k + 1)" for x :: nat
proof (induction x)
  case (Suc x)
  then obtain k where k: "k * k \<le> x" "x < (k + 1) * (k + 1)" by blast
  show ?case
  proof (cases "Suc x = (k + 1) * (k + 1)")
    case True
    then show ?thesis by (intro exI [of _ "k + 1"]) simp
  next
    case False
    then show ?thesis using k by (intro exI [of _ k]) simp
  qed
qed simp

lemma near_root:
  assumes x: "0 < x" "x < 2 ^ 256" and near: "near x (2 / 10 ^ 41) r"
    and k: "k * k \<le> x" "x < (k + 1) * (k + 1)"
  shows "r = k \<or> r = k + 1 \<and> k * (k + 1) \<le> x"
proof -
  let ?s = "sqrt (real x)"
  note s = root_facts [OF x]
  have "?s * (2 / 10 ^ 41) \<le> 2 ^ 128 * (2 / 10 ^ 41)" using s(3) by (intro mult_right_mono) simp_all
  also have "\<dots> \<le> 1 / 2" by simp
  finally have half: "real r \<le> ?s + 1 / 2" using near by (simp add: near_def)
  have ge: "k \<le> r" using near k(1) by (simp add: near_def)
  have "?s < real k + 1"
  proof (rule ccontr)
    assume "\<not> ?thesis"
    then have "(real k + 1) * (real k + 1) \<le> ?s * ?s" by (intro mult_mono) simp_all
    then have "real ((k + 1) * (k + 1)) \<le> real x" using s(2) by (simp add: algebra_simps)
    with k(2) show False by (simp only: of_nat_le_iff)
  qed
  then have "real r < real (k + 2)" using half by simp
  then have le: "r < k + 2" by (simp only: of_nat_less_iff)
  have "k * (k + 1) \<le> x" if "r = k + 1"
  proof -
    have "real k + 1 / 2 \<le> ?s" using half that by simp
    then have "(real k + 1 / 2) * (real k + 1 / 2) \<le> ?s * ?s" by (intro mult_mono) simp_all
    then have "real (k * (k + 1)) \<le> real x" using s(2) by (simp add: algebra_simps)
    then show ?thesis by (simp only: of_nat_le_iff)
  qed
  then show ?thesis using ge le by auto
qed

lemma husky_root:
  assumes "x \<le> uint_max"
  shows "\<exists>r. husky_sqrt x = Inr r \<and> r * r \<le> x \<and> x < (r + 1) * (r + 1)"
proof (cases "x = 0")
  case True
  then show ?thesis by (simp add: husky_sqrt_def)
next
  case False
  then have x: "0 < x" "x < 2 ^ 256" using assms by (simp_all add: uint_max_def)
  from floor_root obtain k where k: "k * k \<le> x" "x < (k + 1) * (k + 1)" by blast
  from newton_seven [OF x] obtain r where r: "newton 7 x (sqrt_guess x) = Inr r" "near x (2 / 10 ^ 41) r" by blast
  have pos: "0 < r" using r(2) by (simp add: near_def)
  have "(if r < x div r then r else x div r) = k"
    using near_root [OF x r(2) k]
  proof
    assume eq: "r = k"
    have "k * k div k \<le> x div k" using k(1) by (rule div_le_mono)
    then show ?thesis using pos by (simp add: eq)
  next
    assume eq: "r = k + 1 \<and> k * (k + 1) \<le> x"
    then have "k * (k + 1) div (k + 1) \<le> x div (k + 1)" by (intro div_le_mono) simp
    moreover have "x div (k + 1) < k + 1" using k(2) by (simp only: less_mult_imp_div_less)
    moreover have "k * (k + 1) div (k + 1) = k" by (rule nonzero_mult_div_cancel_right) simp
    ultimately have "x div (k + 1) = k" by linarith
    then show ?thesis using eq by simp
  qed
  then have "husky_sqrt x = Inr k" using False r(1) pos by (simp add: husky_sqrt_def raw_div_def)
  then show ?thesis using k by blast
qed

text \<open>
  C22: The seven iterations of \<open>HuskyMath.sqrt\<close> are enough: for every \<open>uint256\<close> it returns, without a
  division by zero or an overflow, the integer square root, the largest number whose square is
  not above the argument.
\<close>

theorem husky_sqrt_is_floor:
  assumes "x \<le> uint_max"
  shows "\<exists>r. husky_sqrt x = Inr r \<and> r * r \<le> x \<and> x < (r + 1) * (r + 1)"
  using assms by (rule husky_root)

theorem husky_sqrt_is_floor_witness:
  "\<exists>r. husky_sqrt uint_max = Inr r \<and> r * r \<le> uint_max \<and> uint_max < (r + 1) * (r + 1)"
  using husky_sqrt_is_floor [of uint_max] by simp

end

