(* ===== verification/Strategy_Contract.thy ===== *)
theory Strategy_Contract
  imports Husky_Math Worker_Contract
begin

text \<open>
  The six strategies of \<open>contracts/6/protocol/strategies/pancakeswapV2\<close>.  A worker sends a strategy its
  LP and base tokens and calls \<open>execute\<close>; the strategy trades them through the router and sends back what the
  worker expects.  A strategy keeps no balance of its own; its state is its configuration.  The router, factory, pairs,
  tokens, worker, vault and relayer, and OpenZeppelin's libraries, are the fields of \<open>strategy_ext\<close>.
\<close>

section \<open>State\<close>

record strategy =
  sg_factory :: address
  sg_router :: address
  sg_vault :: address
  wbnb :: address
  wNativeRelayer :: address
  okWorkers :: "address \<Rightarrow> bool"

record 'x strategy_ext =
  s_math :: safe_math
  s_isOwner :: "address \<Rightarrow> 'x \<Rightarrow> bool"
  s_routerFactory :: "address \<Rightarrow> 'x \<Rightarrow> address result"
  s_decode1 :: "call_data \<Rightarrow> nat result"
  s_decode2 :: "call_data \<Rightarrow> (nat \<times> nat) result"
  s_decode3 :: "call_data \<Rightarrow> (nat \<times> nat \<times> nat) result"
  s_baseToken :: "address \<Rightarrow> 'x \<Rightarrow> address result"
  s_farmingToken :: "address \<Rightarrow> 'x \<Rightarrow> address result"
  s_getPair :: "address \<Rightarrow> address \<Rightarrow> address \<Rightarrow> 'x \<Rightarrow> address result"
  s_balanceOf :: "address \<Rightarrow> address \<Rightarrow> 'x \<Rightarrow> nat result"
  s_getReserves :: "address \<Rightarrow> 'x \<Rightarrow> (nat \<times> nat) result"
  s_token0 :: "address \<Rightarrow> 'x \<Rightarrow> address result"
  s_approve :: "address \<Rightarrow> address \<Rightarrow> nat \<Rightarrow> 'x \<Rightarrow> (bool \<times> 'x) result"
  s_safeApprove :: "address \<Rightarrow> address \<Rightarrow> nat \<Rightarrow> 'x \<Rightarrow> 'x result"
  s_transfer :: "address \<Rightarrow> address \<Rightarrow> nat \<Rightarrow> 'x \<Rightarrow> (bool \<times> 'x) result"
  s_safeTransfer :: "address \<Rightarrow> address \<Rightarrow> nat \<Rightarrow> 'x \<Rightarrow> 'x result"
  s_safeTransferETH :: "address \<Rightarrow> nat \<Rightarrow> 'x \<Rightarrow> 'x result"
  s_relay :: "address \<Rightarrow> nat \<Rightarrow> 'x \<Rightarrow> 'x result"
  s_swapExact :: "address \<Rightarrow> nat \<Rightarrow> nat \<Rightarrow> address list \<Rightarrow> address \<Rightarrow> nat \<Rightarrow> 'x \<Rightarrow> 'x result"
  s_swapForExact :: "address \<Rightarrow> nat \<Rightarrow> nat \<Rightarrow> address list \<Rightarrow> address \<Rightarrow> nat \<Rightarrow> 'x \<Rightarrow> 'x result"
  s_addLiquidity :: "address \<Rightarrow> address \<Rightarrow> address \<Rightarrow> nat \<Rightarrow> nat \<Rightarrow> nat \<Rightarrow> nat \<Rightarrow> address \<Rightarrow> nat \<Rightarrow> 'x \<Rightarrow> (nat \<times> 'x) result"
  s_removeLiquidity :: "address \<Rightarrow> address \<Rightarrow> address \<Rightarrow> nat \<Rightarrow> nat \<Rightarrow> nat \<Rightarrow> address \<Rightarrow> nat \<Rightarrow> 'x \<Rightarrow> 'x result"
  s_requestFunds :: "address \<Rightarrow> address \<Rightarrow> nat \<Rightarrow> 'x \<Rightarrow> 'x result"
  s_injectSerialCode :: "address \<Rightarrow> nat \<Rightarrow> 'x \<Rightarrow> 'x result"

text \<open>What the \<open>initialize\<close> functions set; those without a vault or a relayer leave the zero address there.\<close>

definition strategy_initialize :: "'x strategy_ext \<Rightarrow> address \<Rightarrow> 'x \<Rightarrow> strategy result" where
  "strategy_initialize X rt x = bindE (s_routerFactory X rt x) (\<lambda>fac.
     Inr \<lparr>sg_factory = fac, sg_router = rt, sg_vault = zero_address, wbnb = zero_address, wNativeRelayer = zero_address,
       okWorkers = (\<lambda>_. False)\<rparr>)"

definition twosides_initialize :: "'x strategy_ext \<Rightarrow> address \<Rightarrow> address \<Rightarrow> 'x \<Rightarrow> strategy result" where
  "twosides_initialize X rt va x = bindE (strategy_initialize X rt x) (\<lambda>s. Inr (s\<lparr>sg_vault := va\<rparr>))"

definition minimize_initialize :: "'x strategy_ext \<Rightarrow> address \<Rightarrow> address \<Rightarrow> address \<Rightarrow> 'x \<Rightarrow> strategy result" where
  "minimize_initialize X rt w rel x = bindE (strategy_initialize X rt x) (\<lambda>s. Inr (s\<lparr>wbnb := w, wNativeRelayer := rel\<rparr>))"

definition strategy_setWorkersOk :: "'x strategy_ext \<Rightarrow> vault_msg \<Rightarrow> address list \<Rightarrow> bool \<Rightarrow> 'x \<Rightarrow> strategy \<Rightarrow> strategy result" where
  "strategy_setWorkersOk X m ws isOk x s =
     bindE (require (s_isOwner X (sender m) x) ''Ownable: caller is not the owner'') (\<lambda>_.
     Inr (s\<lparr>okWorkers := fold (\<lambda>w f. f(w := isOk)) ws (okWorkers s)\<rparr>))"

text \<open>The tokens of the calling worker, and their pair.\<close>

definition strategy_tokens :: "'x strategy_ext \<Rightarrow> strategy \<Rightarrow> vault_msg \<Rightarrow> 'x \<Rightarrow> (address \<times> address \<times> address) result" where
  "strategy_tokens X s m x =
     bindE (s_baseToken X (sender m) x) (\<lambda>base.
     bindE (s_farmingToken X (sender m) x) (\<lambda>farming.
     bindE (s_getPair X (sg_factory s) farming base x) (\<lambda>lp. Inr (base, farming, lp))))"

section \<open>Adding base tokens\<close>

definition base_only_amount :: "safe_math \<Rightarrow> nat \<Rightarrow> nat \<Rightarrow> nat result" where
  "base_only_amount M rIn balance =
     bindE (sm_mul M balance 399000000) (\<lambda>p.
     bindE (sm_mul M rIn 399000625) (\<lambda>q.
     bindE (sm_add M p q) (\<lambda>sum.
     bindE (sm_mul M rIn sum) (\<lambda>radicand.
     bindE (husky_sqrt radicand) (\<lambda>root.
     bindE (sm_mul M rIn 19975) (\<lambda>b.
     bindE (sm_sub M root b) (\<lambda>n. Inr (n div 19950))))))))"

definition add_base_execute :: "'x strategy_ext \<Rightarrow> strategy \<Rightarrow> vault_msg \<Rightarrow> address \<Rightarrow> nat \<Rightarrow> call_data \<Rightarrow> 'x \<Rightarrow> 'x result" where
  "add_base_execute X s m user debt data x = (let me = this m; rt = sg_router s; t = block_timestamp m in
     bindE (require (okWorkers s (sender m)) ''PancakeswapV2AddBaseTokenOnly::onlyWhitelistedWorkers: bad worker'') (\<lambda>_.
     bindE (s_decode1 X data) (\<lambda>minLPAmount.
     bindE (strategy_tokens X s m x) (\<lambda>(base, farming, lp).
     bindE (s_safeApprove X base rt uint_max x) (\<lambda>x.
     bindE (s_safeApprove X farming rt uint_max x) (\<lambda>x.
     bindE (s_balanceOf X base me x) (\<lambda>balance.
     bindE (s_getReserves X lp x) (\<lambda>(r0, r1).
     bindE (s_token0 X lp x) (\<lambda>t0. let rIn = (if t0 = base then r0 else r1) in
     bindE (base_only_amount (s_math X) rIn balance) (\<lambda>aIn.
     bindE (s_swapExact X rt aIn 0 [base, farming] me t x) (\<lambda>x.
     bindE (s_balanceOf X base me x) (\<lambda>b.
     bindE (s_balanceOf X farming me x) (\<lambda>f.
     bindE (s_addLiquidity X rt base farming b f 0 0 me t x) (\<lambda>(moreLPAmount, x).
     bindE (require (moreLPAmount \<ge> minLPAmount) ''PancakeswapV2AddBaseTokenOnly::execute: insufficient LP tokens received'') (\<lambda>_.
     bindE (s_balanceOf X lp me x) (\<lambda>n.
     bindE (s_transfer X lp (sender m) n x) (\<lambda>(sent, x).
     bindE (require sent ''PancakeswapV2AddBaseTokenOnly::execute: failed to transfer LP token to msg.sender'') (\<lambda>_.
     bindE (s_safeApprove X base rt 0 x) (\<lambda>x. s_safeApprove X farming rt 0 x)))))))))))))))))))"

section \<open>Adding both tokens\<close>

definition optimalDepositA :: "safe_math \<Rightarrow> nat \<Rightarrow> nat \<Rightarrow> nat \<Rightarrow> nat \<Rightarrow> nat result" where
  "optimalDepositA M amtA amtB resA resB =
     bindE (sm_mul M amtA resB) (\<lambda>l.
     bindE (sm_mul M amtB resA) (\<lambda>r.
     bindE (require (l \<ge> r) ''Reversed'') (\<lambda>_. let a = 9975 in
     bindE (sm_mul M 19975 resA) (\<lambda>b.
     bindE (sm_sub M l r) (\<lambda>c0.
     bindE (bindE (bindE (sm_mul M c0 10000) (\<lambda>p. bindE (sm_add M amtB resB) (\<lambda>q. sm_div M p q))) (\<lambda>p. sm_mul M p resA)) (\<lambda>c.
     bindE (bindE (sm_mul M a c) (\<lambda>p. sm_mul M p 4)) (\<lambda>d.
     bindE (bindE (bindE (sm_mul M b b) (\<lambda>p. sm_add M p d)) husky_sqrt) (\<lambda>e.
     bindE (sm_sub M e b) (\<lambda>numerator.
     bindE (sm_mul M a 2) (\<lambda>denominator. sm_div M numerator denominator))))))))))"

definition optimalDeposit :: "safe_math \<Rightarrow> nat \<Rightarrow> nat \<Rightarrow> nat \<Rightarrow> nat \<Rightarrow> (nat \<times> bool) result" where
  "optimalDeposit M amtA amtB resA resB =
     bindE (sm_mul M amtA resB) (\<lambda>l.
     bindE (sm_mul M amtB resA) (\<lambda>r.
     if l \<ge> r then bindE (optimalDepositA M amtA amtB resA resB) (\<lambda>n. Inr (n, False))
     else bindE (optimalDepositA M amtB amtA resB resA) (\<lambda>n. Inr (n, True))))"

definition two_sides_execute :: "'x strategy_ext \<Rightarrow> strategy \<Rightarrow> vault_msg \<Rightarrow> address \<Rightarrow> nat \<Rightarrow> call_data \<Rightarrow> 'x \<Rightarrow> 'x result" where
  "two_sides_execute X s m user debt data x = (let me = this m; rt = sg_router s; t = block_timestamp m in
     bindE (require (okWorkers s (sender m)) ''PancakeswapV2AddTwoSidesOptimal::onlyWhitelistedWorkers: bad worker'') (\<lambda>_.
     bindE (s_decode3 X data) (\<lambda>(farmingTokenAmount, minLPAmount, serial).
     bindE (strategy_tokens X s m x) (\<lambda>(base, farming, lp).
     bindE (s_safeApprove X base rt uint_max x) (\<lambda>x.
     bindE (s_safeApprove X farming rt uint_max x) (\<lambda>x.
     bindE (s_requestFunds X (sg_vault s) farming farmingTokenAmount x) (\<lambda>x.
     bindE (s_injectSerialCode X (sg_vault s) serial x) (\<lambda>x.
     bindE (s_balanceOf X base me x) (\<lambda>baseBalance.
     bindE (s_getReserves X lp x) (\<lambda>(r0, r1).
     bindE (s_token0 X lp x) (\<lambda>t0.
     let (baseReserve, farmingReserve) = (if t0 = base then (r0, r1) else (r1, r0)) in
     bindE (s_balanceOf X farming me x) (\<lambda>farmingBalance.
     bindE (optimalDeposit (s_math X) baseBalance farmingBalance baseReserve farmingReserve) (\<lambda>(swapAmt, isReversed).
     let path = (if isReversed then [farming, base] else [base, farming]) in
     bindE (if swapAmt > 0 then s_swapExact X rt swapAmt 0 path me t x else Inr x) (\<lambda>x.
     bindE (s_balanceOf X base me x) (\<lambda>b.
     bindE (s_balanceOf X farming me x) (\<lambda>f.
     bindE (s_addLiquidity X rt base farming b f 0 0 me t x) (\<lambda>(moreLPAmount, x).
     bindE (require (moreLPAmount \<ge> minLPAmount) ''PancakeswapV2AddTwoSidesOptimal::execute: insufficient LP tokens received'') (\<lambda>_.
     bindE (s_balanceOf X lp me x) (\<lambda>n.
     bindE (s_transfer X lp (sender m) n x) (\<lambda>(sent, x).
     bindE (require sent ''PancakeswapV2AddTwoSidesOptimal::execute: failed to transfer LP token to msg.sender'') (\<lambda>_.
     bindE (s_safeApprove X farming rt 0 x) (\<lambda>x. s_safeApprove X base rt 0 x))))))))))))))))))))))"

section \<open>Liquidating\<close>

definition liquidate_execute :: "'x strategy_ext \<Rightarrow> strategy \<Rightarrow> vault_msg \<Rightarrow> address \<Rightarrow> nat \<Rightarrow> call_data \<Rightarrow> 'x \<Rightarrow> 'x result" where
  "liquidate_execute X s m user debt data x = (let me = this m; rt = sg_router s; t = block_timestamp m in
     bindE (require (okWorkers s (sender m)) ''PancakeswapV2Liquidate::onlyWhitelistedWorkers: bad worker'') (\<lambda>_.
     bindE (s_decode1 X data) (\<lambda>minBaseToken.
     bindE (strategy_tokens X s m x) (\<lambda>(base, farming, lp).
     bindE (s_approve X lp rt uint_max x) (\<lambda>(ok, x).
     bindE (require ok ''PancakeswapV2Liquidate::execute: unable to approve LP token'') (\<lambda>_.
     bindE (s_safeApprove X farming rt uint_max x) (\<lambda>x.
     bindE (s_balanceOf X lp me x) (\<lambda>n.
     bindE (s_removeLiquidity X rt base farming n 0 0 me t x) (\<lambda>x.
     bindE (s_balanceOf X farming me x) (\<lambda>f.
     bindE (s_swapExact X rt f 0 [farming, base] me t x) (\<lambda>x.
     bindE (s_balanceOf X base me x) (\<lambda>balance.
     bindE (require (balance \<ge> minBaseToken) ''PancakeswapV2Liquidate::execute: insufficient baseToken received'') (\<lambda>_.
     bindE (s_safeTransfer X base (sender m) balance x) (\<lambda>x.
     bindE (s_approve X lp rt 0 x) (\<lambda>(ok, x).
     bindE (require ok ''PancakeswapV2Liquidate::execute: unable to reset LP token approval'') (\<lambda>_.
     s_safeApprove X farming rt 0 x))))))))))))))))"

definition partial_liquidate_execute :: "'x strategy_ext \<Rightarrow> strategy \<Rightarrow> vault_msg \<Rightarrow> address \<Rightarrow> nat \<Rightarrow> call_data \<Rightarrow> 'x \<Rightarrow> 'x result" where
  "partial_liquidate_execute X s m user debt data x = (let me = this m; rt = sg_router s; t = block_timestamp m in
     bindE (require (okWorkers s (sender m)) ''PancakeswapV2PartialCloseLiquidate::onlyWhitelistedWorkers: bad worker'') (\<lambda>_.
     bindE (s_decode2 X data) (\<lambda>(returnLpToken, minBaseToken).
     bindE (strategy_tokens X s m x) (\<lambda>(base, farming, lp).
     bindE (s_balanceOf X lp me x) (\<lambda>n.
     bindE (require (n \<ge> returnLpToken) ''PancakeswapV2PartialCloseLiquidate::execute: insufficient LP amount recevied from worker'') (\<lambda>_.
     bindE (s_approve X lp rt uint_max x) (\<lambda>(_, x).
     bindE (s_safeApprove X farming rt uint_max x) (\<lambda>x.
     bindE (s_removeLiquidity X rt base farming returnLpToken 0 0 me t x) (\<lambda>x.
     bindE (s_balanceOf X farming me x) (\<lambda>f.
     bindE (s_swapExact X rt f 0 [farming, base] me t x) (\<lambda>x.
     bindE (s_balanceOf X base me x) (\<lambda>balance.
     bindE (require (balance \<ge> minBaseToken) ''PancakeswapV2PartialCloseLiquidate::execute: insufficient baseToken received'') (\<lambda>_.
     bindE (s_safeTransfer X base (sender m) balance x) (\<lambda>x.
     bindE (s_balanceOf X lp me x) (\<lambda>rest.
     bindE (s_transfer X lp (sender m) rest x) (\<lambda>(_, x).
     bindE (s_approve X lp rt 0 x) (\<lambda>(_, x).
     s_safeApprove X farming rt 0 x)))))))))))))))))"

section \<open>Repaying the debt with as little trading as possible\<close>

text \<open>
  Buying the base tokens that a debt still needs, for at most the farming tokens held: \<open>limit\<close> is the reading of
  that balance, which one of the strategies makes only if it buys.
\<close>

definition buy_missing ::
  "'x strategy_ext \<Rightarrow> strategy \<Rightarrow> vault_msg \<Rightarrow> address \<Rightarrow> address \<Rightarrow> nat \<Rightarrow> nat \<Rightarrow> nat result \<Rightarrow> 'x \<Rightarrow> 'x result" where
  "buy_missing X s m base farming d balance limit x =
     (if d > balance
      then bindE (sm_sub (s_math X) d balance) (\<lambda>remainingDebt.
           bindE limit (\<lambda>f.
           s_swapForExact X (sg_router s) remainingDebt f [farming, base] (this m) (block_timestamp m) x))
      else Inr x)"

text \<open>The farming tokens that are left go to the user, unwrapped when they are wrapped BNB.\<close>

definition send_farming :: "'x strategy_ext \<Rightarrow> strategy \<Rightarrow> address \<Rightarrow> address \<Rightarrow> nat \<Rightarrow> 'x \<Rightarrow> 'x result" where
  "send_farming X s farming user n x =
     (if n > 0
      then if farming = wbnb s
           then bindE (s_safeTransfer X farming (wNativeRelayer s) n x) (\<lambda>x.
                bindE (s_relay X (wNativeRelayer s) n x) (\<lambda>x. s_safeTransferETH X user n x))
           else s_safeTransfer X farming user n x
      else Inr x)"

definition withdraw_minimize_execute :: "'x strategy_ext \<Rightarrow> strategy \<Rightarrow> vault_msg \<Rightarrow> address \<Rightarrow> nat \<Rightarrow> call_data \<Rightarrow> 'x \<Rightarrow> 'x result" where
  "withdraw_minimize_execute X s m user debt data x = (let me = this m; rt = sg_router s; t = block_timestamp m in
     bindE (require (okWorkers s (sender m)) ''PancakeswapV2WithdrawMinimizeTrading::onlyWhitelistedWorkers: bad worker'') (\<lambda>_.
     bindE (s_decode1 X data) (\<lambda>minFarmingToken.
     bindE (strategy_tokens X s m x) (\<lambda>(base, farming, lp).
     bindE (s_approve X lp rt uint_max x) (\<lambda>(ok, x).
     bindE (require ok ''PancakeswapV2WithdrawMinimizeTrading::execute: failed to approve LP token'') (\<lambda>_.
     bindE (s_safeApprove X farming rt uint_max x) (\<lambda>x.
     bindE (s_balanceOf X lp me x) (\<lambda>n.
     bindE (s_removeLiquidity X rt base farming n 0 0 me t x) (\<lambda>x.
     bindE (s_balanceOf X base me x) (\<lambda>balance.
     bindE (buy_missing X s m base farming debt balance (s_balanceOf X farming me x) x) (\<lambda>x.
     bindE (s_balanceOf X base me x) (\<lambda>remainingBalance.
     bindE (s_safeTransfer X base (sender m) remainingBalance x) (\<lambda>x.
     bindE (s_balanceOf X farming me x) (\<lambda>remaining.
     bindE (require (remaining \<ge> minFarmingToken)
       ''PancakeswapV2WithdrawMinimizeTrading::execute: insufficient farming tokens received'') (\<lambda>_.
     bindE (send_farming X s farming user remaining x) (\<lambda>x.
     bindE (s_approve X lp rt 0 x) (\<lambda>(ok, x).
     bindE (require ok ''PancakeswapV2WithdrawMinimizeTrading::execute: unable to reset lp token approval'') (\<lambda>_.
     s_safeApprove X farming rt 0 x))))))))))))))))))"

definition partial_minimize_execute :: "'x strategy_ext \<Rightarrow> strategy \<Rightarrow> vault_msg \<Rightarrow> address \<Rightarrow> nat \<Rightarrow> call_data \<Rightarrow> 'x \<Rightarrow> 'x result" where
  "partial_minimize_execute X s m user debt data x = (let me = this m; rt = sg_router s; t = block_timestamp m in
     bindE (require (okWorkers s (sender m)) ''PancakeswapV2PartialCloseMinimizeTrading::onlyWhitelistedWorkers:: bad worker'') (\<lambda>_.
     bindE (s_decode3 X data) (\<lambda>(maxLpTokenToLiquidate, maxDebtRepayment, minFarmingToken).
     bindE (strategy_tokens X s m x) (\<lambda>(base, farming, lp). let lessDebt = min debt maxDebtRepayment in
     bindE (s_balanceOf X lp me x) (\<lambda>n. let lpTokenToLiquidate = min n maxLpTokenToLiquidate in
     bindE (s_safeApprove X lp rt uint_max x) (\<lambda>x.
     bindE (s_safeApprove X farming rt uint_max x) (\<lambda>x.
     bindE (s_removeLiquidity X rt base farming lpTokenToLiquidate 0 0 me t x) (\<lambda>x.
     bindE (s_balanceOf X base me x) (\<lambda>balance.
     bindE (s_balanceOf X farming me x) (\<lambda>f.
     bindE (buy_missing X s m base farming lessDebt balance (Inr f) x) (\<lambda>x.
     bindE (s_balanceOf X lp me x) (\<lambda>rest.
     bindE (s_safeTransfer X lp (sender m) rest x) (\<lambda>x.
     bindE (s_balanceOf X base me x) (\<lambda>b.
     bindE (s_safeTransfer X base (sender m) b x) (\<lambda>x.
     bindE (s_balanceOf X farming me x) (\<lambda>remaining.
     bindE (require (remaining \<ge> minFarmingToken)
       ''PancakeswapV2PartialCloseMinimizeTrading::execute:: insufficient farming tokens received'') (\<lambda>_.
     bindE (send_farming X s farming user remaining x) (\<lambda>x.
     bindE (s_safeApprove X lp rt 0 x) (\<lambda>x.
     s_safeApprove X farming rt 0 x)))))))))))))))))))"

end
