(* ===== verification/Strategy_Sizing.thy ===== *)
theory Strategy_Sizing
  imports Strategy_Contract
begin

text \<open>
  The swap before liquidity is added.  \<open>surplus\<close> states the aim: after selling \<open>a\<close> tokens of the kind one has too
  much of, one still has at least as many of them, relative to the pool, as of the other kind.  The amounts that
  \<open>base_only_amount\<close> and \<open>optimalDeposit\<close> compute are the largest ones with a surplus, the second one up to one unit.
\<close>

section \<open>The aim\<close>

text \<open>What a pair pays, before rounding, for \<open>a\<close> tokens with a fee of 25 basis points.\<close>

definition paid :: "nat \<Rightarrow> nat \<Rightarrow> nat \<Rightarrow> real" where
  "paid rA rB a = 9975 * real a * real rB / (10000 * real rA + 9975 * real a)"

definition surplus :: "nat \<Rightarrow> nat \<Rightarrow> nat \<Rightarrow> nat \<Rightarrow> nat \<Rightarrow> bool" where
  "surplus A B rA rB a \<longleftrightarrow>
     (real B + paid rA rB a) / (real rB - paid rA rB a) \<le> (real A - real a) / (real rA + real a)"

definition quad :: "nat \<Rightarrow> nat \<Rightarrow> nat" where
  "quad r a = 9975 * a * a + 19975 * r * a"

lemma surplus_iff:
  assumes rA: "0 < rA" and rB: "0 < rB" and ord: "B * rA \<le> A * rB"
  shows "surplus A B rA rB a \<longleftrightarrow> (B + rB) * quad rA a \<le> 10000 * rA * (A * rB - B * rA)"
proof -
  let ?D = "10000 * real rA + 9975 * real a"
  have D: "0 < ?D" using rA by simp
  have left: "real rB - paid rA rB a = 10000 * real rA * real rB / ?D"
    using D by (simp add: paid_def field_simps)
  have have_B: "real B + paid rA rB a = (real B * ?D + 9975 * real a * real rB) / ?D"
    using D by (simp add: paid_def field_simps)
  have "surplus A B rA rB a \<longleftrightarrow>
      (real B * ?D + 9975 * real a * real rB) / (10000 * real rA * real rB) \<le> (real A - real a) / (real rA + real a)"
    unfolding surplus_def left have_B using D by simp
  also have "\<dots> \<longleftrightarrow> (real B * ?D + 9975 * real a * real rB) * (real rA + real a)
      \<le> (real A - real a) * (10000 * real rA * real rB)"
    using rA rB by (simp add: divide_le_eq pos_le_divide_eq mult.commute)
  also have "\<dots> \<longleftrightarrow> (real B + real rB) * (9975 * real a * real a + 19975 * real rA * real a)
      \<le> 10000 * real rA * (real A * real rB - real B * real rA)"
    by (simp add: algebra_simps)
  also have "\<dots> \<longleftrightarrow> real ((B + rB) * quad rA a) \<le> real (10000 * rA * (A * rB - B * rA))"
    using ord by (simp add: quad_def of_nat_diff)
  finally show ?thesis by (simp only: of_nat_le_iff)
qed

section \<open>The root\<close>

lemma quad_square: "(19950 * a + 19975 * r) * (19950 * a + 19975 * r) = 39900 * quad r a + 19975 * r * (19975 * r)"
  by (simp add: quad_def algebra_simps)

lemma square_le: "m * m \<le> n * n \<Longrightarrow> m \<le> n" for m n :: nat
  by (rule ccontr) (use mult_strict_mono [of n m n m] in simp)

lemma square_less: "m * m < n * n \<Longrightarrow> m < n" for m n :: nat
  by (rule ccontr) (use mult_le_mono [of n m n m] in simp)

lemma quad_root:
  assumes lo: "q * q \<le> 19975 * r * (19975 * r) + 39900 * c"
    and hi: "19975 * r * (19975 * r) + 39900 * c < (q + 1) * (q + 1)"
  shows "19975 * r \<le> q \<and> quad r ((q - 19975 * r) div 19950) \<le> c \<and> c < quad r ((q - 19975 * r) div 19950 + 1)"
proof (intro conjI)
  let ?b = "19975 * r" and ?a = "(q - 19975 * r) div 19950"
  have "?b * ?b < (q + 1) * (q + 1)" using hi by linarith
  then have "?b < q + 1" by (rule square_less)
  then show b: "?b \<le> q" by simp
  have below: "19950 * ?a + ?b \<le> q"
    using b times_div_less_eq_dividend [of 19950 "q - ?b"] by linarith
  have "(19950 * ?a + ?b) * (19950 * ?a + ?b) \<le> q * q" using below by (intro mult_le_mono)
  then show "quad r ?a \<le> c" using lo unfolding quad_square by linarith
  have "q - ?b < 19950 * (?a + 1)" using dividend_less_times_div [of 19950 "q - ?b"] by simp
  then have "q + 1 \<le> 19950 * (?a + 1) + ?b" using b by linarith
  then have "(q + 1) * (q + 1) \<le> (19950 * (?a + 1) + ?b) * (19950 * (?a + 1) + ?b)" by (intro mult_le_mono)
  then show "c < quad r (?a + 1)" using hi unfolding quad_square by linarith
qed

lemma husky_sqrt_Inr:
  assumes "husky_sqrt x = Inr r" and "x \<le> uint_max"
  shows "r * r \<le> x \<and> x < (r + 1) * (r + 1)"
  using husky_root [OF assms(2)] assms(1) by auto

lemma base_only_Inr:
  assumes M: "safe_math_ok M" and run: "base_only_amount M r A = Inr a"
  shows "quad r a \<le> 10000 * r * A \<and> 10000 * r * A < quad r (a + 1)"
proof -
  let ?x = "r * (A * 399000000 + r * 399000625)"
  from run obtain p1 p2 p3 p4 q b n where run: "p1 = A * 399000000" "p2 = r * 399000625" "p3 = p1 + p2"
      "r * p3 \<le> uint_max" "p4 = r * p3" "husky_sqrt p4 = Inr q" "b = r * 19975" "n = q - b" "n div 19950 = a"
    unfolding base_only_amount_def bindE_eq_Inr safe_math_iff [OF M] sum.inject by (elim exE conjE) (rule that)
  then have q: "husky_sqrt ?x = Inr q" "?x \<le> uint_max" "a = (q - 19975 * r) div 19950"
    by (simp_all add: mult.commute)
  have x: "?x = 19975 * r * (19975 * r) + 39900 * (10000 * r * A)" by (simp add: algebra_simps)
  show ?thesis
    using quad_root [of q r "10000 * r * A"] husky_sqrt_Inr [OF q(1,2)] unfolding x q(3) by blast
qed

lemma optimalDepositA_Inr:
  assumes M: "safe_math_ok M" and run: "optimalDepositA M A B r rB = Inr a"
  shows "B * r \<le> A * rB \<and> 0 < B + rB \<and>
    (let c = (A * rB - B * r) * 10000 div (B + rB) * r in quad r a \<le> c \<and> c < quad r (a + 1))"
proof -
  let ?c = "(A * rB - B * r) * 10000 div (B + rB) * r"
  let ?x = "19975 * r * (19975 * r) + 9975 * ?c * 4"
  from run obtain l rr b c0 p1 p2 p3 c d1 d e1 e2 q n dd where run: "l = A * rB" "rr = B * r" "l \<ge> rr" "b = 19975 * r"
      "c0 = l - rr" "p1 = c0 * 10000" "p2 = B + rB" "0 < p2" "p3 = p1 div p2" "c = p3 * r" "d1 = 9975 * c" "d = d1 * 4"
      "e1 = b * b" "e1 + d \<le> uint_max" "e2 = e1 + d" "husky_sqrt e2 = Inr q" "n = q - b" "dd = 9975 * 2" "a = n div dd"
    unfolding optimalDepositA_def Let_def bindE_eq_Inr require_eq_Inr safe_math_iff [OF M] sum.inject
    by (elim exE conjE) (rule that)
  have ord: "B * r \<le> A * rB" "0 < B + rB" using run by simp_all
  have q: "husky_sqrt ?x = Inr q" "?x \<le> uint_max" "a = (q - 19975 * r) div (9975 * 2)"
    using run by (simp_all only:)
  have x: "?x = 19975 * r * (19975 * r) + 39900 * ?c" by simp
  show ?thesis
    using quad_root [of q r ?c] husky_sqrt_Inr [OF q(1,2)] q(3) ord unfolding x Let_def by simp
qed

section \<open>No overflow\<close>

text \<open>The reserves of a pair are \<open>uint112\<close>; for amounts of that size every intermediate result fits.\<close>

lemma mult_below: "a < 2 ^ m \<Longrightarrow> b < 2 ^ n \<Longrightarrow> a * b < 2 ^ (m + n)" for a b :: nat
  by (simp add: power_add mult_strict_mono)

lemma add_below: "a < 2 ^ m \<Longrightarrow> b < 2 ^ m \<Longrightarrow> a + b < 2 ^ (m + 1)" for a b :: nat
  by simp

lemma below_uint: "a < 2 ^ n \<Longrightarrow> n \<le> 256 \<Longrightarrow> a \<le> uint_max" for a :: nat
  using power_increasing [of n 256 "2::nat"] by (simp add: uint_max_def)

lemma math_fits:
  assumes "safe_math_ok M"
  shows "a * b \<le> uint_max \<Longrightarrow> sm_mul M a b = Inr (a * b)" and "a + b \<le> uint_max \<Longrightarrow> sm_add M a b = Inr (a + b)"
    and "b \<le> a \<Longrightarrow> sm_sub M a b = Inr (a - b)" and "0 < b \<Longrightarrow> sm_div M a b = Inr (a div b)"
  by (simp_all add: safe_math_iff [OF assms])

lemma root_above:
  assumes "husky_sqrt x = Inr q" and "x \<le> uint_max" and "b * b \<le> x"
  shows "b \<le> q"
proof -
  have "b * b < (q + 1) * (q + 1)" using husky_sqrt_Inr [OF assms(1,2)] assms(3) by linarith
  then have "b < q + 1" by (rule square_less)
  then show ?thesis by simp
qed

lemma base_only_returns:
  assumes M: "safe_math_ok M" and r: "r < 2 ^ 112" and A: "A < 2 ^ 112"
  shows "\<exists>a. base_only_amount M r A = Inr a"
proof -
  let ?s = "A * 399000000 + r * 399000625"
  have p: "A * 399000000 < 2 ^ 141" using mult_below [OF A, of 399000000 29] by simp
  have q: "r * 399000625 < 2 ^ 141" using mult_below [OF r, of 399000625 29] by simp
  have s: "?s < 2 ^ 142" using add_below [OF p q] by simp
  have x: "r * ?s < 2 ^ 254" using mult_below [OF r s] by simp
  have b: "r * 19975 < 2 ^ 127" using mult_below [OF r, of 19975 15] by simp
  have fits: "A * 399000000 \<le> uint_max" "r * 399000625 \<le> uint_max" "?s \<le> uint_max" "r * ?s \<le> uint_max" "r * 19975 \<le> uint_max"
    by (rule below_uint [OF p] below_uint [OF q] below_uint [OF s] below_uint [OF x] below_uint [OF b], simp)+
  obtain q0 where q0: "husky_sqrt (r * ?s) = Inr q0" using husky_root [OF fits(4)] by blast
  have "r * 19975 * (r * 19975) \<le> r * ?s" by (simp add: algebra_simps)
  then have "r * 19975 \<le> q0" by (rule root_above [OF q0 fits(4)])
  then show ?thesis
    by (simp only: base_only_amount_def math_fits [OF M] fits bindE_simps q0) blast
qed

lemma optimalDepositA_returns:
  assumes M: "safe_math_ok M" and bounds: "A < 2 ^ 112" "B < 2 ^ 112" "r < 2 ^ 112" "rB < 2 ^ 112"
    and rB: "0 < rB" and ord: "B * r \<le> A * rB"
  shows "\<exists>a. optimalDepositA M A B r rB = Inr a"
proof -
  let ?c0 = "A * rB - B * r"
  let ?p = "?c0 * 10000" and ?q = "B + rB"
  let ?c = "?p div ?q * r" and ?b = "19975 * r"
  have l: "A * rB < 2 ^ 224" "B * r < 2 ^ 224" using mult_below [OF bounds(1,4)] mult_below [OF bounds(2,3)] by simp_all
  have b: "?b < 2 ^ 127" using mult_below [OF bounds(3), of 19975 15] by (simp add: mult.commute)
  have p: "?p < 2 ^ 238" using mult_below [of ?c0 224 10000 14] l(1) by simp
  have q: "?q < 2 ^ 113" using add_below [OF bounds(2,4)] by simp
  have "?p div ?q \<le> A * 10000"
  proof -
    have "?p \<le> A * rB * 10000" by simp
    also have "\<dots> \<le> A * 10000 * ?q" by (simp add: algebra_simps)
    finally have "?p div ?q \<le> A * 10000 * ?q div ?q" by (rule div_le_mono)
    then show ?thesis using rB by simp
  qed
  then have c_le: "?c \<le> A * 10000 * r" by (rule mult_le_mono1)
  have "A * 10000 < 2 ^ 126" using mult_below [OF bounds(1), of 10000 14] by simp
  then have "A * 10000 * r < 2 ^ (126 + 112)" using bounds(3) by (rule mult_below)
  with c_le have "?c < 2 ^ (126 + 112)" by (rule le_less_trans)
  then have c: "?c < 2 ^ 238" by (simp only: numeral_plus_numeral semiring_norm)
  have "9975 * ?c < 2 ^ (14 + 238)" by (rule mult_below [OF _ c]) simp
  then have ac: "9975 * ?c < 2 ^ 252" by (simp only: numeral_plus_numeral semiring_norm)
  have "9975 * ?c * 4 < 2 ^ (252 + 3)" by (rule mult_below [OF ac]) simp
  then have d: "9975 * ?c * 4 < 2 ^ 255" by (simp only: numeral_plus_numeral semiring_norm)
  have "?b * ?b < 2 ^ (127 + 127)" by (rule mult_below [OF b b])
  also have "(2::nat) ^ (127 + 127) < 2 ^ 255" by simp
  finally have bb: "?b * ?b < 2 ^ 255" .
  have "?b * ?b + 9975 * ?c * 4 < 2 ^ (255 + 1)" by (rule add_below [OF bb d])
  then have x: "?b * ?b + 9975 * ?c * 4 < 2 ^ 256" by (simp only: numeral_plus_numeral semiring_norm one_plus_numeral numeral_plus_one)
  have le: "(n::nat) \<le> 256 \<Longrightarrow> k < 2 ^ n \<Longrightarrow> k \<le> uint_max" for n k by (rule below_uint)
  have fits: "A * rB \<le> uint_max" "B * r \<le> uint_max" "?b \<le> uint_max" "?p \<le> uint_max" "?q \<le> uint_max" "?c \<le> uint_max"
      "9975 * ?c \<le> uint_max" "9975 * ?c * 4 \<le> uint_max" "?b * ?b \<le> uint_max" "?b * ?b + 9975 * ?c * 4 \<le> uint_max"
    by (rule le [OF _ l(1)] le [OF _ l(2)] le [OF _ b] le [OF _ p] le [OF _ q] le [OF _ c] le [OF _ ac] le [OF _ d]
        le [OF _ bb] le [OF _ x], simp)+
  have nums: "(9975::nat) * 2 \<le> uint_max" "0 < ?q" "(0::nat) < 9975 * 2" using rB by (simp_all add: uint_max_def)
  obtain e where e: "husky_sqrt (?b * ?b + 9975 * ?c * 4) = Inr e" using husky_root [OF fits(10)] by blast
  have "?b \<le> e" by (rule root_above [OF e fits(10)]) simp
  then show ?thesis
    by (simp only: optimalDepositA_def Let_def math_fits [OF M] fits nums ord bindE_simps e require_def if_True) blast
qed

section \<open>The computed amounts\<close>

lemma quad_above:
  assumes "A < a" and "0 < r"
  shows "10000 * r * A < quad r a"
proof -
  have "r * A \<le> r * a" and "0 < r * a" using assms by simp_all
  then have "10000 * (r * A) < 19975 * (r * a)" by linarith
  also have "\<dots> \<le> quad r a" by (simp add: quad_def)
  finally show ?thesis by simp
qed

lemma optimalDepositA_optimal:
  assumes M: "safe_math_ok M" and amounts: "A < 2 ^ 112" "B < 2 ^ 112"
    and rA: "0 < rA" "rA < 2 ^ 112" and rB: "0 < rB" "rB < 2 ^ 112" and ord: "B * rA \<le> A * rB"
  shows "\<exists>n. optimalDepositA M A B rA rB = Inr n \<and> n \<le> A \<and> surplus A B rA rB n \<and> \<not> surplus A B rA rB (n + 2)"
proof -
  obtain n where n: "optimalDepositA M A B rA rB = Inr n"
    using optimalDepositA_returns [OF M amounts rA(2) rB(2,1) ord] by blast
  define q p where "q = B + rB" and "p = (A * rB - B * rA) * 10000"
  have quads: "quad rA n \<le> p div q * rA" "p div q * rA < quad rA (n + 1)"
    using optimalDepositA_Inr [OF M n] by (simp_all add: q_def p_def Let_def)
  have q: "0 < q" using rB by (simp add: q_def)
  have iff: "surplus A B rA rB k \<longleftrightarrow> q * quad rA k \<le> p * rA" for k
    using surplus_iff [OF rA(1) rB(1) ord, of k] by (simp add: q_def p_def ac_simps)
  have floor: "q * (p div q) \<le> p" "p < q * (p div q + 1)"
    using times_div_less_eq_dividend [of q p] dividend_less_times_div [OF q, of p] by (simp_all add: algebra_simps)
  have "q * quad rA n \<le> q * (p div q * rA)" using quads(1) by (rule mult_le_mono2)
  also have "\<dots> = q * (p div q) * rA" by simp
  also have "\<dots> \<le> p * rA" using floor(1) by (rule mult_le_mono1)
  finally have yes: "surplus A B rA rB n" by (simp only: iff)
  have step: "quad rA (n + 1) + rA \<le> quad rA (n + 2)" by (simp add: quad_def algebra_simps)
  have "p * rA < q * (p div q + 1) * rA" using floor(2) rA(1) by (rule mult_strict_right_mono)
  also have "\<dots> = q * (p div q * rA + rA)" by (simp add: algebra_simps)
  also have "\<dots> \<le> q * quad rA (n + 2)" using quads(2) step by (intro mult_le_mono2) linarith
  finally have no: "\<not> surplus A B rA rB (n + 2)" by (simp only: iff not_le)
  have "n \<le> A"
  proof (rule ccontr)
    assume "\<not> n \<le> A"
    have "p \<le> 10000 * A * q" by (simp add: p_def q_def algebra_simps)
    then have "p * rA \<le> 10000 * A * q * rA" by (rule mult_le_mono1)
    also have "\<dots> = q * (10000 * rA * A)" by simp
    also have "\<dots> < q * quad rA n" using \<open>\<not> n \<le> A\<close> q rA(1) by (simp add: quad_above)
    finally show False using yes by (simp only: iff not_le [symmetric])
  qed
  then show ?thesis using n yes no by blast
qed

text \<open>
  C23: for every balance and reserve of a pair (\<open>uint112\<close>) the amount that \<open>AddBaseTokenOnly\<close> swaps is computed
  without an overflow, and it is the right one to the last unit: swapping it leaves no less base tokens than the
  pool's ratio needs, swapping one unit more leaves too few.  It is never more than the balance.
\<close>
theorem base_only_amount_is_optimal:
  assumes M: "safe_math_ok M" and A: "A < 2 ^ 112" and rA: "0 < rA" "rA < 2 ^ 112" and rB: "0 < rB"
  shows "\<exists>a. base_only_amount M rA A = Inr a \<and> a \<le> A \<and> surplus A 0 rA rB a \<and> \<not> surplus A 0 rA rB (a + 1)"
proof -
  obtain a where a: "base_only_amount M rA A = Inr a" using base_only_returns [OF M rA(2) A] by blast
  have quads: "quad rA a \<le> 10000 * rA * A" "10000 * rA * A < quad rA (a + 1)" using base_only_Inr [OF M a] by simp_all
  have iff: "surplus A 0 rA rB k \<longleftrightarrow> quad rA k \<le> 10000 * rA * A" for k
    using surplus_iff [OF rA(1) rB, of 0 A k] rB by (simp add: mult.commute mult.left_commute)
  have "a \<le> A"
    using quad_above [of A a rA] quads(1) rA(1) by (cases "a \<le> A") simp_all
  then show ?thesis using a quads iff by auto
qed

text \<open>
  C12: \<open>optimalDeposit\<close> of \<open>AddTwoSidesOptimal\<close> returns for every balance and reserve of a pair, chooses the token
  that is in excess of the pool's ratio, never swaps more than there is of it, leaves no shortage of it, and
  misses the exact optimum by at most one unit, although it divides before it multiplies.
\<close>
theorem two_sides_amount_is_optimal:
  assumes M: "safe_math_ok M" and amounts: "A < 2 ^ 112" "B < 2 ^ 112"
    and rA: "0 < rA" "rA < 2 ^ 112" and rB: "0 < rB" "rB < 2 ^ 112"
  shows "\<exists>n reversed. optimalDeposit M A B rA rB = Inr (n, reversed) \<and> (reversed \<longleftrightarrow> A * rB < B * rA) \<and>
    (if reversed then n \<le> B \<and> surplus B A rB rA n \<and> \<not> surplus B A rB rA (n + 2)
     else n \<le> A \<and> surplus A B rA rB n \<and> \<not> surplus A B rA rB (n + 2))"
proof -
  have one: "\<exists>n. optimalDepositA M A B rA rB = Inr n \<and> n \<le> A \<and> surplus A B rA rB n \<and> \<not> surplus A B rA rB (n + 2)"
    if amounts: "A < 2 ^ 112" "B < 2 ^ 112" and rA: "0 < rA" "rA < 2 ^ 112" and rB: "0 < rB" "rB < 2 ^ 112"
      and ord: "B * rA \<le> A * rB" for A B rA rB
    by (rule optimalDepositA_optimal [OF M amounts rA rB ord])
  have mults: "sm_mul M A rB = Inr (A * rB)" "sm_mul M B rA = Inr (B * rA)"
    using below_uint [OF mult_below [OF amounts(1) rB(2)]] below_uint [OF mult_below [OF amounts(2) rA(2)]]
    by (simp_all add: math_fits [OF M])
  show ?thesis
  proof (cases "B * rA \<le> A * rB")
    case True
    then show ?thesis using one [OF amounts rA rB True] by (auto simp: optimalDeposit_def mults)
  next
    case False
    then show ?thesis using one [OF amounts(2,1) rB rA] by (auto simp: optimalDeposit_def mults)
  qed
qed

theorem base_only_amount_is_optimal_witness:
  "\<exists>a. base_only_amount checked_math 50000 1000 = Inr a \<and> a \<le> 1000 \<and> surplus 1000 0 50000 20000 a \<and>
     \<not> surplus 1000 0 50000 20000 (a + 1)"
  by (rule base_only_amount_is_optimal) simp_all

theorem two_sides_amount_is_optimal_witness:
  "\<exists>n. optimalDeposit checked_math 10 1000 50000 20000 = Inr (n, True) \<and> n \<le> 1000 \<and> surplus 1000 10 20000 50000 n \<and>
     \<not> surplus 1000 10 20000 50000 (n + 2)"
  using two_sides_amount_is_optimal [of checked_math 10 1000 50000 20000] by auto

end
