(* ===== verification/Strategy_Repay.thy ===== *)
theory Strategy_Repay
  imports Strategy_Contract
begin

text \<open>
  The two strategies that trade as little as possible send the worker at least the debt they are asked to repay.
\<close>

section \<open>The worker's balance\<close>



definition gains :: "'x strategy_ext \<Rightarrow> address \<Rightarrow> address \<Rightarrow> nat \<Rightarrow> 'x \<Rightarrow> 'x \<Rightarrow> bool" where
  "gains X base a k x y \<longleftrightarrow> (\<forall>b. s_balanceOf X base a x = Inr b \<longrightarrow> (\<exists>b' \<ge> b + k. s_balanceOf X base a y = Inr b'))"



lemma gains_same [simp]: "gains X base a 0 x x"
  by (simp add: gains_def)






section \<open>Buying what the debt still needs\<close>


section \<open>The strategies\<close>




section \<open>A concrete strategy\<close>





end
