(* ===== verification/Price_Oracle.thy ===== *)
theory Price_Oracle
  imports Husky_Math
begin

text \<open>
  The oracles of \<open>contracts/6/protocol/priceoracles\<close>.  \<open>SimplePriceOracle\<close> and \<open>ComplexPriceOracle\<close> keep what a
  feeder wrote last; \<open>ChainLinkPriceOracle\<close> reads the feed of a pair, in either direction.  The feeds and
  OpenZeppelin's \<open>Ownable\<close> and \<open>SafeMath\<close> are parameters.
\<close>

section \<open>Prices from a feeder\<close>

record price_data =
  price :: nat
  lastUpdate :: nat

definition no_price :: price_data where
  "no_price = \<lparr>price = 0, lastUpdate = 0\<rparr>"

record simple_oracle =
  so_feeder :: address
  so_store :: "address \<Rightarrow> address \<Rightarrow> price_data"

text \<open>\<open>uint192(price)\<close> and \<open>uint64(now)\<close> drop the upper bits.\<close>

definition stored_price :: "msg \<Rightarrow> nat \<Rightarrow> price_data" where
  "stored_price m p = \<lparr>price = p mod 2 ^ 192, lastUpdate = block_timestamp m mod 2 ^ 64\<rparr>"

definition simple_initialize :: "address \<Rightarrow> simple_oracle" where
  "simple_initialize f = \<lparr>so_feeder = f, so_store = (\<lambda>_ _. no_price)\<rparr>"

definition simple_setFeeder :: "(address \<Rightarrow> bool) \<Rightarrow> msg \<Rightarrow> address \<Rightarrow> simple_oracle \<Rightarrow> simple_oracle result" where
  "simple_setFeeder isOwner m f s =
     bindE (require (isOwner (sender m)) ''Ownable: caller is not the owner'') (\<lambda>_. Inr (s\<lparr>so_feeder := f\<rparr>))"

definition store_prices :: "msg \<Rightarrow> (address \<times> address \<times> nat) list \<Rightarrow> (address \<Rightarrow> address \<Rightarrow> price_data) \<Rightarrow> address \<Rightarrow> address \<Rightarrow> price_data" where
  "store_prices m = fold (\<lambda>(t0, t1, p) st. st(t0 := (st t0)(t1 := stored_price m p)))"

definition simple_setPrices :: "msg \<Rightarrow> address list \<Rightarrow> address list \<Rightarrow> nat list \<Rightarrow> simple_oracle \<Rightarrow> simple_oracle result" where
  "simple_setPrices m t0s t1s ps s =
     bindE (require (sender m = so_feeder s) ''SimplePriceOracle::onlyFeeder: only feeder'') (\<lambda>_.
     bindE (require (length t1s = length t0s) ''SimplePriceOracle::setPrices: bad token1s length'') (\<lambda>_.
     bindE (require (length ps = length t0s) ''SimplePriceOracle::setPrices: bad prices length'') (\<lambda>_.
     Inr (s\<lparr>so_store := store_prices m (zip t0s (zip t1s ps)) (so_store s)\<rparr>))))"

definition simple_getPrice :: "address \<Rightarrow> address \<Rightarrow> simple_oracle \<Rightarrow> (nat \<times> nat) result" where
  "simple_getPrice t0 t1 s = (let d = so_store s t0 t1 in
     bindE (require (price d \<noteq> 0 \<and> lastUpdate d \<noteq> 0) ''SimplePriceOracle::getPrice: bad price data'') (\<lambda>_.
     Inr (price d, lastUpdate d)))"

record complex_oracle =
  co_feeder :: address
  co_store :: "address \<Rightarrow> price_data"

definition complex_initialize :: "address \<Rightarrow> complex_oracle" where
  "complex_initialize f = \<lparr>co_feeder = f, co_store = (\<lambda>_. no_price)\<rparr>"

definition complex_setFeeder :: "(address \<Rightarrow> bool) \<Rightarrow> msg \<Rightarrow> address \<Rightarrow> complex_oracle \<Rightarrow> complex_oracle result" where
  "complex_setFeeder isOwner m f s =
     bindE (require (isOwner (sender m)) ''Ownable: caller is not the owner'') (\<lambda>_. Inr (s\<lparr>co_feeder := f\<rparr>))"

definition complex_setPrices :: "msg \<Rightarrow> address list \<Rightarrow> nat list \<Rightarrow> complex_oracle \<Rightarrow> complex_oracle result" where
  "complex_setPrices m ts ps s =
     bindE (require (sender m = co_feeder s) ''ComplexPriceOracle::onlyFeeder: only feeder'') (\<lambda>_.
     bindE (require (length ps = length ts) ''ComplexPriceOracle::setPrices: bad prices length'') (\<lambda>_.
     Inr (s\<lparr>co_store := fold (\<lambda>(t, p) st. st(t := stored_price m p)) (zip ts ps) (co_store s)\<rparr>)))"

definition complex_getPrice :: "address \<Rightarrow> complex_oracle \<Rightarrow> (nat \<times> nat) result" where
  "complex_getPrice t s = (let d = co_store s t in
     bindE (require (price d \<noteq> 0 \<and> lastUpdate d \<noteq> 0) ''ComplexPriceOracle::getPrice: bad price data'') (\<lambda>_.
     Inr (price d, lastUpdate d)))"

section \<open>Prices from feeds\<close>

record 'x feed_ext =
  f_math :: safe_math
  f_isOwner :: "address \<Rightarrow> 'x \<Rightarrow> bool"
  f_latest :: "address \<Rightarrow> 'x \<Rightarrow> (int \<times> nat) result"
  f_decimals :: "address \<Rightarrow> 'x \<Rightarrow> nat result"

type_synonym feeds = "address \<Rightarrow> address \<Rightarrow> address"

definition chainlink_initialize :: feeds where
  "chainlink_initialize = (\<lambda>_ _. zero_address)"

definition setPriceFeed :: "address \<times> address \<times> address \<Rightarrow> feeds \<Rightarrow> feeds result" where
  "setPriceFeed = (\<lambda>(t0, t1, source) F.
     bindE (require (F t1 t0 = zero_address) ''ChainLinkPriceOracle::setPriceFeed: source on existed pair'') (\<lambda>_.
     Inr (F(t0 := (F t0)(t1 := source)))))"

definition setPriceFeeds :: "'x feed_ext \<Rightarrow> msg \<Rightarrow> address list \<Rightarrow> address list \<Rightarrow> address list \<Rightarrow> 'x \<Rightarrow> feeds \<Rightarrow> feeds result" where
  "setPriceFeeds X m t0s t1s sources x F =
     bindE (require (f_isOwner X (sender m) x) ''Ownable: caller is not the owner'') (\<lambda>_.
     bindE (require (length t0s = length t1s \<and> length t0s = length sources)
       ''ChainLinkPriceOracle::setPriceFeeds: inconsistent length'') (\<lambda>_.
     foldE (\<lambda>F e. setPriceFeed e F) F (zip t0s (zip t1s sources))))"

text \<open>\<open>uint256(price)\<close> of an \<open>int256\<close>.\<close>

definition as_uint :: "int \<Rightarrow> nat" where
  "as_uint p = nat (p mod 2 ^ 256)"

definition chainlink_getPrice :: "'x feed_ext \<Rightarrow> address \<Rightarrow> address \<Rightarrow> 'x \<Rightarrow> feeds \<Rightarrow> (nat \<times> nat) result" where
  "chainlink_getPrice X t0 t1 x F = (let M = f_math X in
     bindE (require (F t0 t1 \<noteq> zero_address \<or> F t1 t0 \<noteq> zero_address) ''ChainLinkPriceOracle::getPrice: no source'') (\<lambda>_.
     if F t0 t1 \<noteq> zero_address
     then bindE (f_latest X (F t0 t1) x) (\<lambda>(p, t).
          bindE (f_decimals X (F t0 t1) x) (\<lambda>decimals.
          bindE (bindE (sm_mul M (as_uint p) (10 ^ 18)) (\<lambda>n. raw_div n (wrap (10 ^ decimals)))) (\<lambda>n. Inr (n, t))))
     else bindE (f_latest X (F t1 t0) x) (\<lambda>(p, t).
          bindE (f_decimals X (F t1 t0) x) (\<lambda>decimals.
          bindE (bindE (sm_mul M (wrap (10 ^ decimals)) (10 ^ 18)) (\<lambda>n. raw_div n (as_uint p))) (\<lambda>n. Inr (n, t))))))"

section \<open>A feed is used in one direction\<close>

inductive chainlink_reach :: "'x feed_ext \<Rightarrow> feeds \<Rightarrow> bool" for X where
  fresh: "chainlink_reach X chainlink_initialize"
| configured: "chainlink_reach X F \<Longrightarrow> setPriceFeeds X m t0s t1s ss x F = Inr F' \<Longrightarrow> chainlink_reach X F'"

definition one_direction :: "feeds \<Rightarrow> bool" where
  "one_direction F \<longleftrightarrow> (\<forall>a b. a \<noteq> b \<longrightarrow> F a b = zero_address \<or> F b a = zero_address)"

lemma setPriceFeed_keeps:
  assumes "setPriceFeed e F = Inr F'" and "one_direction F"
  shows "one_direction F'"
proof -
  obtain t0 t1 s where e: "e = (t0, t1, s)" by (cases e)
  have F': "F' = F(t0 := (F t0)(t1 := s))" and z: "F t1 t0 = zero_address"
    using assms(1) by (auto simp: setPriceFeed_def e)
  show ?thesis using assms(2) z unfolding one_direction_def F' by auto
qed

lemma setPriceFeed_loop_keeps:
  "foldE (\<lambda>F e. setPriceFeed e F) F es = Inr F' \<Longrightarrow> one_direction F \<Longrightarrow> one_direction F'"
  by (induction es arbitrary: F) (auto dest: setPriceFeed_keeps)

lemma reach_one_direction: "chainlink_reach X F \<Longrightarrow> one_direction F"
proof (induction rule: chainlink_reach.induct)
  case (configured F m t0s t1s ss x F')
  then show ?case by (auto simp: setPriceFeeds_def dest: setPriceFeed_loop_keeps)
qed (simp add: one_direction_def chainlink_initialize_def)

section \<open>The two prices of a pair\<close>

lemma reciprocal_products:
  fixes p D K :: nat
  assumes p: "0 < p" and D: "0 < D"
  shows "(p * K div D) * (D * K div p) \<le> K * K" and "K * K < (p * K div D + 1) * (D * K div p + 1)"
proof -
  let ?x = "p * K div D" and ?y = "D * K div p"
  have x: "?x * D \<le> p * K" "p * K < (?x + 1) * D"
    using times_div_less_eq_dividend [of D "p * K"] dividend_less_times_div [OF D, of "p * K"] by (simp_all add: mult.commute)
  have y: "?y * p \<le> D * K" "D * K < (?y + 1) * p"
    using times_div_less_eq_dividend [of p "D * K"] dividend_less_times_div [OF p, of "D * K"] by (simp_all add: mult.commute)
  have "?x * ?y * (D * p) = (?x * D) * (?y * p)" by (simp only: ac_simps)
  also have "\<dots> \<le> (p * K) * (D * K)" by (rule mult_le_mono [OF x(1) y(1)])
  also have "\<dots> = K * K * (D * p)" by (simp only: ac_simps)
  finally show "?x * ?y \<le> K * K" using p D by simp
  have "K * K * (D * p) = (p * K) * (D * K)" by (simp only: ac_simps)
  also have "\<dots> < ((?x + 1) * D) * ((?y + 1) * p)" by (rule mult_strict_mono [OF x(2) y(2)]) (use p D in simp_all)
  also have "\<dots> = (?x + 1) * (?y + 1) * (D * p)" by (simp only: ac_simps)
  finally show "K * K < (?x + 1) * (?y + 1)" using p D by (simp only: mult_less_cancel2)
qed

lemma decimals_fit: "d \<le> 59 \<Longrightarrow> 10 ^ d * 10 ^ 18 \<le> uint_max \<and> wrap (10 ^ d) = 10 ^ d"
proof -
  assume "d \<le> 59"
  then have d: "(10::nat) ^ d \<le> 10 ^ 59" by (rule power_increasing) simp
  then have "10 ^ d * 10 ^ 18 \<le> (10::nat) ^ 59 * 10 ^ 18" by (rule mult_le_mono1)
  moreover have "(10::nat) ^ 59 * 10 ^ 18 \<le> uint_max" by (simp add: uint_max_def)
  moreover have "(10::nat) ^ d < 2 ^ 256" by (rule le_less_trans [OF d]) simp
  ultimately show ?thesis by (simp only: wrap_small order_trans)
qed

lemma chainlink_both:
  assumes M: "safe_math_ok (f_math X)" and reach: "chainlink_reach X F" and ab: "a \<noteq> b" and feed: "F a b \<noteq> zero_address"
    and latest: "f_latest X (F a b) x = Inr (p, t)" "f_decimals X (F a b) x = Inr d" and d: "d \<le> 59"
  shows "chainlink_getPrice X a b x F =
      bindE (bindE (sm_mul (f_math X) (as_uint p) (10 ^ 18)) (\<lambda>n. raw_div n (10 ^ d))) (\<lambda>n. Inr (n, t))"
    and "chainlink_getPrice X b a x F = bindE (raw_div (10 ^ d * 10 ^ 18) (as_uint p)) (\<lambda>n. Inr (n, t))"
proof -
  note fit = decimals_fit [OF d]
  have ba: "F b a = zero_address" using reach_one_direction [OF reach] ab feed by (auto simp: one_direction_def)
  have mul: "sm_mul (f_math X) (10 ^ d) (10 ^ 18) = Inr (10 ^ d * 10 ^ 18)"
    using fit by (simp add: safe_math_iff [OF M] del: power_numeral)
  show "chainlink_getPrice X a b x F =
      bindE (bindE (sm_mul (f_math X) (as_uint p) (10 ^ 18)) (\<lambda>n. raw_div n (10 ^ d))) (\<lambda>n. Inr (n, t))"
    by (simp only: chainlink_getPrice_def Let_def feed latest fit require_def simp_thms if_True bindE_simps prod.case)
  show "chainlink_getPrice X b a x F = bindE (raw_div (10 ^ d * 10 ^ 18) (as_uint p)) (\<lambda>n. Inr (n, t))"
    by (simp only: chainlink_getPrice_def Let_def feed ba latest fit mul require_def simp_thms if_True if_False bindE_simps prod.case)
qed

text \<open>
  C39: the two prices of a pair agree.  For a feed with a positive answer and at most 59 decimals, whichever
  direction it was configured for, both directions have a price with the time of the answer, and the prices, scaled by
  \<open>10 ^ 18\<close>, are reciprocal up to the last unit.
\<close>
theorem chainlink_prices_are_reciprocal:
  assumes M: "safe_math_ok (f_math X)" and reach: "chainlink_reach X F" and ab: "a \<noteq> b" and feed: "F a b \<noteq> zero_address"
    and latest: "f_latest X (F a b) x = Inr (p, t)" "f_decimals X (F a b) x = Inr d"
    and d: "d \<le> 59" and p: "0 < p" "p * 10 ^ 18 \<le> int uint_max"
  shows "\<exists>there back. chainlink_getPrice X a b x F = Inr (there, t) \<and> chainlink_getPrice X b a x F = Inr (back, t) \<and>
    there * back \<le> 10 ^ 36 \<and> 10 ^ 36 < (there + 1) * (back + 1)"
proof -
  define n D K :: nat where "n = nat p" and "D = 10 ^ d" and "K = 10 ^ 18"
  have "p < 2 ^ 256" using p by (simp add: uint_max_def)
  then have n: "as_uint p = n" "0 < n" using p(1) by (simp_all add: as_uint_def n_def)
  have "int (n * K) \<le> int uint_max" using p by (simp add: n_def K_def)
  then have fits: "n * K \<le> uint_max" by (simp only: of_nat_le_iff)
  have D: "0 < D" by (simp add: D_def)
  note both = chainlink_both [OF M reach ab feed latest d, folded D_def K_def, unfolded n(1)]
  have "chainlink_getPrice X a b x F = Inr (n * K div D, t)" "chainlink_getPrice X b a x F = Inr (D * K div n, t)"
    using fits n(2) D unfolding both by (simp_all add: safe_math_iff [OF M, THEN iffD2] raw_div_def)
  moreover have "K * K = 10 ^ 36" by (simp add: K_def)
  ultimately show ?thesis using reciprocal_products [OF n(2) D, of K] by metis
qed

text \<open>
  An answer that is not positive is not rejected.  Zero is a price of zero in the direction of the feed, a negative
  answer is one in the other direction; \<open>SimplePriceOracle\<close> refuses such prices.
\<close>
theorem bad_answers_are_zero_prices:
  assumes M: "safe_math_ok (f_math X)" and reach: "chainlink_reach X F" and ab: "a \<noteq> b" and feed: "F a b \<noteq> zero_address"
    and latest: "f_latest X (F a b) x = Inr (p, t)" "f_decimals X (F a b) x = Inr d" and d: "d \<le> 58"
  shows "(p = 0 \<longrightarrow> chainlink_getPrice X a b x F = Inr (0, t)) \<and>
    (p < 0 \<and> - (2 ^ 255) \<le> p \<longrightarrow> chainlink_getPrice X b a x F = Inr (0, t))"
proof -
  have d': "d \<le> 59" using d by simp
  note both = chainlink_both [OF M reach ab feed latest d']
  have "chainlink_getPrice X a b x F = Inr (0, t)" if "p = 0"
    unfolding both using that by (simp add: as_uint_def safe_math_iff [OF M, THEN iffD2] raw_div_def)
  moreover have "chainlink_getPrice X b a x F = Inr (0, t)" if "p < 0" "- (2 ^ 255) \<le> p"
  proof -
    have "p mod 2 ^ 256 = (p + 2 ^ 256) mod 2 ^ 256" by simp
    also have "\<dots> = p + 2 ^ 256" using that by (intro mod_pos_pos_trivial) simp_all
    finally have big: "2 ^ 255 \<le> as_uint p" using that by (simp add: as_uint_def)
    have "(10::nat) ^ d \<le> 10 ^ 58" using d by (rule power_increasing) simp
    then have "(10::nat) ^ d * 10 ^ 18 \<le> 10 ^ 58 * 10 ^ 18" by (rule mult_le_mono1)
    also have "(10::nat) ^ 58 * 10 ^ 18 < 2 ^ 255" by simp
    finally have "10 ^ d * 10 ^ 18 < as_uint p" using big by (rule less_le_trans)
    then show ?thesis unfolding both by (simp add: raw_div_def)
  qed
  ultimately show ?thesis by blast
qed

section \<open>The feeder's prices\<close>

text \<open>A history of the oracle, with what the feeder wrote, newest first.\<close>

inductive simple_reach :: "(address \<Rightarrow> bool) \<Rightarrow> simple_oracle \<Rightarrow> (address \<times> address \<times> price_data) list \<Rightarrow> bool" for isOwner where
  fresh: "simple_reach isOwner (simple_initialize f) []"
| fed: "simple_reach isOwner s es \<Longrightarrow> simple_setPrices m t0s t1s ps s = Inr s' \<Longrightarrow>
    simple_reach isOwner s' (rev (map (\<lambda>(a, b, p). (a, b, stored_price m p)) (zip t0s (zip t1s ps))) @ es)"
| replaced: "simple_reach isOwner s es \<Longrightarrow> simple_setFeeder isOwner m f s = Inr s' \<Longrightarrow> simple_reach isOwner s' es"

definition latest_entry :: "(address \<times> address \<times> price_data) list \<Rightarrow> address \<Rightarrow> address \<Rightarrow> price_data" where
  "latest_entry es a b = (case find (\<lambda>(t0, t1, _). t0 = a \<and> t1 = b) es of None \<Rightarrow> no_price | Some (_, _, d) \<Rightarrow> d)"

lemma latest_entry_Cons:
  "latest_entry ((t0, t1, d) # es) = (latest_entry es)(t0 := (latest_entry es t0)(t1 := d))"
  by (auto simp: latest_entry_def fun_eq_iff)

lemma store_prices_log:
  "store_prices m ws (latest_entry es) = latest_entry (rev (map (\<lambda>(a, b, p). (a, b, stored_price m p)) ws) @ es)"
proof (induction ws arbitrary: es)
  case (Cons e ws)
  obtain a b p where e: "e = (a, b, p)" by (cases e)
  have "store_prices m (e # ws) (latest_entry es) = store_prices m ws (latest_entry ((a, b, stored_price m p) # es))"
    by (simp add: store_prices_def e latest_entry_Cons)
  then show ?case by (simp add: Cons.IH e)
qed (simp add: store_prices_def)

lemma latest_entry_Nil: "latest_entry [] = (\<lambda>_ _. no_price)"
  by (simp add: latest_entry_def fun_eq_iff)

lemma store_is_latest: "simple_reach isOwner s es \<Longrightarrow> so_store s = latest_entry es"
proof (induction rule: simple_reach.induct)
  case (fed s es m t0s t1s ps s')
  then show ?case by (auto simp: simple_setPrices_def store_prices_log)
qed (auto simp: simple_initialize_def simple_setFeeder_def latest_entry_Nil)

text \<open>
  In every history \<open>SimplePriceOracle\<close> answers with what the feeder wrote last for the pair, cut to 192 bits, and its
  time, or refuses when nothing was written or the price was cut to zero.
\<close>
theorem feeder_price_is_latest:
  assumes "simple_reach isOwner s es"
  shows "simple_getPrice a b s = (let d = latest_entry es a b in
    if price d \<noteq> 0 \<and> lastUpdate d \<noteq> 0 then Inr (price d, lastUpdate d)
    else Inl (Revert ''SimplePriceOracle::getPrice: bad price data''))"
  by (simp add: simple_getPrice_def store_is_latest [OF assms] require_def Let_def)

section \<open>A concrete feed\<close>

definition plain_feed :: "unit feed_ext" where
  "plain_feed = \<lparr>f_math = checked_math, f_isOwner = (\<lambda>a _. a = ''OWNER''), f_latest = (\<lambda>_ _. Inr (300000000, 77)),
     f_decimals = (\<lambda>_ _. Inr 8)\<rparr>"

definition sample_feeds :: feeds where
  "sample_feeds = chainlink_initialize(''ETH'' := (chainlink_initialize ''ETH'')(''USD'' := ''FEED''))"

theorem chainlink_prices_are_reciprocal_witness:
  "chainlink_reach plain_feed sample_feeds \<and>
   (\<exists>there back. chainlink_getPrice plain_feed ''ETH'' ''USD'' () sample_feeds = Inr (there, 77) \<and>
     chainlink_getPrice plain_feed ''USD'' ''ETH'' () sample_feeds = Inr (back, 77) \<and>
     there * back \<le> 10 ^ 36 \<and> 10 ^ 36 < (there + 1) * (back + 1))"
proof
  have "setPriceFeeds plain_feed \<lparr>sender = ''OWNER'', block_number = 1, block_timestamp = 1, this = ''O''\<rparr>
      [''ETH''] [''USD''] [''FEED''] () chainlink_initialize = Inr sample_feeds"
    by (simp add: setPriceFeeds_def setPriceFeed_def plain_feed_def sample_feeds_def chainlink_initialize_def)
  then show reach: "chainlink_reach plain_feed sample_feeds" by (rule chainlink_reach.configured [OF chainlink_reach.fresh])
  show "\<exists>there back. chainlink_getPrice plain_feed ''ETH'' ''USD'' () sample_feeds = Inr (there, 77) \<and>
     chainlink_getPrice plain_feed ''USD'' ''ETH'' () sample_feeds = Inr (back, 77) \<and>
     there * back \<le> 10 ^ 36 \<and> 10 ^ 36 < (there + 1) * (back + 1)"
    by (rule chainlink_prices_are_reciprocal [OF _ reach, where p = 300000000 and d = 8])
      (simp_all add: plain_feed_def sample_feeds_def zero_address_def uint_max_def)
qed

end
