(* ===== verification/Spec2Isabelle.thy ===== *)
theory Spec2Isabelle
  imports Merkle_Distributor Vault_Links Worker_Config Timelock_Links Timelock_Types Core_Links Config_File
    Setup_Scripts Validate Worker_Shares Strategy_Sizing Strategy_Repay
    Price_Oracle
begin

text \<open>
  A verification library for huski-bsc-contract: the TypeScript of the repository (the airdrop
  generator under \<open>utils\<close>, the deployment scripts under \<open>deploy\<close>, the validation under \<open>validate\<close>) and
  the contracts these programs are about, as far as they decide whether the programs are right.

  The parts and their theories:

  Vocabulary.  \<open>Prelude\<close>: failures as values, the error monad, arrays, decimal texts.  \<open>Buffers\<close>:
  byte strings, hexadecimal and the hash parameter.  \<open>Solidity\<close>: addresses, \<open>uint256\<close>, the
  arithmetic of SafeMath as the parameter \<open>safe_math\<close>, messages.  \<open>Runtime\<close>: JavaScript values, the
  configuration object (\<open>deploy/results/*.json\<close>), the scripting runtime \<open>hre\<close> (hardhat, ethers and the
  chain as one parameter that answers requests and changes a world of any type), scripts as state
  transformers that return or throw, \<open>FileService.write\<close>, and the rules (\<open>script_simps\<close>, \<open>goes\<close>) that run them.

  Airdrop.  \<open>Merkle_Tree\<close> (\<open>utils/merkle-tree.ts\<close>), \<open>Balance_Tree\<close> (\<open>utils/balance-tree.ts\<close>) and \<open>Balance_Map\<close>
  (\<open>utils/parse-balance-map.ts\<close>): the tree and its proofs, the leaves, and the distribution that is
  published.  \<open>Merkle_Distributor\<close> (\<open>contracts/6/token/MerkleDistributor.sol\<close>) pays the claims; its lemmas link
  the published distribution to what the contract pays, in every history of calls.  The token is assumed not to
  call back into the distributor.  Hashing is a parameter; where a property needs it, the absence of a collision
  among the hashed texts is a hypothesis.

  Lending vaults.  \<open>Vault_Scripts\<close> (\<open>deploy/scripts/010-*\<close>, \<open>011-*\<close>), \<open>Fair_Launch\<close>
  (\<open>contracts/6/token/FairLaunch.sol\<close>, a step relation, its invariant and the identity of its pools), \<open>Vault_Links\<close>
  (the 011 scripts against that contract).  ethers answers when a transaction is submitted, not when it is executed:
  the relation \<open>mined\<close> keeps the submitted \<open>addPool\<close> calls until they are mined, at any later time, and the property
  assumes that this happens within the ten seconds the scripts sleep.

  Workers.  \<open>Worker_Scripts\<close> (\<open>deploy/scripts/014-*\<close> with their tables), \<open>Worker_Config\<close>
  (\<open>contracts/6/protocol/configs/WorkerConfig.sol\<close> and the guards of \<open>Vault.sol\<close> that read it, \<open>Vault_Guards\<close>, with the
  parameters the scripts set).

  The vault.  \<open>Vault_Contract\<close> is \<open>contracts/6/protocol/Vault.sol\<close> with every function.  A call to another contract is an
  interaction tree (\<open>run\<close>): the other contract may call the vault back any number of times before it answers.
  \<open>perform depth\<close> runs a transaction with at most \<open>depth\<close> nested calls; the chain allows 1024, and the theorems hold for
  every depth.  What the vault inherits from OpenZeppelin is \<open>vault_base\<close>, with its documented behaviour in \<open>base_ok\<close>.
  \<open>Vault_Debt\<close>: the locales \<open>state_relation\<close> and \<open>vault_relation\<close> carry a relation between states through every call,
  calls back included; the debt accounting is one instance.  \<open>Vault_Safety\<close>: the reentrancy lock is another, and with it
  a liquidation removes exactly one debt.  \<open>Vault_Health\<close>: a successful \<open>work\<close> leaves a position that a
  kill run directly afterwards, at the same time, cannot liquidate, when the kill factor is not below the work factor.
  \<open>Vault_Lenders\<close>: a deposit is paid for in full, and deposits and withdrawals are fair to the other lenders.  \<open>Interest_Model\<close>: the three models under
  \<open>interestmodels\<close>, \<open>configs/BasicVaultConfig.sol\<close>, and what the vault accrues with them.

  The farm.  \<open>Worker_Contract\<close> is \<open>contracts/6/protocol/workers/PancakeswapV2Worker.sol\<close>; \<open>Worker_Shares\<close> shows,
  through the locale \<open>worker_relation\<close>, that the shares add up, that no call takes LP tokens from another position, and
  that \<open>health\<close> is what the pair pays.  \<open>Strategy_Contract\<close> is the six strategies under
  \<open>strategies/pancakeswapV2\<close>; \<open>Husky_Math\<close> (\<open>utils/HuskyMath.sol\<close>) and \<open>Strategy_Sizing\<close> show that the swap before adding
  liquidity has the right size for all \<open>uint112\<close> amounts, \<open>Strategy_Repay\<close> that the debt comes back.
  \<open>Price_Oracle\<close> is the three oracles under \<open>priceoracles\<close>.

  Core scripts.  \<open>Core_Scripts\<close> (\<open>deploy/scripts\<close> 000 to 007, 012, 013, 020, 022, 023), \<open>Core_Wiring\<close> (what they
  deploy, how the contracts refer to each other and what they record), \<open>Core_Links\<close> (002 against FairLaunch),
  \<open>Config_File\<close> (the file and the object in memory agree after every script that returns).
  \<open>Setup_Scripts\<close>: \<open>deploy/setup\<close> h001 to h003, s002 to s006, s008, s013.  \<open>Validate\<close>: \<open>validate/\<close> for vaults and oracles.

  Timelock.  \<open>Timelock_Contract\<close> (\<open>contracts/6/Timelock.sol\<close>, with calls back from executed
  transactions, refined to a log of events; the decoding of the error message can revert, and
  \<open>executeTransaction\<close> decodes also what a successful call returned, so that the theorems say exactly when an
  execution passes), \<open>Timelock_Scripts\<close> (the scripts that queue transactions and print
  the commands that execute them), \<open>Timelock_Types\<close> (the queued calls are well typed), \<open>Timelock_Links\<close>
  (what the scripts submit, when it is mined in whatever state the timelock then is, makes the printed commands
  executable).

  Groups of lemmas.  Behaviour: what each operation does on every branch, errors included.  Runs:
  \<open>script_simps\<close>, \<open>steps\<close>, \<open>builds\<close>, \<open>emits\<close>, \<open>paired\<close>, \<open>prints\<close> and \<open>hoare\<close> describe what a script exchanged, printed
  and recorded; \<open>goes\<close> that it returns when the world answers.  Contracts: invariants over all histories.
  Interfaces are locales (\<open>worker_round\<close>, \<open>claim_set\<close>, the tree operations, the relations kept by the vault and
  by the worker), interpreted on the model's definitions.

  Bounds.  Contract integers are natural numbers with the bound \<open>uint_max\<close> checked where the code checks it;
  the bit map of the distributor is a \<open>256 word\<close>.  Loops are structural recursions on the tables or lists
  they run over; \<open>nesting\<close> (4) bounds the depth of argument types, whose deepest occurrence has depth 3.
  The tables of the scripts are copied in full.

  Not modelled.  Console output, except the printed timelock commands and the errors of the validation.
  \<open>validate_workers_config.ts\<close>, which interleaves unawaited queries with sleeps and only prints.
  \<open>hardhat.config.ts\<close> and \<open>hardhat.config.5.ts\<close>, settings of the build.  Under
  \<open>contracts\<close>: the CAKE pool worker with its strategies and configuration, \<open>migrateLP\<close>, \<open>SimpleVaultConfig\<close> and the
  tokens.  The worker is modelled without calls back into it: its functions for the operator are
  \<open>nonReentrant\<close>, the others belong to the owner; \<open>contracts/6/apis\<close> and \<open>contracts/6/mock\<close> are copies of other
  projects and test doubles.  The tests.  022 does not wait for its transactions: the model sends them in program
  order and drops their results.
\<close>

end
